theory Spec2Isabelle
  imports Complex_Main "HOL-Library.Product_Lexorder" "HOL-Library.Multiset"
begin

section \<open>Numbers, dates and data frames\<close>

text \<open>
  A shallow embedding of \<^verbatim>\<open>src/code/modules/frequency_converter.py\<close> (class
  \<^verbatim>\<open>FrequencyConverter\<close>).

  The cells of a numeric pandas column are IEEE doubles. They are modelled by \<open>fl\<close>: a
  finite value (an exact real: rounding is abstracted away), the two infinities and NaN,
  which pandas also uses for a missing value. The three operations the source applies to
  them follow numpy's scalar arithmetic: a division by zero raises nothing and returns an
  infinity or NaN. The zero of the model stands for \<open>+0.0\<close> (the divisors of the source
  are \<open>1 + g / 100\<close>, never \<open>-0.0\<close>, and a nominal value).
\<close>

datatype fl = Fin real | PInf | NInf | NaN

fun fl_neg :: "fl \<Rightarrow> fl" where
  "fl_neg (Fin a) = Fin (- a)"
| "fl_neg PInf = NInf"
| "fl_neg NInf = PInf"
| "fl_neg NaN = NaN"

fun fl_add :: "fl \<Rightarrow> fl \<Rightarrow> fl" where
  "fl_add (Fin a) (Fin b) = Fin (a + b)"
| "fl_add (Fin a) PInf = PInf"
| "fl_add (Fin a) NInf = NInf"
| "fl_add PInf (Fin b) = PInf"
| "fl_add PInf PInf = PInf"
| "fl_add PInf NInf = NaN"
| "fl_add NInf (Fin b) = NInf"
| "fl_add NInf NInf = NInf"
| "fl_add NInf PInf = NaN"
| "fl_add NaN y = NaN"
| "fl_add x NaN = NaN"

fun fl_mul :: "fl \<Rightarrow> fl \<Rightarrow> fl" where
  "fl_mul (Fin a) (Fin b) = Fin (a * b)"
| "fl_mul (Fin a) PInf = (if a = 0 then NaN else if 0 < a then PInf else NInf)"
| "fl_mul (Fin a) NInf = (if a = 0 then NaN else if 0 < a then NInf else PInf)"
| "fl_mul PInf (Fin b) = (if b = 0 then NaN else if 0 < b then PInf else NInf)"
| "fl_mul NInf (Fin b) = (if b = 0 then NaN else if 0 < b then NInf else PInf)"
| "fl_mul PInf PInf = PInf"
| "fl_mul PInf NInf = NInf"
| "fl_mul NInf PInf = NInf"
| "fl_mul NInf NInf = PInf"
| "fl_mul NaN y = NaN"
| "fl_mul x NaN = NaN"

fun fl_div :: "fl \<Rightarrow> fl \<Rightarrow> fl" where
  "fl_div (Fin a) (Fin b) =
     (if b \<noteq> 0 then Fin (a / b)
      else if a = 0 then NaN else if 0 < a then PInf else NInf)"
| "fl_div (Fin a) PInf = Fin 0"
| "fl_div (Fin a) NInf = Fin 0"
| "fl_div PInf (Fin b) = (if 0 \<le> b then PInf else NInf)"
| "fl_div NInf (Fin b) = (if 0 \<le> b then NInf else PInf)"
| "fl_div PInf PInf = NaN"
| "fl_div PInf NInf = NaN"
| "fl_div NInf PInf = NaN"
| "fl_div NInf NInf = NaN"
| "fl_div NaN y = NaN"
| "fl_div x NaN = NaN"

text \<open>\<^verbatim>\<open>pd.notna\<close> / \<^verbatim>\<open>pd.isna\<close> on a float: only NaN is missing; an infinity is not.\<close>

definition notna :: "fl \<Rightarrow> bool" where
  "notna x = (x \<noteq> NaN)"

text \<open>The expression \<^verbatim>\<open>(1 + growth_rate / 100)\<close> of lines 328, 348 and 369.\<close>

definition growth_factor :: "fl \<Rightarrow> fl" where
  "growth_factor growth_rate = fl_add (Fin 1) (fl_div growth_rate (Fin 100))"

text \<open>
  A \<^verbatim>\<open>pd.Timestamp\<close> at midnight: the \<^verbatim>\<open>date\<close> column after
  \<^verbatim>\<open>pd.to_datetime\<close>. Timestamps are ordered by (year, month, day).
\<close>

record timestamp =
  year :: int
  month :: nat
  day :: nat

definition date_key :: "timestamp \<Rightarrow> int \<times> nat \<times> nat" where
  "date_key d = (year d, month d, day d)"

text \<open>
  A cell is a number or a text. A row carries its \<^verbatim>\<open>date\<close> and the cells of the other
  columns by name; a frame lists the other columns in order with their dtype (numeric:
  what \<^verbatim>\<open>select_dtypes(include=[np.number])\<close> keeps) and its rows in index order.
\<close>

datatype cell = Num fl | Txt string

datatype dtype = Numeric | Object

record row =
  date :: timestamp
  cells :: "string \<rightharpoonup> cell"

record dataframe =
  columns :: "(string \<times> dtype) list"
  rows :: "row list"

datatype error = KeyError string | IndexError | TypeError

text \<open>Reading a cell by column name raises KeyError for an absent column.\<close>

definition loc :: "row \<Rightarrow> string \<Rightarrow> error + cell" where
  "loc r c = (case cells r c of None \<Rightarrow> Inl (KeyError c) | Some v \<Rightarrow> Inr v)"

text \<open>Arithmetic on (or numeric formatting of) a text cell raises.\<close>

definition num :: "cell \<Rightarrow> error + fl" where
  "num v = (case v of Num x \<Rightarrow> Inr x | Txt s \<Rightarrow> Inl TypeError)"

definition set_cell :: "row \<Rightarrow> string \<Rightarrow> cell \<Rightarrow> row" where
  "set_cell r c v = r\<lparr>cells := (cells r)(c \<mapsto> v)\<rparr>"

text \<open>\<^verbatim>\<open>df[c] = ...\<close> on the column list: a new column goes last, an old one keeps its place.\<close>

definition assign_dtype :: "(string \<times> dtype) list \<Rightarrow> string \<Rightarrow> dtype \<Rightarrow> (string \<times> dtype) list" where
  "assign_dtype cs c t =
     (if c \<in> fst ` set cs then map (\<lambda>(n, d). if n = c then (n, t) else (n, d)) cs
      else cs @ [(c, t)])"

text \<open>\<^verbatim>\<open>df.drop(columns=names, errors='ignore')\<close>.\<close>

definition drop_columns :: "dataframe \<Rightarrow> string list \<Rightarrow> dataframe" where
  "drop_columns df names =
     \<lparr>columns = filter (\<lambda>(n, d). n \<notin> set names) (columns df),
      rows = map (\<lambda>r. r\<lparr>cells := (\<lambda>c. if c \<in> set names then None else cells r c)\<rparr>) (rows df)\<rparr>"


text \<open>Sequencing in the presence of exceptions: the first raise ends the computation.\<close>

definition bind_err :: "error + 'a \<Rightarrow> ('a \<Rightarrow> error + 'b) \<Rightarrow> error + 'b" where
  "bind_err m f = (case m of Inl e \<Rightarrow> Inl e | Inr x \<Rightarrow> f x)"

text \<open>A \<^verbatim>\<open>for i in ...\<close> loop over a list of indices, threading the mutated state.\<close>

fun for_loop :: "(nat \<Rightarrow> 's \<Rightarrow> error + 's) \<Rightarrow> nat list \<Rightarrow> 's \<Rightarrow> error + 's" where
  "for_loop body [] s = Inr s"
| "for_loop body (i # js) s = bind_err (body i s) (for_loop body js)"

text \<open>\<^verbatim>\<open>xs.index(x)\<close> for an element that occurs in the list.\<close>

definition index_of :: "'a list \<Rightarrow> 'a \<Rightarrow> nat" where
  "index_of xs x = length (takeWhile (\<lambda>y. y \<noteq> x) xs)"

section \<open>Chain-linked real values: \<^verbatim>\<open>_convert_gdp_to_real\<close>\<close>

text \<open>
  What the function prints through \<^verbatim>\<open>utils.print_section\<close>, \<^verbatim>\<open>utils.print_warning\<close> and
  \<^verbatim>\<open>utils.print_success\<close>, in order. These are all the diagnostics it has.
\<close>

datatype msg =
    Section_real_gdp int
  | Warn_no_annual_data
  | Warn_base_year_not_found int
  | Ok_using_base_year int
  | Ok_base_nominal int fl
  | Ok_done nat nat

fun is_warning :: "msg \<Rightarrow> bool" where
  "is_warning Warn_no_annual_data = True"
| "is_warning (Warn_base_year_not_found y) = True"
| "is_warning m = False"

text \<open>
  The name of the helper column, \<^verbatim>\<open>f'{value_col}_\<dots>'\<close> (line 276): the value column's name
  followed by an underscore and three CJK characters, here in UTF-8.
\<close>

definition real_suffix :: string where
  "real_suffix = [CHR ''_'', CHR 0xE4, CHR 0xB8, CHR 0x8D, CHR 0xE5, CHR 0x8F, CHR 0x98,
                  CHR 0xE4, CHR 0xBB, CHR 0xB7]"

definition real_gdp_col :: "string \<Rightarrow> string" where
  "real_gdp_col value_col = value_col @ real_suffix"

text \<open>
  Lines 271-280: the copy gets a \<^verbatim>\<open>year\<close> column and the helper column, all NaN, and is
  sorted by date (a stable sort here; pandas leaves the order of equal dates open) with
  the index renumbered, so that a row's index label is its position.
\<close>

definition add_helper_columns :: "string \<Rightarrow> row \<Rightarrow> row" where
  "add_helper_columns value_col r =
     set_cell (set_cell r ''year'' (Num (Fin (of_int (year (date r))))))
       (real_gdp_col value_col) (Num NaN)"

definition prepare_rows :: "dataframe \<Rightarrow> string \<Rightarrow> row list" where
  "prepare_rows df value_col =
     sort_key (\<lambda>r. date_key (date r)) (map (add_helper_columns value_col) (rows df))"

text \<open>
  Lines 286-291: the rows taken for full-year observations are those dated in December
  (\<^verbatim>\<open>df['date'].dt.month == 12\<close>), each with its index label; with no such row, every row
  is taken.
\<close>

definition annual_of :: "row list \<Rightarrow> (nat \<times> row) list \<times> msg list" where
  "annual_of df =
     (let annual_df = filter (\<lambda>(i, r). month (date r) = 12) (enumerate 0 df)
      in if annual_df = [] then (enumerate 0 df, [Warn_no_annual_data]) else (annual_df, []))"

text \<open>\<^verbatim>\<open>annual_df[annual_df['year'] == y]\<close>; the \<^verbatim>\<open>year\<close> column is the date's year (line 273).\<close>

definition year_rows :: "(nat \<times> row) list \<Rightarrow> int \<Rightarrow> (nat \<times> row) list" where
  "year_rows annual_df y = filter (\<lambda>(i, r). year (date r) = y) annual_df"

text \<open>Lines 294-299: the base year, or the year of the middle row of \<^verbatim>\<open>annual_df\<close>.\<close>

definition pick_base_year :: "(nat \<times> row) list \<Rightarrow> int \<Rightarrow> error + (int \<times> msg list)" where
  "pick_base_year annual_df base_year =
     (if year_rows annual_df base_year = [] then
        (if length annual_df div 2 < length annual_df then
           (let base_year' = year (date (snd (annual_df ! (length annual_df div 2))))
            in Inr (base_year', [Warn_base_year_not_found base_year, Ok_using_base_year base_year']))
         else Inl IndexError)
      else Inr (base_year, []))"

record chain_state =
  annual_real_gdp :: "int \<rightharpoonup> fl"
  real_column :: "fl list"

text \<open>Lines 316-330, one iteration of the forward loop.\<close>

definition forward_step ::
  "(nat \<times> row) list \<Rightarrow> string \<Rightarrow> int list \<Rightarrow> nat \<Rightarrow> chain_state \<Rightarrow> error + chain_state" where
  "forward_step annual_df growth_col years i s =
     (case year_rows annual_df (years ! i) of
        [] \<Rightarrow> Inr s
      | (year_idx, r) # _ \<Rightarrow>
          bind_err (loc r growth_col) (\<lambda>growth_rate.
            case annual_real_gdp s (years ! (i - 1)) of
              None \<Rightarrow> Inr s
            | Some prev \<Rightarrow>
                bind_err (num growth_rate) (\<lambda>g.
                  let real_gdp = fl_mul prev (growth_factor g)
                  in Inr (s\<lparr>annual_real_gdp := (annual_real_gdp s)(years ! i \<mapsto> real_gdp),
                            real_column := (real_column s)[year_idx := real_gdp]\<rparr>))))"

text \<open>Lines 333-351, one iteration of the backward loop.\<close>

definition backward_step ::
  "(nat \<times> row) list \<Rightarrow> string \<Rightarrow> int list \<Rightarrow> nat \<Rightarrow> chain_state \<Rightarrow> error + chain_state" where
  "backward_step annual_df growth_col years i s =
     (case year_rows annual_df (years ! i) of
        [] \<Rightarrow> Inr s
      | (year_idx, r) # _ \<Rightarrow>
          (case year_rows annual_df (years ! (i + 1)) of
             [] \<Rightarrow> Inr s
           | (next_year_idx, r') # _ \<Rightarrow>
               bind_err (loc r' growth_col) (\<lambda>growth_rate.
                 case annual_real_gdp s (years ! (i + 1)) of
                   None \<Rightarrow> Inr s
                 | Some next \<Rightarrow>
                     bind_err (num growth_rate) (\<lambda>g.
                       let real_gdp = fl_div next (growth_factor g)
                       in Inr (s\<lparr>annual_real_gdp := (annual_real_gdp s)(years ! i \<mapsto> real_gdp),
                                 real_column := (real_column s)[year_idx := real_gdp]\<rparr>)))))"

text \<open>Line 309: \<^verbatim>\<open>sorted(annual_df['year'].unique())\<close>.\<close>

definition available_years :: "(nat \<times> row) list \<Rightarrow> int list" where
  "available_years annual_df = sort (remdups (map (\<lambda>(i, r). year (date r)) annual_df))"

text \<open>
  Lines 286-351, the chain step: the anchor and the two propagation loops. The result is
  the dictionary \<^verbatim>\<open>annual_real_gdp\<close> and the helper column as they stand after line 351,
  with \<^verbatim>\<open>annual_df\<close>, the base year in use and the messages printed so far.
\<close>

definition chain_link ::
  "row list \<Rightarrow> string \<Rightarrow> string \<Rightarrow> int \<Rightarrow> error + (chain_state \<times> (nat \<times> row) list \<times> int \<times> msg list)" where
  "chain_link df value_col growth_col base_year0 =
     (let (annual_df, w1) = annual_of df in
      bind_err (pick_base_year annual_df base_year0) (\<lambda>(base_year, w2).
        case year_rows annual_df base_year of
          [] \<Rightarrow> Inl IndexError
        | (base_idx, base_row) # _ \<Rightarrow>
            bind_err (loc base_row value_col) (\<lambda>v.
            bind_err (num v) (\<lambda>base_nominal_gdp.
              let years = available_years annual_df;
                  base_year_idx = index_of years base_year;
                  s0 = \<lparr>annual_real_gdp = [base_year \<mapsto> base_nominal_gdp],
                        real_column = (replicate (length df) NaN)[base_idx := base_nominal_gdp]\<rparr>
              in bind_err (for_loop (forward_step annual_df growth_col years)
                             [Suc base_year_idx ..< length years] s0) (\<lambda>s1.
                 bind_err (for_loop (backward_step annual_df growth_col years)
                             (rev [0 ..< base_year_idx]) s1) (\<lambda>s2.
                   Inr (s2, annual_df, base_year,
                        [Section_real_gdp base_year0] @ w1 @ w2 @
                        [Ok_base_nominal base_year base_nominal_gdp])))))))"


text \<open>
  \<^verbatim>\<open>row['date'] - pd.DateOffset(years=1)\<close>: the same day of the year before; the 29th of
  February becomes the 28th.
\<close>

definition minus_one_year :: "timestamp \<Rightarrow> timestamp" where
  "minus_one_year d =
     \<lparr>year = year d - 1, month = month d,
      day = (if month d = 2 \<and> day d = 29 then 28 else day d)\<rparr>"

text \<open>
  Lines 355-377, one iteration of the loop over \<^verbatim>\<open>df.iterrows()\<close>. The rows the loop reads
  (\<^verbatim>\<open>row[...]\<close>) are those of the frame when the loop starts; the helper column is read
  live through \<^verbatim>\<open>df.loc\<close>.
\<close>

definition fill_step ::
  "row list \<Rightarrow> (nat \<times> row) list \<Rightarrow> string \<Rightarrow> string \<Rightarrow> (int \<rightharpoonup> fl) \<Rightarrow> nat \<Rightarrow> fl list
     \<Rightarrow> error + fl list" where
  "fill_step df annual_df value_col growth_col annual_real idx rcol =
     (if notna (rcol ! idx) then Inr rcol
      else
        let r = df ! idx; y = year (date r) in
        bind_err (loc r growth_col) (\<lambda>growth_rate.
          let prev_date = minus_one_year (date r);
              prev = filter (\<lambda>j. date (df ! j) = prev_date) [0 ..< length df]
          in if prev \<noteq> [] \<and> notna (rcol ! hd prev) then
               bind_err (num growth_rate) (\<lambda>g.
                 Inr (rcol[idx := fl_mul (rcol ! hd prev) (growth_factor g)]))
             else if annual_real (y - 1) \<noteq> None then
               bind_err
                 (case year_rows annual_df y of
                    [] \<Rightarrow> Inr (Fin 1)
                  | (year_idx, ry) # _ \<Rightarrow>
                      bind_err (loc r value_col) (\<lambda>a. bind_err (loc ry value_col) (\<lambda>b.
                      bind_err (num a) (\<lambda>a'. bind_err (num b) (\<lambda>b'. Inr (fl_div a' b'))))))
                 (\<lambda>nominal_ratio.
                    case annual_real y of
                      None \<Rightarrow> Inr rcol
                    | Some real_y \<Rightarrow> Inr (rcol[idx := fl_mul real_y nominal_ratio]))
             else Inr rcol))"

text \<open>
  \<^verbatim>\<open>Series.interpolate(method='linear')\<close>, modelled from the pandas documentation: the
  values count as equally spaced; a NaN between two values lies on the line through
  them; NaNs after the last value repeat it; NaNs before the first value stay, unless
  \<^verbatim>\<open>limit_direction='both'\<close>, when they repeat the first value.
\<close>

definition fl_sub :: "fl \<Rightarrow> fl \<Rightarrow> fl" where
  "fl_sub x y = fl_add x (fl_neg y)"

definition interpolate_linear :: "bool \<Rightarrow> fl list \<Rightarrow> fl list" where
  "interpolate_linear both xs =
     map (\<lambda>i. if notna (xs ! i) then xs ! i
              else (case (List.find (\<lambda>j. notna (xs ! j)) (rev [0 ..< i]),
                          List.find (\<lambda>j. notna (xs ! j)) [Suc i ..< length xs]) of
                      (None, None) \<Rightarrow> NaN
                    | (None, Some hi) \<Rightarrow> if both then xs ! hi else NaN
                    | (Some lo, None) \<Rightarrow> xs ! lo
                    | (Some lo, Some hi) \<Rightarrow>
                        fl_add (fl_mul (fl_div (fl_sub (xs ! hi) (xs ! lo)) (Fin (real (hi - lo))))
                                       (Fin (real (i - lo))))
                               (xs ! lo)))
         [0 ..< length xs]"

text \<open>
  \<^verbatim>\<open>_convert_gdp_to_real\<close>, lines 268-391. After the chain step come the loop over the rows
  still missing, the interpolation of what is missing after that, and the replacement of
  the value column; the helper column and \<^verbatim>\<open>year\<close> are dropped (line 389).
\<close>

definition convert_gdp_to_real ::
  "dataframe \<Rightarrow> string \<Rightarrow> string \<Rightarrow> int \<Rightarrow> error + (dataframe \<times> msg list)" where
  "convert_gdp_to_real df value_col growth_col base_year =
     (let sorted_rows = prepare_rows df value_col;
          cols = assign_dtype (assign_dtype (columns df) ''year'' Numeric)
                   (real_gdp_col value_col) Numeric
      in bind_err (chain_link sorted_rows value_col growth_col base_year)
           (\<lambda>(s, annual_df, base_year', msgs).
              let snapshot = map2 (\<lambda>r v. set_cell r (real_gdp_col value_col) (Num v))
                               sorted_rows (real_column s)
              in bind_err
                   (for_loop (fill_step snapshot annual_df value_col growth_col (annual_real_gdp s))
                      [0 ..< length sorted_rows] (real_column s))
                   (\<lambda>real1.
                      let real2 = (if filter (\<lambda>x. \<not> notna x) real1 \<noteq> []
                                   then interpolate_linear False real1 else real1);
                          filled_count = length (filter notna real2);
                          replaced = \<lparr>columns = assign_dtype cols value_col Numeric,
                                      rows = map2 (\<lambda>r v. set_cell r value_col (Num v))
                                               sorted_rows real2\<rparr>
                      in Inr (drop_columns replaced [real_gdp_col value_col, ''year''],
                              msgs @ [Ok_done filled_count (length sorted_rows)]))))"


section \<open>The three conversions to monthly data\<close>

text \<open>
  The cell of a numeric column as a number. In a frame whose cells agree with the dtype
  of their column the second case does not occur.
\<close>

definition cell_num :: "row \<Rightarrow> string \<Rightarrow> fl" where
  "cell_num r c = (case cells r c of Some (Num x) \<Rightarrow> x | _ \<Rightarrow> NaN)"

text \<open>\<^verbatim>\<open>df_indexed.select_dtypes(include=[np.number]).columns\<close> (lines 174 and 236).\<close>

definition numeric_cols :: "dataframe \<Rightarrow> (string \<times> dtype) list" where
  "numeric_cols df = filter (\<lambda>(n, d). d = Numeric) (columns df)"

text \<open>Calendar months, counted from year 0, and the first day of a month.\<close>

definition month_index :: "timestamp \<Rightarrow> int" where
  "month_index d = year d * 12 + (int (month d) - 1)"

definition month_start :: "int \<Rightarrow> timestamp" where
  "month_start k = \<lparr>year = k div 12, month = nat (k mod 12) + 1, day = 1\<rparr>"

text \<open>The mean of a group as pandas takes it: over the values that are not NaN.\<close>

definition fl_sum :: "fl list \<Rightarrow> fl" where
  "fl_sum xs = foldl fl_add (Fin 0) xs"

definition fl_mean :: "fl list \<Rightarrow> fl" where
  "fl_mean xs =
     (let vs = filter notna xs
      in if vs = [] then NaN else fl_div (fl_sum vs) (Fin (real (length vs))))"

text \<open>
  \<^verbatim>\<open>df_numeric.resample('MS').mean()\<close> followed by \<^verbatim>\<open>reset_index()\<close>, modelled from the pandas
  documentation: one bin for every calendar month from the month of the first date to
  the month of the last date, labelled by the first day of the month; every bin gives
  a row, and the mean of a bin with no value is NaN. The quarterly conversion below
  depends on exactly this: it interpolates over the rows of the months between two
  quarters.
\<close>

definition resample_ms_mean :: "dataframe \<Rightarrow> dataframe" where
  "resample_ms_mean df =
     (let cols = numeric_cols df;
          sorted_rows = sort_key (\<lambda>r. date_key (date r)) (rows df)
      in \<lparr>columns = cols,
          rows =
            (if sorted_rows = [] then []
             else map (\<lambda>k.
                    \<lparr>date = month_start k,
                     cells = (\<lambda>c. if c \<in> fst ` set cols
                                    then Some (Num (fl_mean (map (\<lambda>r. cell_num r c)
                                           (filter (\<lambda>r. month_index (date r) = k) sorted_rows))))
                                    else None)\<rparr>)
                    [month_index (date (hd sorted_rows)) .. month_index (date (last sorted_rows))])\<rparr>)"

text \<open>\<^verbatim>\<open>_aggregate_daily_to_monthly\<close>, lines 232-245.\<close>

definition aggregate_daily_to_monthly :: "dataframe \<Rightarrow> dataframe" where
  "aggregate_daily_to_monthly df = resample_ms_mean df"

text \<open>
  \<^verbatim>\<open>DataFrame.interpolate(method='linear', limit_direction='both')\<close>: every column on its
  own (\<^verbatim>\<open>config.INTERPOLATION_METHOD\<close> is \<^verbatim>\<open>"linear"\<close>).
\<close>

definition interpolate_frame :: "dataframe \<Rightarrow> dataframe" where
  "interpolate_frame df =
     \<lparr>columns = columns df,
      rows = map (\<lambda>i.
               (rows df ! i)\<lparr>cells :=
                 (\<lambda>c. if c \<in> fst ` set (columns df)
                      then Some (Num (interpolate_linear True (map (\<lambda>r. cell_num r c) (rows df)) ! i))
                      else cells (rows df ! i) c)\<rparr>)
             [0 ..< length (rows df)]\<rparr>"

text \<open>\<^verbatim>\<open>_interpolate_quarterly_to_monthly\<close>, lines 170-188.\<close>

definition interpolate_quarterly_to_monthly :: "dataframe \<Rightarrow> dataframe" where
  "interpolate_quarterly_to_monthly df = interpolate_frame (resample_ms_mean df)"

text \<open>
  \<^verbatim>\<open>_repeat_annual_to_monthly\<close>, lines 202-218: every row is copied twelve times, whole
  (\<^verbatim>\<open>row.copy()\<close>), with the date set to the first day of each month of its year; the
  column \<^verbatim>\<open>year\<close> is dropped from the result. A frame built from no row has no column.
\<close>

definition repeat_annual_to_monthly :: "dataframe \<Rightarrow> dataframe" where
  "repeat_annual_to_monthly df =
     (let all_monthly_data =
            concat (map (\<lambda>r. map (\<lambda>m. r\<lparr>date := \<lparr>year = year (date r), month = m, day = 1\<rparr>\<rparr>)
                                [1 ..< 13])
                        (rows df))
      in drop_columns
           \<lparr>columns = (if all_monthly_data = [] then [] else columns df),
            rows = all_monthly_data\<rparr>
           [''year''])"

section \<open>Detecting the frequency: \<^verbatim>\<open>process_file\<close>\<close>

text \<open>The day number of a date (the proleptic Gregorian ordinal), for differences in days.\<close>

definition is_leap :: "int \<Rightarrow> bool" where
  "is_leap y = (y mod 4 = 0 \<and> (y mod 100 \<noteq> 0 \<or> y mod 400 = 0))"

definition days_before_month :: "int \<Rightarrow> nat \<Rightarrow> int" where
  "days_before_month y m =
     [0, 31, 59, 90, 120, 151, 181, 212, 243, 273, 304, 334] ! (m - 1)
       + (if 2 < m \<and> is_leap y then 1 else 0)"

definition toordinal :: "timestamp \<Rightarrow> int" where
  "toordinal d =
     (year d - 1) * 365 + (year d - 1) div 4 - (year d - 1) div 100 + (year d - 1) div 400
       + days_before_month (year d) (month d) + int (day d)"

text \<open>\<^verbatim>\<open>Series.median()\<close>: NaN for no value, the mean of the two middle values for an even count.\<close>

definition median :: "real list \<Rightarrow> fl" where
  "median xs =
     (let s = sort xs; n = length s
      in if n = 0 then NaN
         else if odd n then Fin (s ! (n div 2))
         else Fin ((s ! (n div 2 - 1) + s ! (n div 2)) / 2))"

fun fl_abs :: "fl \<Rightarrow> fl" where
  "fl_abs (Fin a) = Fin \<bar>a\<bar>"
| "fl_abs PInf = PInf"
| "fl_abs NInf = PInf"
| "fl_abs NaN = NaN"

text \<open>Comparison of floats: every comparison with NaN is false.\<close>

fun fl_less :: "fl \<Rightarrow> fl \<Rightarrow> bool" where
  "fl_less (Fin a) (Fin b) = (a < b)"
| "fl_less (Fin a) PInf = True"
| "fl_less NInf (Fin b) = True"
| "fl_less NInf PInf = True"
| "fl_less x y = False"

text \<open>
  Lines 89-91: \<^verbatim>\<open>abs(df_sorted['date'].diff().dt.days.median())\<close>, the median of the gaps in
  days between consecutive dates of the sorted series.
\<close>

definition date_diff :: "dataframe \<Rightarrow> fl" where
  "date_diff df =
     (let ds = sort_key date_key (map date (rows df))
      in fl_abs (median (map2 (\<lambda>a b. real_of_int (toordinal b - toordinal a)) ds (tl ds))))"

datatype frequency = Daily | Quarterly | Annual | Monthly

text \<open>
  Lines 116-137, the dispatch on \<^verbatim>\<open>date_diff\<close>: the frequency the branch announces and
  \<^verbatim>\<open>result_df\<close>; the last branch has no result and returns False.
\<close>

definition resample :: "fl \<Rightarrow> dataframe \<Rightarrow> frequency \<times> dataframe option" where
  "resample diff df =
     (if fl_less diff (Fin 10) then (Daily, Some (aggregate_daily_to_monthly df))
      else if fl_less (Fin 50) diff \<and> fl_less diff (Fin 120)
        then (Quarterly, Some (interpolate_quarterly_to_monthly df))
      else if fl_less (Fin 300) diff then (Annual, Some (repeat_annual_to_monthly df))
      else (Monthly, None))"

text \<open>Strings: \<^verbatim>\<open>sub in s\<close> and \<^verbatim>\<open>s.replace(old, new)\<close> for a pattern that is not empty.\<close>

fun contains :: "string \<Rightarrow> string \<Rightarrow> bool" where
  "contains sub [] = (sub = [])"
| "contains sub (c # cs) = (take (length sub) (c # cs) = sub \<or> contains sub cs)"

fun replace_from :: "string \<Rightarrow> string \<Rightarrow> nat \<Rightarrow> string \<Rightarrow> string" where
  "replace_from old new k [] = []"
| "replace_from old new (Suc k) (c # cs) = replace_from old new k cs"
| "replace_from old new 0 (c # cs) =
     (if old \<noteq> [] \<and> take (length old) (c # cs) = old
      then new @ replace_from old new (length old - 1) cs
      else c # replace_from old new 0 cs)"

definition str_replace :: "string \<Rightarrow> string \<Rightarrow> string \<Rightarrow> string" where
  "str_replace s old new = replace_from old new 0 s"

text \<open>The column and file names of the source, in UTF-8.\<close>

definition gdp_value_col :: string where
  "gdp_value_col =
     [CHR 0xE5, CHR 0x9B, CHR 0xBD, CHR 0xE5, CHR 0x86, CHR 0x85, CHR 0xE7, CHR 0x94,
      CHR 0x9F, CHR 0xE4, CHR 0xBA, CHR 0xA7, CHR 0xE6, CHR 0x80, CHR 0xBB,
      CHR 0xE5, CHR 0x80, CHR 0xBC, CHR ''-'', CHR 0xE7, CHR 0xBB, CHR 0x9D,
      CHR 0xE5, CHR 0xAF, CHR 0xB9, CHR 0xE5, CHR 0x80, CHR 0xBC]"

definition gdp_growth_col :: string where
  "gdp_growth_col =
     [CHR 0xE5, CHR 0x9B, CHR 0xBD, CHR 0xE5, CHR 0x86, CHR 0x85, CHR 0xE7, CHR 0x94,
      CHR 0x9F, CHR 0xE4, CHR 0xBA, CHR 0xA7, CHR 0xE6, CHR 0x80, CHR 0xBB,
      CHR 0xE5, CHR 0x80, CHR 0xBC, CHR ''-'', CHR 0xE5, CHR 0x90, CHR 0x8C,
      CHR 0xE6, CHR 0xAF, CHR 0x94, CHR 0xE5, CHR 0xA2, CHR 0x9E, CHR 0xE9,
      CHR 0x95, CHR 0xBF]"

definition sector_1 :: string where
  "sector_1 =
     [CHR 0xE7, CHR 0xAC, CHR 0xAC, CHR 0xE4, CHR 0xB8, CHR 0x80, CHR 0xE4, CHR 0xBA,
      CHR 0xA7, CHR 0xE4, CHR 0xB8, CHR 0x9A]"

definition sector_2 :: string where
  "sector_2 =
     [CHR 0xE7, CHR 0xAC, CHR 0xAC, CHR 0xE4, CHR 0xBA, CHR 0x8C, CHR 0xE4, CHR 0xBA,
      CHR 0xA7, CHR 0xE4, CHR 0xB8, CHR 0x9A]"

definition sector_3 :: string where
  "sector_3 =
     [CHR 0xE7, CHR 0xAC, CHR 0xAC, CHR 0xE4, CHR 0xB8, CHR 0x89, CHR 0xE4, CHR 0xBA,
      CHR 0xA7, CHR 0xE4, CHR 0xB8, CHR 0x9A]"

definition value_suffix :: string where
  "value_suffix =
     [CHR ''-'', CHR 0xE7, CHR 0xBB, CHR 0x9D, CHR 0xE5, CHR 0xAF, CHR 0xB9, CHR 0xE5,
      CHR 0x80, CHR 0xBC]"

definition growth_suffix :: string where
  "growth_suffix =
     [CHR ''-'', CHR 0xE5, CHR 0x90, CHR 0x8C, CHR 0xE6, CHR 0xAF, CHR 0x94, CHR 0xE5,
      CHR 0xA2, CHR 0x9E, CHR 0xE9, CHR 0x95, CHR 0xBF]"

definition standard_suffix :: string where
  "standard_suffix =
     [CHR ''_'', CHR 0xE6, CHR 0xA0, CHR 0x87, CHR 0xE5, CHR 0x87, CHR 0x86, CHR 0xE6,
      CHR 0x97, CHR 0xA5, CHR 0xE6, CHR 0x9C, CHR 0x9F, CHR ''.'', CHR ''c'',
      CHR ''s'', CHR ''v'']"

definition monthly_suffix :: string where
  "monthly_suffix =
     [CHR ''_'', CHR 0xE6, CHR 0x9C, CHR 0x88, CHR 0xE5, CHR 0xBA, CHR 0xA6]"

definition BASE_YEAR :: int where
  "BASE_YEAR = 2015"

text \<open>
  Lines 94-114: a file whose name contains \<^verbatim>\<open>GDP\<close> and that has the GDP value column is
  converted to real values, and so is each of the three sectors that has both of its
  columns.
\<close>

definition has_column :: "dataframe \<Rightarrow> string \<Rightarrow> bool" where
  "has_column df c = (c \<in> fst ` set (columns df))"

fun convert_sectors :: "string list \<Rightarrow> dataframe \<Rightarrow> error + dataframe" where
  "convert_sectors [] df = Inr df"
| "convert_sectors (sector # sectors) df =
     (let value_col = sector @ value_suffix; growth_col = sector @ growth_suffix
      in if has_column df value_col \<and> has_column df growth_col
         then bind_err (convert_gdp_to_real df value_col growth_col BASE_YEAR)
                (\<lambda>(df', msgs). convert_sectors sectors df')
         else convert_sectors sectors df)"

definition convert_if_gdp :: "string \<Rightarrow> dataframe \<Rightarrow> error + dataframe" where
  "convert_if_gdp filename df =
     (if contains ''GDP'' filename \<and> has_column df gdp_value_col
      then bind_err (convert_gdp_to_real df gdp_value_col gdp_growth_col BASE_YEAR)
             (\<lambda>(df', msgs). convert_sectors [sector_1, sector_2, sector_3] df')
      else Inr df)"

text \<open>
  The data directory: a file is absent, unreadable (\<^verbatim>\<open>read_csv_safe\<close> returns None) or
  holds a table; \<^verbatim>\<open>save_csv_safe\<close> succeeds on the names that are writable.
\<close>

datatype csv_file = Unreadable | Table dataframe

record env =
  files :: "string \<rightharpoonup> csv_file"
  writable :: "string \<Rightarrow> bool"

text \<open>
  \<^verbatim>\<open>process_file\<close>, lines 73-156: whether the file was converted, the frequency announced
  (if that point was reached) and the data directory afterwards. Every exception is
  caught (line 152) and gives False.
\<close>

definition process_file :: "env \<Rightarrow> string \<Rightarrow> string \<Rightarrow> bool \<times> frequency option \<times> env" where
  "process_file e filename output_suffix =
     (case files e filename of
        None \<Rightarrow> (False, None, e)
      | Some Unreadable \<Rightarrow> (False, None, e)
      | Some (Table df) \<Rightarrow>
          (let diff = date_diff df in
           case convert_if_gdp filename df of
             Inl err \<Rightarrow> (False, None, e)
           | Inr df' \<Rightarrow>
               (case resample diff df' of
                  (freq, None) \<Rightarrow> (False, Some freq, e)
                | (freq, Some result_df) \<Rightarrow>
                    (let output_filename =
                           str_replace filename standard_suffix (output_suffix @ ''.csv'')
                     in if writable e output_filename
                        then (True, Some freq,
                              e\<lparr>files := (files e)(output_filename \<mapsto> Table result_df)\<rparr>)
                        else (False, Some freq, e)))))"


section \<open>The merged panel: \<^verbatim>\<open>create_unified_dataset\<close>\<close>

definition cpi_file :: string where
  "cpi_file =
     [CHR ''C'', CHR ''P'', CHR ''I'', CHR ''_'', CHR 0xE6, CHR 0xA0, CHR 0x87,
      CHR 0xE5, CHR 0x87, CHR 0x86, CHR 0xE6, CHR 0x97, CHR 0xA5, CHR 0xE6,
      CHR 0x9C, CHR 0x9F, CHR ''.'', CHR ''c'', CHR ''s'', CHR ''v'']"

definition ppi_file :: string where
  "ppi_file =
     [CHR ''P'', CHR ''P'', CHR ''I'', CHR ''_'', CHR 0xE6, CHR 0xA0, CHR 0x87,
      CHR 0xE5, CHR 0x87, CHR 0x86, CHR 0xE6, CHR 0x97, CHR 0xA5, CHR 0xE6,
      CHR 0x9C, CHR 0x9F, CHR ''.'', CHR ''c'', CHR ''s'', CHR ''v'']"

definition pmi_file :: string where
  "pmi_file =
     [CHR ''P'', CHR ''M'', CHR ''I'', CHR ''_'', CHR 0xE6, CHR 0xA0, CHR 0x87,
      CHR 0xE5, CHR 0x87, CHR 0x86, CHR 0xE6, CHR 0x97, CHR 0xA5, CHR 0xE6,
      CHR 0x9C, CHR 0x9F, CHR ''.'', CHR ''c'', CHR ''s'', CHR ''v'']"

definition loan_file :: string where
  "loan_file =
     [CHR 0xE6, CHR 0x96, CHR 0xB0, CHR 0xE5, CHR 0xA2, CHR 0x9E, CHR 0xE8, CHR 0xB4,
      CHR 0xB7, CHR 0xE6, CHR 0xAC, CHR 0xBE, CHR ''_'', CHR 0xE6, CHR 0xA0,
      CHR 0x87, CHR 0xE5, CHR 0x87, CHR 0x86, CHR 0xE6, CHR 0x97, CHR 0xA5,
      CHR 0xE6, CHR 0x9C, CHR 0x9F, CHR ''.'', CHR ''c'', CHR ''s'', CHR ''v'']"

definition gdp_monthly_file :: string where
  "gdp_monthly_file =
     [CHR ''G'', CHR ''D'', CHR ''P'', CHR ''_'', CHR 0xE6, CHR 0x9C, CHR 0x88,
      CHR 0xE5, CHR 0xBA, CHR 0xA6, CHR ''.'', CHR ''c'', CHR ''s'', CHR ''v'']"

definition spread_monthly_file :: string where
  "spread_monthly_file =
     [CHR 0xE5, CHR 0x9B, CHR 0xBD, CHR 0xE5, CHR 0x80, CHR 0xBA, CHR 0xE5, CHR 0x88,
      CHR 0xA9, CHR 0xE5, CHR 0xB7, CHR 0xAE, CHR ''_'', CHR 0xE6, CHR 0x9C,
      CHR 0x88, CHR 0xE5, CHR 0xBA, CHR 0xA6, CHR ''.'', CHR ''c'', CHR ''s'',
      CHR ''v'']"

definition cpi_level_col :: string where
  "cpi_level_col =
     [CHR 0xE5, CHR 0x85, CHR 0xA8, CHR 0xE5, CHR 0x9B, CHR 0xBD, CHR ''-'', CHR 0xE5,
      CHR 0xBD, CHR 0x93, CHR 0xE6, CHR 0x9C, CHR 0x88]"

definition cpi_yoy_col :: string where
  "cpi_yoy_col =
     [CHR 0xE5, CHR 0x85, CHR 0xA8, CHR 0xE5, CHR 0x9B, CHR 0xBD, CHR ''-'', CHR 0xE5,
      CHR 0x90, CHR 0x8C, CHR 0xE6, CHR 0xAF, CHR 0x94, CHR 0xE5, CHR 0xA2,
      CHR 0x9E, CHR 0xE9, CHR 0x95, CHR 0xBF]"

definition ppi_level_col :: string where
  "ppi_level_col =
     [CHR 0xE5, CHR 0xBD, CHR 0x93, CHR 0xE6, CHR 0x9C, CHR 0x88]"

definition ppi_yoy_col :: string where
  "ppi_yoy_col =
     [CHR 0xE5, CHR 0xBD, CHR 0x93, CHR 0xE6, CHR 0x9C, CHR 0x88, CHR 0xE5, CHR 0x90,
      CHR 0x8C, CHR 0xE6, CHR 0xAF, CHR 0x94, CHR 0xE5, CHR 0xA2, CHR 0x9E,
      CHR 0xE9, CHR 0x95, CHR 0xBF]"

definition pmi_col :: string where
  "pmi_col =
     [CHR 0xE5, CHR 0x88, CHR 0xB6, CHR 0xE9, CHR 0x80, CHR 0xA0, CHR 0xE4, CHR 0xB8,
      CHR 0x9A, CHR ''-'', CHR 0xE6, CHR 0x8C, CHR 0x87, CHR 0xE6, CHR 0x95,
      CHR 0xB0]"

definition loan_yoy_col :: string where
  "loan_yoy_col =
     [CHR 0xE5, CHR 0xBD, CHR 0x93, CHR 0xE6, CHR 0x9C, CHR 0x88, CHR ''-'', CHR 0xE5,
      CHR 0x90, CHR 0x8C, CHR 0xE6, CHR 0xAF, CHR 0x94, CHR 0xE5, CHR 0xA2,
      CHR 0x9E, CHR 0xE9, CHR 0x95, CHR 0xBF]"

definition unified_monthly :: string where
  "unified_monthly =
     [CHR 0xE7, CHR 0xBB, CHR 0x9F, CHR 0xE4, CHR 0xB8, CHR 0x80, CHR 0xE6, CHR 0x9C,
      CHR 0x88, CHR 0xE5, CHR 0xBA, CHR 0xA6, CHR 0xE6, CHR 0x95, CHR 0xB0,
      CHR 0xE6, CHR 0x8D, CHR 0xAE, CHR 0xE9, CHR 0x9B, CHR 0x86, CHR ''.'',
      CHR ''c'', CHR ''s'', CHR ''v'']"

text \<open>Lines 403-410, the files to merge and the columns wanted of each.\<close>

definition files_to_merge :: "(string \<times> string list) list" where
  "files_to_merge =
     [(cpi_file, [cpi_level_col, cpi_yoy_col]),
      (ppi_file, [ppi_level_col, ppi_yoy_col]),
      (pmi_file, [pmi_col]),
      (loan_file, [ppi_level_col, loan_yoy_col]),
      (gdp_monthly_file, [gdp_value_col, gdp_growth_col]),
      (spread_monthly_file, [''spread''])]"

text \<open>\<^verbatim>\<open>df[['date'] + cols]\<close>: KeyError for a column the frame does not have.\<close>

definition select_columns :: "dataframe \<Rightarrow> string list \<Rightarrow> error + dataframe" where
  "select_columns df cols =
     (case filter (\<lambda>c. \<not> has_column df c) cols of
        c # _ \<Rightarrow> Inl (KeyError c)
      | [] \<Rightarrow>
          Inr \<lparr>columns = map (\<lambda>c. (c, case map_of (columns df) c of Some d \<Rightarrow> d | None \<Rightarrow> Object)) cols,
               rows = map (\<lambda>r. r\<lparr>cells := (\<lambda>c. if c \<in> set cols then cells r c else None)\<rparr>)
                        (rows df)\<rparr>)"

text \<open>\<^verbatim>\<open>df.rename(columns=rename_dict)\<close>.\<close>

definition renamed :: "(string \<times> string) list \<Rightarrow> string \<Rightarrow> string" where
  "renamed rename_dict c = (case map_of rename_dict c of Some c' \<Rightarrow> c' | None \<Rightarrow> c)"

definition rename_columns :: "dataframe \<Rightarrow> (string \<times> string) list \<Rightarrow> dataframe" where
  "rename_columns df rename_dict =
     \<lparr>columns = map (\<lambda>(n, d). (renamed rename_dict n, d)) (columns df),
      rows = map (\<lambda>r. r\<lparr>cells :=
                    (\<lambda>c'. case filter (\<lambda>(n, d). renamed rename_dict n = c') (columns df) of
                             [] \<Rightarrow> None
                           | (n, d) # _ \<Rightarrow> cells r n)\<rparr>)
               (rows df)\<rparr>"

text \<open>
  \<^verbatim>\<open>pd.merge(left, right, on='date', how='outer')\<close>, modelled from the pandas
  documentation: the keys are the dates of either frame, in order; a date of both frames
  gives every pairing of its left rows with its right rows; a date of one frame only
  gives that frame's rows with the other frame's columns missing (NaN). The names of
  the columns of the two frames are taken to be disjoint, as they are in the caller.
\<close>

definition pad_columns :: "(string \<times> dtype) list \<Rightarrow> row \<Rightarrow> row" where
  "pad_columns cols r =
     r\<lparr>cells := (\<lambda>c. if c \<in> fst ` set cols then Some (Num NaN) else cells r c)\<rparr>"

definition join_rows :: "row \<Rightarrow> row \<Rightarrow> row" where
  "join_rows a b = \<lparr>date = date a, cells = cells a ++ cells b\<rparr>"

definition merge_key :: "dataframe \<Rightarrow> dataframe \<Rightarrow> timestamp \<Rightarrow> row list" where
  "merge_key left right k =
     (let ls = filter (\<lambda>r. date r = k) (rows left);
          rs = filter (\<lambda>r. date r = k) (rows right)
      in if rs = [] then map (pad_columns (columns right)) ls
         else if ls = [] then map (pad_columns (columns left)) rs
         else concat (map (\<lambda>a. map (join_rows a) rs) ls))"

definition merge_outer :: "dataframe \<Rightarrow> dataframe \<Rightarrow> dataframe" where
  "merge_outer left right =
     (let keys = sort_key date_key (remdups (map date (rows left) @ map date (rows right)))
      in \<lparr>columns = columns left @ columns right,
          rows = concat (map (merge_key left right) keys)\<rparr>)"

text \<open>The decimal digits of a number, for \<^verbatim>\<open>f'{prefix}_{i}'\<close>.\<close>

fun string_of_nat :: "nat \<Rightarrow> string" where
  "string_of_nat n =
     (if n < 10 then [char_of (48 + n)]
      else string_of_nat (n div 10) @ [char_of (48 + n mod 10)])"

text \<open>
  Lines 429-457, one iteration of the merging loop: a file that is absent or unreadable,
  or has none of the wanted columns, is skipped.
\<close>

definition merge_file :: "env \<Rightarrow> dataframe \<Rightarrow> string \<times> string list \<Rightarrow> dataframe" where
  "merge_file e merged_df entry =
     (case files e (fst entry) of
        None \<Rightarrow> merged_df
      | Some Unreadable \<Rightarrow> merged_df
      | Some (Table df) \<Rightarrow>
          (let available_cols = filter (has_column df) (snd entry)
           in if available_cols = [] then merged_df
              else
                (let df_subset =
                       \<lparr>columns = map (\<lambda>c. (c, case map_of (columns df) c of Some d \<Rightarrow> d | None \<Rightarrow> Object))
                                    available_cols,
                        rows = map (\<lambda>r. r\<lparr>cells := (\<lambda>c. if c \<in> set available_cols then cells r c else None)\<rparr>)
                                 (rows df)\<rparr>;
                     prefix = takeWhile (\<lambda>ch. ch \<noteq> CHR ''_'') (fst entry);
                     rename_dict = map (\<lambda>(i, col). (col, prefix @ ''_'' @ string_of_nat i))
                                       (enumerate 0 available_cols)
                 in merge_outer merged_df (rename_columns df_subset rename_dict))))"

text \<open>
  \<^verbatim>\<open>create_unified_dataset\<close>, lines 400-480: the panel returned (None when the base file
  is absent or unreadable, or the panel cannot be saved) and the data directory
  afterwards. The printing of the date range and of the missing values is left out.
\<close>

definition create_unified_dataset :: "env \<Rightarrow> error + (dataframe option \<times> env)" where
  "create_unified_dataset e =
     (case files e cpi_file of
        None \<Rightarrow> Inr (None, e)
      | Some Unreadable \<Rightarrow> Inr (None, e)
      | Some (Table base) \<Rightarrow>
          bind_err (select_columns base [cpi_level_col, cpi_yoy_col]) (\<lambda>b.
            let merged0 = rename_columns b [(cpi_level_col, ''CPI''), (cpi_yoy_col, ''CPI_yoy'')];
                merged1 = foldl (merge_file e) merged0 (tl files_to_merge);
                merged_df = merged1\<lparr>rows := sort_key (\<lambda>r. date_key (date r)) (rows merged1)\<rparr>
            in if writable e unified_monthly
               then Inr (Some merged_df,
                         e\<lparr>files := (files e)(unified_monthly \<mapsto> Table merged_df)\<rparr>)
               else Inr (None, e)))"

section \<open>Example data\<close>

text \<open>A year-end record with a nominal level and a growth rate in per cent.\<close>

definition year_end_row :: "int \<Rightarrow> real \<Rightarrow> real \<Rightarrow> row" where
  "year_end_row y l g =
     \<lparr>date = \<lparr>year = y, month = 12, day = 31\<rparr>,
      cells = [''level'' \<mapsto> Num (Fin l), ''growth'' \<mapsto> Num (Fin g)]\<rparr>"

text \<open>Year-end records for 2012, 2015 and 2018 only: two gaps of three years.\<close>

definition gap_rows :: "row list" where
  "gap_rows = [year_end_row 2012 800 2, year_end_row 2015 1000 4, year_end_row 2018 1300 5]"

text \<open>Scenario C of the specification: base year 2015, one year before and after.\<close>

definition scenario_c :: "row list" where
  "scenario_c = [year_end_row 2014 900 3, year_end_row 2015 1000 4, year_end_row 2016 1100 5]"

text \<open>What a caller sees of a result: the cells of a column, the column names, the warnings,
  and the helper column as the chain step leaves it (empty when the call raised).\<close>

definition out_values :: "error + (dataframe \<times> msg list) \<Rightarrow> string \<Rightarrow> cell option list" where
  "out_values res c =
     (case res of Inl e \<Rightarrow> [] | Inr (df, msgs) \<Rightarrow> map (\<lambda>r. cells r c) (rows df))"

definition out_columns :: "error + (dataframe \<times> msg list) \<Rightarrow> string list" where
  "out_columns res = (case res of Inl e \<Rightarrow> [] | Inr (df, msgs) \<Rightarrow> map fst (columns df))"

definition out_warnings :: "error + (dataframe \<times> msg list) \<Rightarrow> msg list" where
  "out_warnings res = (case res of Inl e \<Rightarrow> [] | Inr (df, msgs) \<Rightarrow> filter is_warning msgs)"

definition chain_column ::
  "error + (chain_state \<times> (nat \<times> row) list \<times> int \<times> msg list) \<Rightarrow> fl list" where
  "chain_column res = (case res of Inl e \<Rightarrow> [] | Inr (s, annual_df, base_year, msgs) \<Rightarrow> real_column s)"

text \<open>A frame with a nominal level and a growth rate, and two series in which a growth
  rate of -100 per cent comes after and at the base year.\<close>

definition level_growth_frame :: "row list \<Rightarrow> dataframe" where
  "level_growth_frame rs = \<lparr>columns = [(''level'', Numeric), (''growth'', Numeric)], rows = rs\<rparr>"

definition degenerate_forward :: dataframe where
  "degenerate_forward = level_growth_frame [year_end_row 2015 1000 7, year_end_row 2016 1200 (- 100)]"

definition degenerate_backward :: dataframe where
  "degenerate_backward = level_growth_frame [year_end_row 2014 900 2, year_end_row 2015 1000 (- 100)]"

text \<open>Words for the statements: the years of a frame's year-end records (its records
  dated in December, as line 286 takes them), one per record, and a row whose cell in a
  column is a number.\<close>

definition year_end_years :: "dataframe \<Rightarrow> int list" where
  "year_end_years df = map (\<lambda>r. year (date r)) (filter (\<lambda>r. month (date r) = 12) (rows df))"

definition numeric_at :: "string \<Rightarrow> row \<Rightarrow> bool" where
  "numeric_at c r = (\<exists>x. cells r c = Some (Num x))"

text \<open>
  Series of one numeric column \<^verbatim>\<open>rate\<close>: two observations 50 days apart and two
  120 days apart, three monthly observations, and Scenario A of the specification (two
  quarter ends). \<open>data_dir\<close> holds one of them as the file \<^verbatim>\<open>rate.csv\<close>.
\<close>

definition observation :: "int \<Rightarrow> nat \<Rightarrow> nat \<Rightarrow> real \<Rightarrow> row" where
  "observation y m d v =
     \<lparr>date = \<lparr>year = y, month = m, day = d\<rparr>, cells = [''rate'' \<mapsto> Num (Fin v)]\<rparr>"

definition rate_frame :: "row list \<Rightarrow> dataframe" where
  "rate_frame rs = \<lparr>columns = [(''rate'', Numeric)], rows = rs\<rparr>"

definition gap_50_frame :: dataframe where
  "gap_50_frame = rate_frame [observation 2020 1 1 3, observation 2020 2 20 4]"

definition gap_120_frame :: dataframe where
  "gap_120_frame = rate_frame [observation 2020 1 1 3, observation 2020 4 30 4]"

definition monthly_frame :: dataframe where
  "monthly_frame =
     rate_frame [observation 2020 1 1 3, observation 2020 2 1 4, observation 2020 3 1 5]"

definition scenario_a :: dataframe where
  "scenario_a = rate_frame [observation 2020 3 31 100, observation 2020 6 30 110]"

definition column_values :: "dataframe \<Rightarrow> string \<Rightarrow> fl list" where
  "column_values df c = map (\<lambda>r. cell_num r c) (rows df)"

definition data_dir :: "dataframe \<Rightarrow> env" where
  "data_dir df = \<lparr>files = [''rate.csv'' \<mapsto> Table df], writable = (\<lambda>name. True)\<rparr>"

text \<open>Words for the statements about resampling: the first and last calendar month of
  a series, the observations of a month in date order, and the cells of a column.\<close>

definition first_month :: "dataframe \<Rightarrow> int" where
  "first_month df = month_index (date (hd (sort_key (\<lambda>r. date_key (date r)) (rows df))))"

definition last_month :: "dataframe \<Rightarrow> int" where
  "last_month df = month_index (date (last (sort_key (\<lambda>r. date_key (date r)) (rows df))))"

definition month_rows :: "dataframe \<Rightarrow> int \<Rightarrow> row list" where
  "month_rows df k =
     filter (\<lambda>r. month_index (date r) = k) (sort_key (\<lambda>r. date_key (date r)) (rows df))"

text \<open>Daily observations at the end of January and the start of March 2020, none in
  February; and two annual records with a text column.\<close>

definition daily_with_gap :: dataframe where
  "daily_with_gap =
     rate_frame [observation 2020 1 30 1, observation 2020 1 31 3,
                 observation 2020 3 1 5, observation 2020 3 2 7]"

definition cell_values :: "dataframe \<Rightarrow> string \<Rightarrow> cell option list" where
  "cell_values df c = map (\<lambda>r. cells r c) (rows df)"

definition annual_with_note :: dataframe where
  "annual_with_note =
     \<lparr>columns = [(''value'', Numeric), (''note'', Object)],
      rows = [\<lparr>date = \<lparr>year = 2020, month = 12, day = 31\<rparr>,
                cells = [''value'' \<mapsto> Num (Fin 480), ''note'' \<mapsto> Txt ''final'']\<rparr>,
              \<lparr>date = \<lparr>year = 2021, month = 12, day = 31\<rparr>,
                cells = [''value'' \<mapsto> Num (Fin 500), ''note'' \<mapsto> Txt ''provisional'']\<rparr>]\<rparr>"

text \<open>
  A series with year-end and mid-year records and no year-end record for 2013. The chain
  step resolves the four year-end rows; of the mid-year rows, that of 2015 is filled from
  the ratio of its nominal value to the year-end one, that of 2016 from the row a year
  before it and its growth rate, and that of 2014 is left to the interpolation.
\<close>

definition dated_row :: "int \<Rightarrow> nat \<Rightarrow> nat \<Rightarrow> real \<Rightarrow> real \<Rightarrow> row" where
  "dated_row y m d l g =
     \<lparr>date = \<lparr>year = y, month = m, day = d\<rparr>,
      cells = [''level'' \<mapsto> Num (Fin l), ''growth'' \<mapsto> Num (Fin g)]\<rparr>"

definition mixed_rows :: "row list" where
  "mixed_rows =
     [dated_row 2012 12 31 400 2, dated_row 2014 6 30 450 7, dated_row 2014 12 31 900 60,
      dated_row 2015 6 30 480 6, dated_row 2015 12 31 1000 25, dated_row 2016 6 30 520 10,
      dated_row 2016 12 31 1100 5]"

text \<open>The helper column after the loop over the rows still missing (line 377) and after
  the interpolation (line 381); nothing when the chain step or the loop raised.\<close>

definition filled_columns :: "row list \<Rightarrow> string \<Rightarrow> string \<Rightarrow> int \<Rightarrow> (fl list \<times> fl list) option" where
  "filled_columns sorted_rows value_col growth_col base_year =
     (case chain_link sorted_rows value_col growth_col base_year of
        Inl e \<Rightarrow> None
      | Inr (s, annual_df, base_year', msgs) \<Rightarrow>
          (case for_loop (fill_step (map2 (\<lambda>r v. set_cell r (real_gdp_col value_col) (Num v))
                                      sorted_rows (real_column s))
                            annual_df value_col growth_col (annual_real_gdp s))
                  [0 ..< length sorted_rows] (real_column s) of
             Inl e \<Rightarrow> None
           | Inr real1 \<Rightarrow> Some (real1, interpolate_linear False real1)))"

(*DEFS-END*)

section \<open>The chain step: what the two loops compute\<close>

subsection \<open>Exceptions and loops\<close>

lemma bind_err_Inr [simp]: "bind_err (Inr x) f = f x"
  by (simp add: bind_err_def)

lemma bind_err_Inl [simp]: "bind_err (Inl e) f = Inl e"
  by (simp add: bind_err_def)

lemma bind_err_eq_Inr:
  "bind_err m f = Inr y \<longleftrightarrow> (\<exists>x. m = Inr x \<and> f x = Inr y)"
  by (cases m) auto

lemma for_loop_append:
  "for_loop body (xs @ ys) s = bind_err (for_loop body xs s) (for_loop body ys)"
  by (induction xs arbitrary: s) (auto simp: bind_err_def split: sum.splits)

lemma for_loop_append_Inr:
  assumes "for_loop body (xs @ ys) s = Inr s'"
  obtains s1 where "for_loop body xs s = Inr s1" and "for_loop body ys s1 = Inr s'"
  using assms by (auto simp: for_loop_append bind_err_eq_Inr)

lemma for_loop_Cons_Inr:
  assumes "for_loop body (i # js) s = Inr s'"
  obtains s1 where "body i s = Inr s1" and "for_loop body js s1 = Inr s'"
  using assms by (auto simp: bind_err_eq_Inr)

text \<open>A loop whose steps all preserve a property of the state preserves it.\<close>

lemma for_loop_preserves:
  assumes "for_loop body js s = Inr s'"
    and "\<And>j t t'. j \<in> set js \<Longrightarrow> body j t = Inr t' \<Longrightarrow> P t \<Longrightarrow> P t'"
    and "P s"
  shows "P s'"
  using assms
proof (induction js arbitrary: s)
  case Nil
  then show ?case by simp
next
  case (Cons j js)
  from Cons.prems(1) obtain s1 where 1: "body j s = Inr s1"
    and 2: "for_loop body js s1 = Inr s'"
    by (rule for_loop_Cons_Inr)
  have 3: "P s1" using Cons.prems(2)[OF _ 1 Cons.prems(3)] by simp
  show ?case
  proof (rule Cons.IH[OF 2 _ 3])
    fix k t t'
    assume "k \<in> set js" "body k t = Inr t'" "P t"
    then show "P t'" using Cons.prems(2)[of k t t'] by simp
  qed
qed

lemma for_loop_total:
  assumes "\<And>j t. j \<in> set js \<Longrightarrow> \<exists>t'. body j t = Inr t'"
  shows "\<exists>s'. for_loop body js s = Inr s'"
  using assms
proof (induction js arbitrary: s)
  case Nil
  then show ?case by simp
next
  case (Cons j js)
  from Cons.prems[of j s] obtain s1 where 1: "body j s = Inr s1" by auto
  from Cons.IH[of s1] Cons.prems obtain s' where "for_loop body js s1 = Inr s'" by auto
  with 1 show ?case by simp
qed

subsection \<open>The steps\<close>

lemma forward_step_cases:
  assumes "forward_step A gc ys i s = Inr s'"
  shows "s' = s \<or> (\<exists>idx r rest g rp. year_rows A (ys ! i) = (idx, r) # rest \<and>
            cells r gc = Some (Num g) \<and> annual_real_gdp s (ys ! (i - 1)) = Some rp \<and>
            s' = s\<lparr>annual_real_gdp := (annual_real_gdp s)(ys ! i \<mapsto> fl_mul rp (growth_factor g)),
                   real_column := (real_column s)[idx := fl_mul rp (growth_factor g)]\<rparr>)"
  using assms
  by (auto simp: forward_step_def bind_err_eq_Inr loc_def num_def Let_def
           split: list.splits option.splits cell.splits)

lemma forward_step_eq:
  assumes "forward_step A gc ys i s = Inr s'"
    and "year_rows A (ys ! i) = (idx, r) # rest"
    and "annual_real_gdp s (ys ! (i - 1)) = Some rp"
    and "cells r gc = Some (Num g)"
  shows "s' = s\<lparr>annual_real_gdp := (annual_real_gdp s)(ys ! i \<mapsto> fl_mul rp (growth_factor g)),
                 real_column := (real_column s)[idx := fl_mul rp (growth_factor g)]\<rparr>"
  using assms
  by (auto simp: forward_step_def bind_err_eq_Inr loc_def num_def Let_def)

lemma backward_step_cases:
  assumes "backward_step A gc ys i s = Inr s'"
  shows "s' = s \<or> (\<exists>idx r rest idx' r' rest' g rn. year_rows A (ys ! i) = (idx, r) # rest \<and>
            year_rows A (ys ! (i + 1)) = (idx', r') # rest' \<and>
            cells r' gc = Some (Num g) \<and> annual_real_gdp s (ys ! (i + 1)) = Some rn \<and>
            s' = s\<lparr>annual_real_gdp := (annual_real_gdp s)(ys ! i \<mapsto> fl_div rn (growth_factor g)),
                   real_column := (real_column s)[idx := fl_div rn (growth_factor g)]\<rparr>)"
  using assms
  by (auto simp: backward_step_def bind_err_eq_Inr loc_def num_def Let_def
           split: list.splits option.splits cell.splits)

lemma backward_step_eq:
  assumes "backward_step A gc ys i s = Inr s'"
    and "year_rows A (ys ! i) = (idx, r) # rest"
    and "year_rows A (ys ! (i + 1)) = (idx', r') # rest'"
    and "annual_real_gdp s (ys ! (i + 1)) = Some rn"
    and "cells r' gc = Some (Num g)"
  shows "s' = s\<lparr>annual_real_gdp := (annual_real_gdp s)(ys ! i \<mapsto> fl_div rn (growth_factor g)),
                 real_column := (real_column s)[idx := fl_div rn (growth_factor g)]\<rparr>"
  using assms
  by (auto simp: backward_step_def bind_err_eq_Inr loc_def num_def Let_def)


lemma forward_step_frame:
  assumes "forward_step A gc ys i s = Inr s'" and "z \<noteq> ys ! i"
  shows "annual_real_gdp s' z = annual_real_gdp s z"
  using forward_step_cases[OF assms(1)] assms(2) by auto

lemma forward_step_mono:
  assumes "forward_step A gc ys i s = Inr s'" and "annual_real_gdp s z \<noteq> None"
  shows "annual_real_gdp s' z \<noteq> None"
  using forward_step_cases[OF assms(1)] assms(2) by auto

lemma forward_step_length:
  assumes "forward_step A gc ys i s = Inr s'"
  shows "length (real_column s') = length (real_column s)"
  using forward_step_cases[OF assms(1)] by auto

lemma forward_step_col_frame:
  assumes "forward_step A gc ys i s = Inr s'"
    and "\<And>idx r rest. year_rows A (ys ! i) = (idx, r) # rest \<Longrightarrow> idx \<noteq> k"
  shows "real_column s' ! k = real_column s ! k"
  using forward_step_cases[OF assms(1)] assms(2) by (auto simp: nth_list_update)

lemma backward_step_frame:
  assumes "backward_step A gc ys i s = Inr s'" and "z \<noteq> ys ! i"
  shows "annual_real_gdp s' z = annual_real_gdp s z"
  using backward_step_cases[OF assms(1)] assms(2) by auto

lemma backward_step_mono:
  assumes "backward_step A gc ys i s = Inr s'" and "annual_real_gdp s z \<noteq> None"
  shows "annual_real_gdp s' z \<noteq> None"
  using backward_step_cases[OF assms(1)] assms(2) by auto

lemma backward_step_length:
  assumes "backward_step A gc ys i s = Inr s'"
  shows "length (real_column s') = length (real_column s)"
  using backward_step_cases[OF assms(1)] by auto

lemma backward_step_col_frame:
  assumes "backward_step A gc ys i s = Inr s'"
    and "\<And>idx r rest. year_rows A (ys ! i) = (idx, r) # rest \<Longrightarrow> idx \<noteq> k"
  shows "real_column s' ! k = real_column s ! k"
  using backward_step_cases[OF assms(1)] assms(2) by (auto simp: nth_list_update)

subsection \<open>The loops\<close>

lemma forward_loop_frame:
  assumes "for_loop (forward_step A gc ys) js s = Inr s'" and "\<And>j. j \<in> set js \<Longrightarrow> z \<noteq> ys ! j"
  shows "annual_real_gdp s' z = annual_real_gdp s z"
  by (rule for_loop_preserves[OF assms(1), where P = "\<lambda>t. annual_real_gdp t z = annual_real_gdp s z"])
     (auto dest: forward_step_frame assms(2))

lemma backward_loop_frame:
  assumes "for_loop (backward_step A gc ys) js s = Inr s'" and "\<And>j. j \<in> set js \<Longrightarrow> z \<noteq> ys ! j"
  shows "annual_real_gdp s' z = annual_real_gdp s z"
  by (rule for_loop_preserves[OF assms(1), where P = "\<lambda>t. annual_real_gdp t z = annual_real_gdp s z"])
     (auto dest: backward_step_frame assms(2))

lemma forward_loop_mono:
  assumes "for_loop (forward_step A gc ys) js s = Inr s'" and "annual_real_gdp s z \<noteq> None"
  shows "annual_real_gdp s' z \<noteq> None"
  by (rule for_loop_preserves[OF assms(1), where P = "\<lambda>t. annual_real_gdp t z \<noteq> None"])
     (auto dest: forward_step_mono simp: assms(2))

lemma backward_loop_mono:
  assumes "for_loop (backward_step A gc ys) js s = Inr s'" and "annual_real_gdp s z \<noteq> None"
  shows "annual_real_gdp s' z \<noteq> None"
  by (rule for_loop_preserves[OF assms(1), where P = "\<lambda>t. annual_real_gdp t z \<noteq> None"])
     (auto dest: backward_step_mono simp: assms(2))

lemma forward_loop_length:
  assumes "for_loop (forward_step A gc ys) js s = Inr s'"
  shows "length (real_column s') = length (real_column s)"
  by (rule for_loop_preserves[OF assms(1), where P = "\<lambda>t. length (real_column t) = length (real_column s)"])
     (auto dest: forward_step_length)

lemma backward_loop_length:
  assumes "for_loop (backward_step A gc ys) js s = Inr s'"
  shows "length (real_column s') = length (real_column s)"
  by (rule for_loop_preserves[OF assms(1), where P = "\<lambda>t. length (real_column t) = length (real_column s)"])
     (auto dest: backward_step_length)

lemma forward_loop_col_frame:
  assumes "for_loop (forward_step A gc ys) js s = Inr s'"
    and "\<And>j idx r rest. j \<in> set js \<Longrightarrow> year_rows A (ys ! j) = (idx, r) # rest \<Longrightarrow> idx \<noteq> k"
  shows "real_column s' ! k = real_column s ! k"
  by (rule for_loop_preserves[OF assms(1), where P = "\<lambda>t. real_column t ! k = real_column s ! k"])
     (auto dest: forward_step_col_frame assms(2))

lemma backward_loop_col_frame:
  assumes "for_loop (backward_step A gc ys) js s = Inr s'"
    and "\<And>j idx r rest. j \<in> set js \<Longrightarrow> year_rows A (ys ! j) = (idx, r) # rest \<Longrightarrow> idx \<noteq> k"
  shows "real_column s' ! k = real_column s ! k"
  by (rule for_loop_preserves[OF assms(1), where P = "\<lambda>t. real_column t ! k = real_column s ! k"])
     (auto dest: backward_step_col_frame assms(2))


subsection \<open>The rows of a year and the available years\<close>

lemma annual_of_mem:
  assumes "(i, r) \<in> set (fst (annual_of df))"
  shows "i < length df \<and> df ! i = r"
  using assms by (auto simp: annual_of_def Let_def in_set_enumerate_eq split: if_splits)

lemma annual_of_distinct: "distinct (map fst (fst (annual_of df)))"
  by (auto simp: annual_of_def Let_def distinct_map_filter)

lemma year_rows_mem:
  assumes "year_rows A y = (i, r) # rest"
  shows "(i, r) \<in> set A \<and> year (date r) = y"
proof -
  have "(i, r) \<in> set (year_rows A y)" using assms by simp
  then show ?thesis by (auto simp: year_rows_def)
qed

lemma year_rows_heads_differ:
  assumes "distinct (map fst A)"
    and "year_rows A y = (i, r) # rest" and "year_rows A y' = (i', r') # rest'"
    and "y \<noteq> y'"
  shows "i \<noteq> i'"
proof
  assume "i = i'"
  with year_rows_mem[OF assms(2)] year_rows_mem[OF assms(3)]
  have "(i, r) \<in> set A" "(i, r') \<in> set A" "year (date r) = y" "year (date r') = y'" by auto
  with assms(1) have "r = r'" by (meson eq_key_imp_eq_value)
  with \<open>year (date r) = y\<close> \<open>year (date r') = y'\<close> assms(4) show False by simp
qed

lemma set_available_years: "set (available_years A) = (\<lambda>(i, r). year (date r)) ` set A"
  by (simp add: available_years_def)

lemma distinct_available_years: "distinct (available_years A)"
  by (simp add: available_years_def)

lemma sorted_available_years: "sorted (available_years A)"
  by (simp add: available_years_def)

lemma year_rows_nonempty_iff: "year_rows A y \<noteq> [] \<longleftrightarrow> y \<in> set (available_years A)"
  by (auto simp: year_rows_def set_available_years filter_empty_conv)

lemma index_of_nth:
  assumes "x \<in> set xs"
  shows "index_of xs x < length xs \<and> xs ! index_of xs x = x"
  using assms unfolding index_of_def by (induction xs) auto

lemma sorted_distinct_nth_less:
  assumes "sorted xs" "distinct xs" "i < j" "j < length xs"
  shows "xs ! i < (xs ! j :: int)"
proof -
  have "xs ! i \<le> xs ! j" using assms by (simp add: sorted_nth_mono)
  moreover have "xs ! i \<noteq> xs ! j" using assms by (simp add: nth_eq_iff_index_eq)
  ultimately show ?thesis by simp
qed

lemma sorted_distinct_nth_less_iff:
  assumes "sorted xs" "distinct xs" "i < length xs" "j < length xs"
  shows "xs ! i < (xs ! j :: int) \<longleftrightarrow> i < j"
proof
  assume l: "xs ! i < xs ! j"
  show "i < j"
  proof (rule ccontr)
    assume "\<not> i < j"
    then have "j = i \<or> j < i" by auto
    then show False
    proof
      assume "j = i" with l show False by simp
    next
      assume "j < i"
      from sorted_distinct_nth_less[OF assms(1,2) this assms(3)] l show False by simp
    qed
  qed
next
  assume "i < j" then show "xs ! i < xs ! j"
    using sorted_distinct_nth_less[OF assms(1,2) _ assms(4)] by simp
qed

text \<open>Two years of the list with no year of the list between them are neighbours in it.\<close>

lemma adjacent_in_sorted:
  assumes "sorted xs" "distinct xs" "p \<in> set xs" "y \<in> set xs" "p < (y::int)"
    and "\<And>z. z \<in> set xs \<Longrightarrow> \<not> (p < z \<and> z < y)"
  shows "\<exists>i. Suc i < length xs \<and> xs ! i = p \<and> xs ! Suc i = y"
proof -
  from assms(3) obtain i where i: "i < length xs" "xs ! i = p" by (auto simp: in_set_conv_nth)
  from assms(4) obtain j where j: "j < length xs" "xs ! j = y" by (auto simp: in_set_conv_nth)
  have ij: "i < j"
    using sorted_distinct_nth_less_iff[OF assms(1,2) i(1) j(1)] i(2) j(2) assms(5) by simp
  have "j = Suc i"
  proof (rule ccontr)
    assume "j \<noteq> Suc i"
    with ij have 1: "i < Suc i" "Suc i < j" by auto
    then have 2: "Suc i < length xs" using j(1) by simp
    have "xs ! i < xs ! Suc i"
      using sorted_distinct_nth_less[OF assms(1,2) 1(1) 2] .
    moreover have "xs ! Suc i < xs ! j"
      using sorted_distinct_nth_less[OF assms(1,2) 1(2) j(1)] .
    moreover have "xs ! Suc i \<in> set xs" using 2 by simp
    ultimately show False using assms(6)[of "xs ! Suc i"] i(2) j(2) by simp
  qed
  with i j show ?thesis by auto
qed


subsection \<open>What the two loops compute\<close>

lemma forward_step_dom:
  assumes "forward_step A gc ys i s = Inr s'" and "year_rows A (ys ! i) \<noteq> []"
    and "annual_real_gdp s (ys ! (i - 1)) \<noteq> None"
  shows "annual_real_gdp s' (ys ! i) \<noteq> None"
  using assms
  by (auto simp: forward_step_def bind_err_eq_Inr loc_def num_def Let_def
           split: list.splits option.splits cell.splits)

lemma backward_step_dom:
  assumes "backward_step A gc ys i s = Inr s'" and "year_rows A (ys ! i) \<noteq> []"
    and "year_rows A (ys ! (i + 1)) \<noteq> []"
    and "annual_real_gdp s (ys ! (i + 1)) \<noteq> None"
  shows "annual_real_gdp s' (ys ! i) \<noteq> None"
  using assms
  by (auto simp: backward_step_def bind_err_eq_Inr loc_def num_def Let_def
           split: list.splits option.splits cell.splits)

lemma forward_loop_dom:
  assumes "for_loop (forward_step A gc ys) [Suc b ..< k] s0 = Inr s'"
    and "annual_real_gdp s0 (ys ! b) \<noteq> None"
    and "\<And>j. j < k \<Longrightarrow> year_rows A (ys ! j) \<noteq> []"
    and "b \<le> j" and "j < k \<or> j = b"
  shows "annual_real_gdp s' (ys ! j) \<noteq> None"
  using assms
proof (induction k arbitrary: s' j)
  case 0
  then show ?case by simp
next
  case (Suc k)
  show ?case
  proof (cases "b < k")
    case True
    then have "[Suc b ..< Suc k] = [Suc b ..< k] @ [k]" by simp
    with Suc.prems(1) obtain sa
      where a: "for_loop (forward_step A gc ys) [Suc b ..< k] s0 = Inr sa"
        and st: "for_loop (forward_step A gc ys) [k] sa = Inr s'"
      by (metis for_loop_append_Inr)
    from st have st': "forward_step A gc ys k sa = Inr s'"
      by (auto simp: bind_err_eq_Inr)
    have IH: "annual_real_gdp sa (ys ! j') \<noteq> None" if "b \<le> j'" "j' < k \<or> j' = b" for j'
      using Suc.IH[OF a Suc.prems(2) _ that] Suc.prems(3) by simp
    show ?thesis
    proof (cases "j = k")
      case True
      have "annual_real_gdp sa (ys ! (k - 1)) \<noteq> None"
        using IH[of "k - 1"] \<open>b < k\<close> by auto
      moreover have "year_rows A (ys ! k) \<noteq> []" using Suc.prems(3)[of k] by simp
      ultimately show ?thesis using forward_step_dom[OF st'] True by simp
    next
      case False
      with Suc.prems(4,5) have "j < k \<or> j = b" by auto
      from IH[OF Suc.prems(4) this] forward_step_mono[OF st'] show ?thesis by simp
    qed
  next
    case False
    then have "[Suc b ..< Suc k] = []" by simp
    with Suc.prems(1) have "s' = s0" by simp
    moreover from False Suc.prems(4,5) have "j = b" by auto
    ultimately show ?thesis using Suc.prems(2) by simp
  qed
qed

lemma backward_loop_dom:
  assumes "for_loop (backward_step A gc ys) (rev [k ..< b]) s1 = Inr s'"
    and "annual_real_gdp s1 (ys ! b) \<noteq> None"
    and "\<And>j. j \<le> b \<Longrightarrow> year_rows A (ys ! j) \<noteq> []"
    and "k \<le> j" and "j \<le> b"
  shows "annual_real_gdp s' (ys ! j) \<noteq> None"
  using assms
proof (induction "b - k" arbitrary: k s' j)
  case 0
  then have "rev [k ..< b] = []" "j = b" by auto
  with "0.prems"(1,2) show ?case by simp
next
  case (Suc d)
  then have kb: "k < b" by simp
  then have "[k ..< b] = k # [Suc k ..< b]" by (simp add: upt_conv_Cons)
  then have "rev [k ..< b] = rev [Suc k ..< b] @ [k]" by simp
  with Suc.prems(1) obtain sa
    where a: "for_loop (backward_step A gc ys) (rev [Suc k ..< b]) s1 = Inr sa"
      and st: "for_loop (backward_step A gc ys) [k] sa = Inr s'"
    by (metis for_loop_append_Inr)
  from st have st': "backward_step A gc ys k sa = Inr s'"
    by (auto simp: bind_err_eq_Inr)
  have d: "d = b - Suc k" using Suc.hyps(2) by simp
  have IH: "annual_real_gdp sa (ys ! j') \<noteq> None" if "Suc k \<le> j'" "j' \<le> b" for j'
    using Suc.hyps(1)[OF d a Suc.prems(2) _ that] Suc.prems(3) by simp
  show ?case
  proof (cases "j = k")
    case True
    have "annual_real_gdp sa (ys ! (k + 1)) \<noteq> None" using IH[of "Suc k"] kb by simp
    moreover have "year_rows A (ys ! k) \<noteq> []" "year_rows A (ys ! (k + 1)) \<noteq> []"
      using Suc.prems(3)[of k] Suc.prems(3)[of "Suc k"] kb by simp_all
    ultimately show ?thesis using backward_step_dom[OF st'] True by simp
  next
    case False
    with Suc.prems(4) have "Suc k \<le> j" by simp
    from IH[OF this Suc.prems(5)] backward_step_mono[OF st'] show ?thesis by simp
  qed
qed

lemma upt_split:
  assumes "a \<le> i" and "i < n"
  shows "[a ..< n] = [a ..< i] @ i # [Suc i ..< n]"
proof -
  have "[a ..< i + (n - i)] = [a ..< i] @ [i ..< i + (n - i)]"
    using assms(1) by (rule upt_add_eq_append)
  moreover have "i + (n - i) = n" using assms(2) by simp
  ultimately have "[a ..< n] = [a ..< i] @ [i ..< n]" by simp
  also have "[i ..< n] = i # [Suc i ..< n]" using assms(2) by (simp add: upt_conv_Cons)
  finally show ?thesis .
qed

lemma forward_loop_link:
  assumes loop: "for_loop (forward_step A gc ys) [Suc b ..< length ys] s0 = Inr s1"
    and dist: "distinct ys" "distinct (map fst A)"
    and i: "b \<le> i" "Suc i < length ys"
    and base: "annual_real_gdp s0 (ys ! b) \<noteq> None"
    and rows: "\<And>j. j < length ys \<Longrightarrow> year_rows A (ys ! j) \<noteq> []"
    and y: "year_rows A (ys ! Suc i) = (idx, r) # rest" "cells r gc = Some (Num g)"
    and len: "idx < length (real_column s0)"
  shows "\<exists>rp. annual_real_gdp s1 (ys ! i) = Some rp \<and>
              annual_real_gdp s1 (ys ! Suc i) = Some (fl_mul rp (growth_factor g)) \<and>
              real_column s1 ! idx = fl_mul rp (growth_factor g)"
proof -
  let ?n = "length ys"
  have split: "[Suc b ..< ?n] = [Suc b ..< Suc i] @ Suc i # [Suc (Suc i) ..< ?n]"
    using i by (intro upt_split) auto
  from loop obtain sa sb
    where a: "for_loop (forward_step A gc ys) [Suc b ..< Suc i] s0 = Inr sa"
      and st: "forward_step A gc ys (Suc i) sa = Inr sb"
      and c: "for_loop (forward_step A gc ys) [Suc (Suc i) ..< ?n] sb = Inr s1"
    unfolding split by (auto elim!: for_loop_append_Inr for_loop_Cons_Inr)
  have "annual_real_gdp sa (ys ! i) \<noteq> None"
  proof (rule forward_loop_dom[OF a base _ i(1)])
    show "year_rows A (ys ! j) \<noteq> []" if "j < Suc i" for j using rows[of j] that i(2) by simp
    show "i < Suc i \<or> i = b" by simp
  qed
  then obtain rp where rp: "annual_real_gdp sa (ys ! i) = Some rp" by auto
  let ?v = "fl_mul rp (growth_factor g)"
  have sb: "sb = sa\<lparr>annual_real_gdp := (annual_real_gdp sa)(ys ! Suc i \<mapsto> ?v),
                    real_column := (real_column sa)[idx := ?v]\<rparr>"
    using forward_step_eq[OF st y(1) _ y(2), of rp] rp by simp
  have neq: "ys ! j \<noteq> ys ! i \<and> ys ! j \<noteq> ys ! Suc i" if "j \<in> set [Suc (Suc i) ..< ?n]" for j
    using that dist(1) i(2) by (auto simp: nth_eq_iff_index_eq)
  have 1: "annual_real_gdp s1 (ys ! i) = annual_real_gdp sb (ys ! i)"
  proof (rule forward_loop_frame[OF c])
    fix j assume "j \<in> set [Suc (Suc i) ..< ?n]"
    from neq[OF this] show "ys ! i \<noteq> ys ! j" by auto
  qed
  have 2: "annual_real_gdp s1 (ys ! Suc i) = annual_real_gdp sb (ys ! Suc i)"
  proof (rule forward_loop_frame[OF c])
    fix j assume "j \<in> set [Suc (Suc i) ..< ?n]"
    from neq[OF this] show "ys ! Suc i \<noteq> ys ! j" by auto
  qed
  have ii: "ys ! i \<noteq> ys ! Suc i" using dist(1) i(2) by (auto simp: nth_eq_iff_index_eq)
  have 3: "real_column s1 ! idx = real_column sb ! idx"
  proof (rule forward_loop_col_frame[OF c])
    fix j idx' r' rest'
    assume j: "j \<in> set [Suc (Suc i) ..< ?n]" and yr: "year_rows A (ys ! j) = (idx', r') # rest'"
    from neq[OF j] have "ys ! j \<noteq> ys ! Suc i" by simp
    from year_rows_heads_differ[OF dist(2) yr y(1) this] show "idx' \<noteq> idx" .
  qed
  have "length (real_column sa) = length (real_column s0)"
    by (rule forward_loop_length[OF a])
  with len have 4: "real_column sb ! idx = ?v" by (simp add: sb)
  from 1 2 3 4 rp ii show ?thesis by (simp add: sb)
qed


lemma backward_loop_link:
  assumes loop: "for_loop (backward_step A gc ys) (rev [0 ..< b]) s1 = Inr s2"
    and dist: "distinct ys" "distinct (map fst A)"
    and i: "Suc i \<le> b" "b < length ys"
    and base: "annual_real_gdp s1 (ys ! b) \<noteq> None"
    and rows: "\<And>j. j < length ys \<Longrightarrow> year_rows A (ys ! j) \<noteq> []"
    and p: "year_rows A (ys ! i) = (idx, r) # rest"
    and y: "year_rows A (ys ! Suc i) = (idx', r') # rest'" "cells r' gc = Some (Num g)"
    and len: "idx < length (real_column s1)"
  shows "\<exists>rn. annual_real_gdp s2 (ys ! Suc i) = Some rn \<and>
              annual_real_gdp s2 (ys ! i) = Some (fl_div rn (growth_factor g)) \<and>
              real_column s2 ! idx = fl_div rn (growth_factor g)"
proof -
  have "[0 ..< b] = [0 ..< i] @ i # [Suc i ..< b]"
    using i by (intro upt_split) auto
  then have split: "rev [0 ..< b] = rev [Suc i ..< b] @ i # rev [0 ..< i]" by simp
  from loop obtain sa sb
    where a: "for_loop (backward_step A gc ys) (rev [Suc i ..< b]) s1 = Inr sa"
      and st: "backward_step A gc ys i sa = Inr sb"
      and c: "for_loop (backward_step A gc ys) (rev [0 ..< i]) sb = Inr s2"
    unfolding split by (auto elim!: for_loop_append_Inr for_loop_Cons_Inr)
  have "annual_real_gdp sa (ys ! Suc i) \<noteq> None"
  proof (rule backward_loop_dom[OF a base _ _ i(1)])
    show "year_rows A (ys ! j) \<noteq> []" if "j \<le> b" for j using rows[of j] that i(2) by simp
    show "Suc i \<le> Suc i" by simp
  qed
  then obtain rn where rn: "annual_real_gdp sa (ys ! Suc i) = Some rn" by auto
  let ?v = "fl_div rn (growth_factor g)"
  have sb: "sb = sa\<lparr>annual_real_gdp := (annual_real_gdp sa)(ys ! i \<mapsto> ?v),
                    real_column := (real_column sa)[idx := ?v]\<rparr>"
    using backward_step_eq[OF st p, of idx' r' rest' rn g] y rn by simp
  have neq: "ys ! j \<noteq> ys ! i \<and> ys ! j \<noteq> ys ! Suc i" if "j \<in> set (rev [0 ..< i])" for j
    using that dist(1) i by (auto simp: nth_eq_iff_index_eq)
  have 1: "annual_real_gdp s2 (ys ! i) = annual_real_gdp sb (ys ! i)"
  proof (rule backward_loop_frame[OF c])
    fix j assume "j \<in> set (rev [0 ..< i])"
    from neq[OF this] show "ys ! i \<noteq> ys ! j" by auto
  qed
  have 2: "annual_real_gdp s2 (ys ! Suc i) = annual_real_gdp sb (ys ! Suc i)"
  proof (rule backward_loop_frame[OF c])
    fix j assume "j \<in> set (rev [0 ..< i])"
    from neq[OF this] show "ys ! Suc i \<noteq> ys ! j" by auto
  qed
  have ii: "ys ! i \<noteq> ys ! Suc i" using dist(1) i by (auto simp: nth_eq_iff_index_eq)
  have 3: "real_column s2 ! idx = real_column sb ! idx"
  proof (rule backward_loop_col_frame[OF c])
    fix j idx'' r'' rest''
    assume j: "j \<in> set (rev [0 ..< i])" and yr: "year_rows A (ys ! j) = (idx'', r'') # rest''"
    from neq[OF j] have "ys ! j \<noteq> ys ! i" by simp
    from year_rows_heads_differ[OF dist(2) yr p this] show "idx'' \<noteq> idx" .
  qed
  have "length (real_column sa) = length (real_column s1)"
    by (rule backward_loop_length[OF a])
  with len have 4: "real_column sb ! idx = ?v" by (simp add: sb)
  from 1 2 3 4 rn ii show ?thesis by (simp add: sb)
qed

subsection \<open>The chain step as a whole\<close>

lemma chain_link_unfold:
  assumes "chain_link df vc gc by0 = Inr (s, A, by, msgs)"
  obtains w1 w2 base_idx base_row rest L s1 where
    "annual_of df = (A, w1)"
    "pick_base_year A by0 = Inr (by, w2)"
    "year_rows A by = (base_idx, base_row) # rest"
    "cells base_row vc = Some (Num L)"
    "for_loop (forward_step A gc (available_years A))
       [Suc (index_of (available_years A) by) ..< length (available_years A)]
       \<lparr>annual_real_gdp = [by \<mapsto> L],
        real_column = (replicate (length df) NaN)[base_idx := L]\<rparr> = Inr s1"
    "for_loop (backward_step A gc (available_years A))
       (rev [0 ..< index_of (available_years A) by]) s1 = Inr s"
    "msgs = [Section_real_gdp by0] @ w1 @ w2 @ [Ok_base_nominal by L]"
proof -
  obtain A' w1 where 1: "annual_of df = (A', w1)" by (cases "annual_of df")
  from assms 1 obtain by' w2 where 2: "pick_base_year A' by0 = Inr (by', w2)"
    by (auto simp: chain_link_def bind_err_eq_Inr)
  from assms 1 2 obtain base_idx base_row rest where 3: "year_rows A' by' = (base_idx, base_row) # rest"
    by (auto simp: chain_link_def split: list.splits)
  from assms 1 2 3 obtain L where 4: "cells base_row vc = Some (Num L)"
    by (auto simp: chain_link_def bind_err_eq_Inr loc_def num_def split: option.splits cell.splits)
  from assms 1 2 3 4 show ?thesis
    by (auto simp: chain_link_def bind_err_eq_Inr loc_def num_def Let_def intro!: that)
qed


lemma chain_link_annual:
  assumes "chain_link df vc gc by0 = Inr (s, A, by, msgs)"
  shows "A = fst (annual_of df)"
  using assms by (elim chain_link_unfold) simp

lemma chain_link_base_index:
  assumes "chain_link df vc gc by0 = Inr (s, A, by, msgs)"
  shows "index_of (available_years A) by < length (available_years A) \<and>
         available_years A ! index_of (available_years A) by = by"
proof -
  from assms have "year_rows A by \<noteq> []" by (elim chain_link_unfold) simp
  then have "by \<in> set (available_years A)" by (simp add: year_rows_nonempty_iff)
  then show ?thesis by (rule index_of_nth)
qed

lemma rows_of_available_years:
  assumes "j < length (available_years A)"
  shows "year_rows A (available_years A ! j) \<noteq> []"
  using assms by (simp add: year_rows_nonempty_iff)

lemma chain_link_anchor:
  assumes chain: "chain_link df vc gc by0 = Inr (s, A, by, msgs)"
    and base: "year_rows A by = (base_idx, base_row) # rest"
  shows "\<exists>L. cells base_row vc = Some (Num L) \<and> annual_real_gdp s by = Some L \<and>
             real_column s ! base_idx = L"
proof -
  let ?ys = "available_years A"
  let ?b = "index_of ?ys by"
  from chain obtain w1 w2 base_idx' base_row' rest' L s1 where
    an: "annual_of df = (A, w1)"
    and yr: "year_rows A by = (base_idx', base_row') # rest'"
    and L: "cells base_row' vc = Some (Num L)"
    and fwd: "for_loop (forward_step A gc ?ys) [Suc ?b ..< length ?ys]
       \<lparr>annual_real_gdp = [by \<mapsto> L],
        real_column = (replicate (length df) NaN)[base_idx' := L]\<rparr> = Inr s1"
    and bwd: "for_loop (backward_step A gc ?ys) (rev [0 ..< ?b]) s1 = Inr s"
    by (rule chain_link_unfold)
  from yr base have eq: "base_idx' = base_idx" "base_row' = base_row" by simp_all
  have A: "A = fst (annual_of df)" using an by simp
  have dA: "distinct (map fst A)" unfolding A by (rule annual_of_distinct)
  have b: "?b < length ?ys" "?ys ! ?b = by" using chain_link_base_index[OF chain] by simp_all
  have dys: "distinct ?ys" by (rule distinct_available_years)
  have lt: "base_idx < length df"
    using year_rows_mem[OF base] annual_of_mem[of base_idx base_row df] A by simp
  let ?s0 = "\<lparr>annual_real_gdp = [by \<mapsto> L],
        real_column = (replicate (length df) NaN)[base_idx' := L]\<rparr>"
  have f1: "annual_real_gdp s1 by = annual_real_gdp ?s0 by"
  proof (rule forward_loop_frame[OF fwd])
    fix j assume "j \<in> set [Suc ?b ..< length ?ys]"
    then have "j \<noteq> ?b" "j < length ?ys" by auto
    with b dys show "by \<noteq> ?ys ! j" by (metis nth_eq_iff_index_eq)
  qed
  have f2: "annual_real_gdp s by = annual_real_gdp s1 by"
  proof (rule backward_loop_frame[OF bwd])
    fix j assume "j \<in> set (rev [0 ..< ?b])"
    then have "j \<noteq> ?b" "j < length ?ys" using b(1) by auto
    with b dys show "by \<noteq> ?ys ! j" by (metis nth_eq_iff_index_eq)
  qed
  have c1: "real_column s1 ! base_idx = real_column ?s0 ! base_idx"
  proof (rule forward_loop_col_frame[OF fwd])
    fix j idx r rest''
    assume j: "j \<in> set [Suc ?b ..< length ?ys]" and yj: "year_rows A (?ys ! j) = (idx, r) # rest''"
    from j have "j \<noteq> ?b" "j < length ?ys" by auto
    with b dys have "?ys ! j \<noteq> by" by (metis nth_eq_iff_index_eq)
    from year_rows_heads_differ[OF dA yj base this] show "idx \<noteq> base_idx" .
  qed
  have c2: "real_column s ! base_idx = real_column s1 ! base_idx"
  proof (rule backward_loop_col_frame[OF bwd])
    fix j idx r rest''
    assume j: "j \<in> set (rev [0 ..< ?b])" and yj: "year_rows A (?ys ! j) = (idx, r) # rest''"
    from j b(1) have "j \<noteq> ?b" "j < length ?ys" by auto
    with b dys have "?ys ! j \<noteq> by" by (metis nth_eq_iff_index_eq)
    from year_rows_heads_differ[OF dA yj base this] show "idx \<noteq> base_idx" .
  qed
  from f1 f2 c1 c2 L lt show ?thesis by (simp add: eq)
qed

lemma chain_link_forward:
  assumes chain: "chain_link df vc gc by0 = Inr (s, A, by, msgs)"
    and p: "year_rows A p \<noteq> []" "by \<le> p" "p < y"
    and between: "\<And>z. p < z \<Longrightarrow> z < y \<Longrightarrow> year_rows A z = []"
    and y: "year_rows A y = (idx, r) # rest" "cells r gc = Some (Num g)"
  shows "\<exists>rp. annual_real_gdp s p = Some rp \<and>
              annual_real_gdp s y = Some (fl_mul rp (growth_factor g)) \<and>
              real_column s ! idx = fl_mul rp (growth_factor g)"
proof -
  let ?ys = "available_years A"
  let ?b = "index_of ?ys by"
  from chain obtain w1 w2 base_idx base_row rest' L s1 where
    an: "annual_of df = (A, w1)"
    and fwd: "for_loop (forward_step A gc ?ys) [Suc ?b ..< length ?ys]
       \<lparr>annual_real_gdp = [by \<mapsto> L],
        real_column = (replicate (length df) NaN)[base_idx := L]\<rparr> = Inr s1"
    and bwd: "for_loop (backward_step A gc ?ys) (rev [0 ..< ?b]) s1 = Inr s"
    by (rule chain_link_unfold)
  let ?s0 = "\<lparr>annual_real_gdp = [by \<mapsto> L],
        real_column = (replicate (length df) NaN)[base_idx := L]\<rparr>"
  have A: "A = fst (annual_of df)" using an by simp
  have dA: "distinct (map fst A)" unfolding A by (rule annual_of_distinct)
  have b: "?b < length ?ys" "?ys ! ?b = by" using chain_link_base_index[OF chain] by simp_all
  have dys: "distinct ?ys" by (rule distinct_available_years)
  have sys: "sorted ?ys" by (rule sorted_available_years)
  have pin: "p \<in> set ?ys" using p(1) by (simp add: year_rows_nonempty_iff)
  have yin: "y \<in> set ?ys" using y(1) year_rows_nonempty_iff[of A y] by simp
  have "\<exists>i. Suc i < length ?ys \<and> ?ys ! i = p \<and> ?ys ! Suc i = y"
  proof (rule adjacent_in_sorted[OF sys dys pin yin p(3)])
    fix z assume "z \<in> set ?ys"
    then have "year_rows A z \<noteq> []" by (simp add: year_rows_nonempty_iff)
    with between[of z] show "\<not> (p < z \<and> z < y)" by auto
  qed
  then obtain i where i: "Suc i < length ?ys" "?ys ! i = p" "?ys ! Suc i = y" by auto
  have bi: "?b \<le> i"
  proof (rule ccontr)
    assume "\<not> ?b \<le> i"
    then have "i < ?b" by simp
    from sorted_distinct_nth_less[OF sys dys this b(1)] i(2) b(2) p(2) show False by simp
  qed
  have idx: "idx < length df"
    using year_rows_mem[OF y(1)] annual_of_mem[of idx r df] A by simp
  have "\<exists>rp. annual_real_gdp s1 (?ys ! i) = Some rp \<and>
              annual_real_gdp s1 (?ys ! Suc i) = Some (fl_mul rp (growth_factor g)) \<and>
              real_column s1 ! idx = fl_mul rp (growth_factor g)"
  proof (rule forward_loop_link[OF fwd dys dA bi i(1) _ _ _ y(2)])
    show "annual_real_gdp ?s0 (?ys ! ?b) \<noteq> None" using b(2) by simp
    show "year_rows A (?ys ! j) \<noteq> []" if "j < length ?ys" for j
      using that by (rule rows_of_available_years)
    show "year_rows A (?ys ! Suc i) = (idx, r) # rest" using y(1) i(3) by simp
    show "idx < length (real_column ?s0)" using idx by simp
  qed
  then obtain rp where rp: "annual_real_gdp s1 p = Some rp"
    "annual_real_gdp s1 y = Some (fl_mul rp (growth_factor g))"
    "real_column s1 ! idx = fl_mul rp (growth_factor g)"
    using i(2,3) by auto
  have neq: "?ys ! j \<noteq> p \<and> ?ys ! j \<noteq> y" if "j \<in> set (rev [0 ..< ?b])" for j
  proof -
    from that bi i(1) have "j \<noteq> i" "j \<noteq> Suc i" "j < length ?ys" "i < length ?ys" by auto
    with dys i show ?thesis by (metis nth_eq_iff_index_eq)
  qed
  have 1: "annual_real_gdp s p = annual_real_gdp s1 p"
  proof (rule backward_loop_frame[OF bwd])
    fix j assume "j \<in> set (rev [0 ..< ?b])"
    from neq[OF this] show "p \<noteq> ?ys ! j" by auto
  qed
  have 2: "annual_real_gdp s y = annual_real_gdp s1 y"
  proof (rule backward_loop_frame[OF bwd])
    fix j assume "j \<in> set (rev [0 ..< ?b])"
    from neq[OF this] show "y \<noteq> ?ys ! j" by auto
  qed
  have 3: "real_column s ! idx = real_column s1 ! idx"
  proof (rule backward_loop_col_frame[OF bwd])
    fix j idx' r' rest''
    assume j: "j \<in> set (rev [0 ..< ?b])" and yj: "year_rows A (?ys ! j) = (idx', r') # rest''"
    from neq[OF j] have "?ys ! j \<noteq> y" by simp
    from year_rows_heads_differ[OF dA yj y(1) this] show "idx' \<noteq> idx" .
  qed
  from 1 2 3 rp show ?thesis by simp
qed

lemma chain_link_backward:
  assumes chain: "chain_link df vc gc by0 = Inr (s, A, by, msgs)"
    and p: "year_rows A p = (idx, r) # rest" "p < y" "y \<le> by"
    and between: "\<And>z. p < z \<Longrightarrow> z < y \<Longrightarrow> year_rows A z = []"
    and y: "year_rows A y = (idx', r') # rest'" "cells r' gc = Some (Num g)"
  shows "\<exists>rn. annual_real_gdp s y = Some rn \<and>
              annual_real_gdp s p = Some (fl_div rn (growth_factor g)) \<and>
              real_column s ! idx = fl_div rn (growth_factor g)"
proof -
  let ?ys = "available_years A"
  let ?b = "index_of ?ys by"
  from chain obtain w1 w2 base_idx base_row rest'' L s1 where
    an: "annual_of df = (A, w1)"
    and fwd: "for_loop (forward_step A gc ?ys) [Suc ?b ..< length ?ys]
       \<lparr>annual_real_gdp = [by \<mapsto> L],
        real_column = (replicate (length df) NaN)[base_idx := L]\<rparr> = Inr s1"
    and bwd: "for_loop (backward_step A gc ?ys) (rev [0 ..< ?b]) s1 = Inr s"
    by (rule chain_link_unfold)
  let ?s0 = "\<lparr>annual_real_gdp = [by \<mapsto> L],
        real_column = (replicate (length df) NaN)[base_idx := L]\<rparr>"
  have A: "A = fst (annual_of df)" using an by simp
  have dA: "distinct (map fst A)" unfolding A by (rule annual_of_distinct)
  have b: "?b < length ?ys" "?ys ! ?b = by" using chain_link_base_index[OF chain] by simp_all
  have dys: "distinct ?ys" by (rule distinct_available_years)
  have sys: "sorted ?ys" by (rule sorted_available_years)
  have pin: "p \<in> set ?ys" using p(1) year_rows_nonempty_iff[of A p] by simp
  have yin: "y \<in> set ?ys" using y(1) year_rows_nonempty_iff[of A y] by simp
  have "\<exists>i. Suc i < length ?ys \<and> ?ys ! i = p \<and> ?ys ! Suc i = y"
  proof (rule adjacent_in_sorted[OF sys dys pin yin p(2)])
    fix z assume "z \<in> set ?ys"
    then have "year_rows A z \<noteq> []" by (simp add: year_rows_nonempty_iff)
    with between[of z] show "\<not> (p < z \<and> z < y)" by auto
  qed
  then obtain i where i: "Suc i < length ?ys" "?ys ! i = p" "?ys ! Suc i = y" by auto
  have bi: "Suc i \<le> ?b"
  proof (rule ccontr)
    assume "\<not> Suc i \<le> ?b"
    then have "?b < Suc i" by simp
    from sorted_distinct_nth_less[OF sys dys this i(1)] i(3) b(2) p(3) show False by simp
  qed
  have idx: "idx < length df"
    using year_rows_mem[OF p(1)] annual_of_mem[of idx r df] A by simp
  have len1: "length (real_column s1) = length df"
    using forward_loop_length[OF fwd] by simp
  have base1: "annual_real_gdp s1 (?ys ! ?b) \<noteq> None"
    by (rule forward_loop_mono[OF fwd]) (simp add: b(2))
  show ?thesis
    using backward_loop_link[OF bwd dys dA bi b(1) base1 rows_of_available_years, of idx r rest idx' r' rest' g]
      p(1) y i(2,3) idx len1 by simp
qed

section \<open>Claims about the chain step\<close>

text \<open>
  C10. Propagation links neighbours among the available year-end records, not calendar
  neighbours. Let \<open>p < y\<close> be two years that both have a year-end record, with no
  year-end record in a year between them (so \<open>y\<close> may be several years after \<open>p\<close>), and
  let \<open>g\<close> be the growth rate of the year-end record of \<open>y\<close>. If \<open>p\<close> is the base year
  or later, the forward loop stores \<open>R[y] = R[p] * (1 + g / 100)\<close>; if \<open>y\<close> is the base year
  or earlier, the backward loop stores \<open>R[p] = R[y] / (1 + g / 100)\<close>. The one-year growth
  rate is applied across the whole gap.
\<close>

theorem chain_links_neighbouring_available_years:
  assumes "chain_link df value_col growth_col base_year0 = Inr (s, annual_df, base_year, msgs)"
    and "year_rows annual_df p = (idx_p, r_p) # rest_p"
    and "year_rows annual_df y = (idx_y, r_y) # rest_y"
    and "p < y"
    and "\<forall>z. p < z \<and> z < y \<longrightarrow> year_rows annual_df z = []"
    and "cells r_y growth_col = Some (Num g)"
  shows "(base_year \<le> p \<longrightarrow>
            (\<exists>rp. annual_real_gdp s p = Some rp \<and>
                   annual_real_gdp s y = Some (fl_mul rp (growth_factor g)) \<and>
                   real_column s ! idx_y = fl_mul rp (growth_factor g))) \<and>
         (y \<le> base_year \<longrightarrow>
            (\<exists>ry. annual_real_gdp s y = Some ry \<and>
                   annual_real_gdp s p = Some (fl_div ry (growth_factor g)) \<and>
                   real_column s ! idx_p = fl_div ry (growth_factor g)))"
proof (intro conjI impI)
  assume "base_year \<le> p"
  with assms show "\<exists>rp. annual_real_gdp s p = Some rp \<and>
                   annual_real_gdp s y = Some (fl_mul rp (growth_factor g)) \<and>
                   real_column s ! idx_y = fl_mul rp (growth_factor g)"
    by (intro chain_link_forward[where rest = rest_y and r = r_y]) auto
next
  assume "y \<le> base_year"
  with assms show "\<exists>ry. annual_real_gdp s y = Some ry \<and>
                   annual_real_gdp s p = Some (fl_div ry (growth_factor g)) \<and>
                   real_column s ! idx_p = fl_div ry (growth_factor g)"
    by (intro chain_link_backward[where rest = rest_p and r = r_p and r' = r_y and rest' = rest_y and idx' = idx_y]) auto
qed

lemma gap_rows_ok: "\<not> isl (chain_link gap_rows ''level'' ''growth'' 2015)"
  by code_simp

lemma annual_gap_rows:
  "fst (annual_of gap_rows) =
     [(0, year_end_row 2012 800 2), (1, year_end_row 2015 1000 4), (2, year_end_row 2018 1300 5)]"
  by (simp add: annual_of_def gap_rows_def year_end_row_def enumerate_eq_zip upt_rec)

theorem chain_links_neighbouring_available_years_witness:
  "\<exists>s annual_df msgs.
      chain_link gap_rows ''level'' ''growth'' 2015 = Inr (s, annual_df, 2015, msgs) \<and>
      annual_real_gdp s 2015 = Some (Fin 1000) \<and>
      annual_real_gdp s 2018 = Some (Fin 1050) \<and>
      annual_real_gdp s 2012 = Some (Fin (1000 / 1.04))"
proof -
  let ?r12 = "year_end_row 2012 800 2" and ?r15 = "year_end_row 2015 1000 4"
    and ?r18 = "year_end_row 2018 1300 5"
  obtain s A b msgs where c: "chain_link gap_rows ''level'' ''growth'' 2015 = Inr (s, A, b, msgs)"
    using gap_rows_ok by (cases "chain_link gap_rows ''level'' ''growth'' 2015") auto
  have A: "A = [(0, ?r12), (1, ?r15), (2, ?r18)]"
    using chain_link_annual[OF c] annual_gap_rows by simp
  have b: "b = 2015"
    using c by (elim chain_link_unfold)
      (auto simp: A pick_base_year_def year_rows_def year_end_row_def split: if_splits)
  have y12: "year_rows A 2012 = (0, ?r12) # []" and y15: "year_rows A 2015 = (1, ?r15) # []"
    and y18: "year_rows A 2018 = (2, ?r18) # []"
    by (simp_all add: A year_rows_def year_end_row_def)
  have none: "year_rows A z = []" if "z \<noteq> 2012" "z \<noteq> 2015" "z \<noteq> 2018" for z
    using that by (simp add: A year_rows_def year_end_row_def)
  from chain_link_anchor[OF c[unfolded b] y15]
  have a15: "annual_real_gdp s 2015 = Some (Fin 1000)" by (simp add: year_end_row_def)
  have f: "\<exists>rp. annual_real_gdp s 2015 = Some rp \<and>
             annual_real_gdp s 2018 = Some (fl_mul rp (growth_factor (Fin 5))) \<and>
             real_column s ! 2 = fl_mul rp (growth_factor (Fin 5))"
    using chain_links_neighbouring_available_years[where g = "Fin 5", OF c[unfolded b] y15 y18]
    by (auto simp: none year_end_row_def)
  have g: "\<exists>ry. annual_real_gdp s 2015 = Some ry \<and>
             annual_real_gdp s 2012 = Some (fl_div ry (growth_factor (Fin 4))) \<and>
             real_column s ! 0 = fl_div ry (growth_factor (Fin 4))"
    using chain_links_neighbouring_available_years[where g = "Fin 4", OF c[unfolded b] y12 y15]
    by (auto simp: none year_end_row_def)
  from a15 f g c b show ?thesis by (auto simp: growth_factor_def)
qed

lemma forward_step_keys:
  assumes "forward_step A gc ys i s = Inr s'" and "i < length ys"
    and "\<And>z. annual_real_gdp s z \<noteq> None \<Longrightarrow> z \<in> set ys"
    and "annual_real_gdp s' z \<noteq> None"
  shows "z \<in> set ys"
  using forward_step_cases[OF assms(1)] assms(2,3,4) by (auto split: if_splits)

lemma backward_step_keys:
  assumes "backward_step A gc ys i s = Inr s'" and "i < length ys"
    and "\<And>z. annual_real_gdp s z \<noteq> None \<Longrightarrow> z \<in> set ys"
    and "annual_real_gdp s' z \<noteq> None"
  shows "z \<in> set ys"
  using backward_step_cases[OF assms(1)] assms(2,3,4) by (auto split: if_splits)

lemma chain_link_dom:
  assumes chain: "chain_link df vc gc by0 = Inr (s, A, by, msgs)"
    and z: "annual_real_gdp s z \<noteq> None"
  shows "year_rows A z \<noteq> []"
proof -
  let ?ys = "available_years A"
  let ?b = "index_of ?ys by"
  let ?P = "\<lambda>t. \<forall>z. annual_real_gdp t z \<noteq> None \<longrightarrow> z \<in> set ?ys"
  from chain obtain w1 w2 base_idx base_row rest' L s1 where
    fwd: "for_loop (forward_step A gc ?ys) [Suc ?b ..< length ?ys]
       \<lparr>annual_real_gdp = [by \<mapsto> L],
        real_column = (replicate (length df) NaN)[base_idx := L]\<rparr> = Inr s1"
    and bwd: "for_loop (backward_step A gc ?ys) (rev [0 ..< ?b]) s1 = Inr s"
    by (rule chain_link_unfold)
  have b: "?b < length ?ys" "?ys ! ?b = by" using chain_link_base_index[OF chain] by simp_all
  have 0: "?P \<lparr>annual_real_gdp = [by \<mapsto> L],
        real_column = (replicate (length df) NaN)[base_idx := L]\<rparr>"
    using b by (auto split: if_splits simp: in_set_conv_nth)
  have 1: "?P s1"
  proof (rule for_loop_preserves[where P = ?P, OF fwd _ 0])
    fix j t t' assume "j \<in> set [Suc ?b ..< length ?ys]" "forward_step A gc ?ys j t = Inr t'" "?P t"
    then show "?P t'" using forward_step_keys[of A gc ?ys j t t'] by auto
  qed
  have "?P s"
  proof (rule for_loop_preserves[where P = ?P, OF bwd _ 1])
    fix j t t' assume "j \<in> set (rev [0 ..< ?b])" "backward_step A gc ?ys j t = Inr t'" "?P t"
    then show "?P t'" using backward_step_keys[of A gc ?ys j t t'] b(1) by auto
  qed
  with z show ?thesis by (simp add: year_rows_nonempty_iff)
qed

lemma chain_link_base_found:
  assumes chain: "chain_link df vc gc by0 = Inr (s, A, by, msgs)"
    and rec: "\<exists>r \<in> set df. month (date r) = 12 \<and> year (date r) = by0"
  shows "by = by0 \<and> A = filter (\<lambda>(i, r). month (date r) = 12) (enumerate 0 df)"
proof -
  from rec obtain r where r: "r \<in> set df" "month (date r) = 12" "year (date r) = by0" by auto
  then obtain i where i: "i < length df" "df ! i = r" by (auto simp: in_set_conv_nth)
  let ?D = "filter (\<lambda>(i, r). month (date r) = 12) (enumerate 0 df)"
  have mem: "(i, r) \<in> set ?D" using i r by (auto simp: in_set_enumerate_eq)
  have ne: "?D \<noteq> []"
  proof
    assume "?D = []"
    with mem show False by simp
  qed
  then have an: "annual_of df = (?D, [])" by (simp add: annual_of_def Let_def)
  have "year_rows ?D by0 \<noteq> []"
    using mem r(3) unfolding year_rows_def filter_empty_conv by blast
  then have pb: "pick_base_year ?D by0 = Inr (by0, [])" by (simp add: pick_base_year_def)
  from chain show ?thesis
    by (elim chain_link_unfold) (use an pb in auto)
qed

text \<open>
  C1. When the base year has a year-end record (a record dated in December, which is how
  line 286 recognises one), the base year in use is the configured one and:
  \<^item> \<open>R[base_year]\<close> is the nominal level of the base year's (first) year-end record,
    in the dictionary and in the helper column;
  \<^item> for a later year \<open>y\<close> with a year-end record, if \<open>R[y - 1]\<close> is resolved then
    \<open>R[y] = R[y - 1] * (1 + G[y] / 100)\<close>, with the growth rate of year \<open>y\<close>'s record;
  \<^item> for an earlier year \<open>y\<close> with a year-end record, if \<open>R[y + 1]\<close> is resolved then
    \<open>R[y] = R[y + 1] / (1 + G[y + 1] / 100)\<close>, with the growth rate of year \<open>y + 1\<close>'s
    record.
  The arithmetic is that of \<open>fl\<close>: exact on finite values, as the witness shows for
  Scenario C (1050 and 1000 / 1.04).
\<close>

theorem chain_anchor_and_neighbour_propagation:
  assumes "chain_link df value_col growth_col base_year = Inr (s, annual_df, base_year', msgs)"
    and "\<exists>r \<in> set df. month (date r) = 12 \<and> year (date r) = base_year"
  shows "base_year' = base_year \<and>
    annual_df = filter (\<lambda>(i, r). month (date r) = 12) (enumerate 0 df) \<and>
    (\<exists>base_idx base_row rest L.
        year_rows annual_df base_year = (base_idx, base_row) # rest \<and>
        cells base_row value_col = Some (Num L) \<and>
        annual_real_gdp s base_year = Some L \<and> real_column s ! base_idx = L) \<and>
    (\<forall>y idx r rest g rp.
        base_year < y \<and> annual_real_gdp s (y - 1) = Some rp \<and>
        year_rows annual_df y = (idx, r) # rest \<and> cells r growth_col = Some (Num g)
        \<longrightarrow> annual_real_gdp s y = Some (fl_mul rp (growth_factor g)) \<and>
            real_column s ! idx = fl_mul rp (growth_factor g)) \<and>
    (\<forall>y idx r rest idx' r' rest' g rn.
        y < base_year \<and> annual_real_gdp s (y + 1) = Some rn \<and>
        year_rows annual_df y = (idx, r) # rest \<and>
        year_rows annual_df (y + 1) = (idx', r') # rest' \<and> cells r' growth_col = Some (Num g)
        \<longrightarrow> annual_real_gdp s y = Some (fl_div rn (growth_factor g)) \<and>
            real_column s ! idx = fl_div rn (growth_factor g))"
proof -
  note found = chain_link_base_found[OF assms]
  then have same: "base_year' = base_year" by simp
  note chain = assms(1)[unfolded same]
  have anchor: "\<exists>base_idx base_row rest L.
        year_rows annual_df base_year = (base_idx, base_row) # rest \<and>
        cells base_row value_col = Some (Num L) \<and>
        annual_real_gdp s base_year = Some L \<and> real_column s ! base_idx = L"
  proof -
    from chain obtain base_idx base_row rest
      where yr: "year_rows annual_df base_year = (base_idx, base_row) # rest"
      by (elim chain_link_unfold) auto
    from chain_link_anchor[OF chain yr] yr show ?thesis by blast
  qed
  have forward: "\<forall>y idx r rest g rp.
        base_year < y \<and> annual_real_gdp s (y - 1) = Some rp \<and>
        year_rows annual_df y = (idx, r) # rest \<and> cells r growth_col = Some (Num g)
        \<longrightarrow> annual_real_gdp s y = Some (fl_mul rp (growth_factor g)) \<and>
            real_column s ! idx = fl_mul rp (growth_factor g)"
  proof (intro allI impI, elim conjE)
    fix y idx r rest g rp
    assume that: "base_year < y" "annual_real_gdp s (y - 1) = Some rp"
      "year_rows annual_df y = (idx, r) # rest" "cells r growth_col = Some (Num g)"
    have "year_rows annual_df (y - 1) \<noteq> []"
      using chain_link_dom[OF chain, of "y - 1"] that(2) by simp
    from chain_link_forward[OF chain this _ _ _ that(3,4)] that(1,2)
    show "annual_real_gdp s y = Some (fl_mul rp (growth_factor g)) \<and>
            real_column s ! idx = fl_mul rp (growth_factor g)" by auto
  qed
  have backward: "\<forall>y idx r rest idx' r' rest' g rn.
        y < base_year \<and> annual_real_gdp s (y + 1) = Some rn \<and>
        year_rows annual_df y = (idx, r) # rest \<and>
        year_rows annual_df (y + 1) = (idx', r') # rest' \<and> cells r' growth_col = Some (Num g)
        \<longrightarrow> annual_real_gdp s y = Some (fl_div rn (growth_factor g)) \<and>
            real_column s ! idx = fl_div rn (growth_factor g)"
  proof (intro allI impI, elim conjE)
    fix y idx r rest idx' r' rest' g rn
    assume that: "y < base_year" "annual_real_gdp s (y + 1) = Some rn"
      "year_rows annual_df y = (idx, r) # rest"
      "year_rows annual_df (y + 1) = (idx', r') # rest'" "cells r' growth_col = Some (Num g)"
    from chain_link_backward[OF chain that(3) _ _ _ that(4,5)] that(1,2)
    show "annual_real_gdp s y = Some (fl_div rn (growth_factor g)) \<and>
            real_column s ! idx = fl_div rn (growth_factor g)" by auto
  qed
  from found have a: "annual_df = filter (\<lambda>(i, r). month (date r) = 12) (enumerate 0 df)"
    by simp
  show ?thesis
    by (rule conjI[OF same conjI[OF a conjI[OF anchor conjI[OF forward backward]]]])
qed

lemma scenario_c_ok: "\<not> isl (chain_link scenario_c ''level'' ''growth'' 2015)"
  by code_simp

theorem chain_anchor_and_neighbour_propagation_witness:
  "\<exists>s annual_df msgs.
      chain_link scenario_c ''level'' ''growth'' 2015 = Inr (s, annual_df, 2015, msgs) \<and>
      annual_real_gdp s 2015 = Some (Fin 1000) \<and>
      annual_real_gdp s 2016 = Some (Fin 1050) \<and>
      annual_real_gdp s 2014 = Some (Fin (1000 / 1.04))"
proof -
  let ?r14 = "year_end_row 2014 900 3" and ?r15 = "year_end_row 2015 1000 4"
    and ?r16 = "year_end_row 2016 1100 5"
  obtain s A b msgs where c: "chain_link scenario_c ''level'' ''growth'' 2015 = Inr (s, A, b, msgs)"
    using scenario_c_ok by (cases "chain_link scenario_c ''level'' ''growth'' 2015") auto
  have rec: "\<exists>r \<in> set scenario_c. month (date r) = 12 \<and> year (date r) = 2015"
    by (simp add: scenario_c_def year_end_row_def)
  note main = chain_anchor_and_neighbour_propagation[OF c rec]
  have b: "b = 2015" using main by simp
  have A: "A = [(0, ?r14), (1, ?r15), (2, ?r16)]"
    using main by (simp add: scenario_c_def year_end_row_def enumerate_eq_zip upt_rec)
  have y14: "year_rows A 2014 = (0, ?r14) # []" and y15: "year_rows A 2015 = (1, ?r15) # []"
    and y16: "year_rows A 2016 = (2, ?r16) # []"
    by (simp_all add: A year_rows_def year_end_row_def)
  from main[THEN conjunct2, THEN conjunct2, THEN conjunct1] obtain base_idx base_row rest L
    where "year_rows A 2015 = (base_idx, base_row) # rest"
      and "cells base_row ''level'' = Some (Num L)" and "annual_real_gdp s 2015 = Some L"
    by blast
  with y15 have a15: "annual_real_gdp s 2015 = Some (Fin 1000)"
    by (simp add: year_end_row_def)
  note fwd = main[THEN conjunct2, THEN conjunct2, THEN conjunct2, THEN conjunct1, rule_format]
  note bwd = main[THEN conjunct2, THEN conjunct2, THEN conjunct2, THEN conjunct2, rule_format]
  have "annual_real_gdp s 2016 = Some (fl_mul (Fin 1000) (growth_factor (Fin 5)))"
    using fwd[where y = 2016 and rp = "Fin 1000" and g = "Fin 5" and idx = 2 and r = ?r16
        and rest = "[]"] a15 y16
    by (simp add: year_end_row_def)
  then have a16: "annual_real_gdp s 2016 = Some (Fin 1050)"
    by (simp add: growth_factor_def)
  have "annual_real_gdp s 2014 = Some (fl_div (Fin 1000) (growth_factor (Fin 4)))"
    using bwd[where y = 2014 and rn = "Fin 1000" and g = "Fin 4" and idx = 0 and r = ?r14
        and rest = "[]" and idx' = 1 and r' = ?r15 and rest' = "[]"] a15 y14 y15
    by (simp add: year_end_row_def)
  then have a14: "annual_real_gdp s 2014 = Some (Fin (1000 / 1.04))"
    by (simp add: growth_factor_def)
  from c b a15 a16 a14 show ?thesis by auto
qed

section \<open>The whole of \<^verbatim>\<open>_convert_gdp_to_real\<close>\<close>

subsection \<open>After the chain step\<close>

lemma fill_step_keeps:
  assumes "fill_step snap A vc gc m idx rc = Inr rc'"
  shows "length rc' = length rc \<and> (\<forall>k. notna (rc ! k) \<longrightarrow> rc' ! k = rc ! k)"
proof (cases "notna (rc ! idx)")
  case True
  with assms show ?thesis by (simp add: fill_step_def)
next
  case False
  have upd: "length (rc[idx := v]) = length rc \<and> (\<forall>k. notna (rc ! k) \<longrightarrow> rc[idx := v] ! k = rc ! k)"
    for v
    using False by (metis length_list_update nth_list_update_neq)
  from assms False have "rc' = rc \<or> (\<exists>v. rc' = rc[idx := v])"
    by (auto simp: fill_step_def Let_def bind_err_eq_Inr split: if_splits option.splits list.splits)
  with upd show ?thesis by auto
qed

lemma fill_loop_keeps:
  assumes "for_loop (fill_step snap A vc gc m) js rc = Inr rc'"
  shows "length rc' = length rc \<and> (\<forall>k. notna (rc ! k) \<longrightarrow> rc' ! k = rc ! k)"
proof (rule for_loop_preserves[where
      P = "\<lambda>t. length t = length rc \<and> (\<forall>k. notna (rc ! k) \<longrightarrow> t ! k = rc ! k)", OF assms])
  fix j t t'
  assume "fill_step snap A vc gc m j t = Inr t'"
    and t: "length t = length rc \<and> (\<forall>k. notna (rc ! k) \<longrightarrow> t ! k = rc ! k)"
  from fill_step_keeps[OF this(1)] t
  show "length t' = length rc \<and> (\<forall>k. notna (rc ! k) \<longrightarrow> t' ! k = rc ! k)" by auto
qed simp

lemma interpolate_linear_keeps:
  "length (interpolate_linear both xs) = length xs \<and>
   (\<forall>k < length xs. notna (xs ! k) \<longrightarrow> interpolate_linear both xs ! k = xs ! k)"
  by (simp add: interpolate_linear_def)

lemma chain_link_length:
  assumes "chain_link df vc gc by0 = Inr (s, A, b, msgs)"
  shows "length (real_column s) = length df"
proof -
  from assms obtain base_idx L s1 where
    fwd: "for_loop (forward_step A gc (available_years A))
       [Suc (index_of (available_years A) b) ..< length (available_years A)]
       \<lparr>annual_real_gdp = [b \<mapsto> L],
        real_column = (replicate (length df) NaN)[base_idx := L]\<rparr> = Inr s1"
    and bwd: "for_loop (backward_step A gc (available_years A))
       (rev [0 ..< index_of (available_years A) b]) s1 = Inr s"
    by (rule chain_link_unfold)
  from forward_loop_length[OF fwd] backward_loop_length[OF bwd] show ?thesis by simp
qed

lemma chain_link_warnings:
  assumes "chain_link df vc gc by0 = Inr (s, A, b, msgs)"
  shows "filter is_warning msgs =
           snd (annual_of df) @ (if year_rows A by0 = [] then [Warn_base_year_not_found by0] else [])"
proof -
  from assms obtain w1 w2 L where
    an: "annual_of df = (A, w1)" and pb: "pick_base_year A by0 = Inr (b, w2)"
    and m: "msgs = [Section_real_gdp by0] @ w1 @ w2 @ [Ok_base_nominal b L]"
    by (rule chain_link_unfold)
  have w1: "filter is_warning w1 = w1"
    using an by (auto simp: annual_of_def Let_def split: if_splits)
  have w2: "filter is_warning w2 = (if year_rows A by0 = [] then [Warn_base_year_not_found by0] else [])"
    using pb by (auto simp: pick_base_year_def Let_def split: if_splits)
  show ?thesis using an by (simp add: m w1 w2)
qed

text \<open>Sorting commutes with a change of the rows that leaves the dates alone.\<close>

lemma insort_key_map:
  assumes "\<And>x. k (f x) = k x"
  shows "insort_key k (f x) (map f xs) = map f (insort_key k x xs)"
  by (induction xs) (auto simp: assms)

lemma sort_key_map:
  assumes "\<And>x. k (f x) = k x"
  shows "sort_key k (map f xs) = map f (sort_key k xs)"
  by (induction xs) (auto simp: insort_key_map[where k = k and f = f, OF assms])

lemma prepare_rows_eq:
  "prepare_rows df vc =
     map (add_helper_columns vc) (sort_key (\<lambda>r. date_key (date r)) (rows df))"
  unfolding prepare_rows_def
  by (rule sort_key_map) (simp add: add_helper_columns_def set_cell_def)

lemma length_prepare_rows: "length (prepare_rows df vc) = length (rows df)"
  by (simp add: prepare_rows_eq)

lemma real_gdp_col_neq: "real_gdp_col vc \<noteq> vc"
  by (simp add: real_gdp_col_def real_suffix_def)

lemma convert_unfold:
  assumes "convert_gdp_to_real df vc gc by0 = Inr (out, msgs)"
  obtains s A b m real1 real2 where
    "chain_link (prepare_rows df vc) vc gc by0 = Inr (s, A, b, m)"
    "length real1 = length (rows df)"
    "\<forall>k. notna (real_column s ! k) \<longrightarrow> real1 ! k = real_column s ! k"
    "length real2 = length (rows df)"
    "\<forall>k. k < length (rows df) \<and> notna (real1 ! k) \<longrightarrow> real2 ! k = real1 ! k"
    "out = drop_columns
             \<lparr>columns = assign_dtype (assign_dtype (assign_dtype (columns df) ''year'' Numeric)
                          (real_gdp_col vc) Numeric) vc Numeric,
              rows = map2 (\<lambda>r v. set_cell r vc (Num v)) (prepare_rows df vc) real2\<rparr>
             [real_gdp_col vc, ''year'']"
    "msgs = m @ [Ok_done (length (filter notna real2)) (length (rows df))]"
proof -
  let ?P = "prepare_rows df vc"
  from assms obtain s A b m where c: "chain_link ?P vc gc by0 = Inr (s, A, b, m)"
    by (auto simp: convert_gdp_to_real_def Let_def bind_err_eq_Inr)
  let ?snap = "map2 (\<lambda>r v. set_cell r (real_gdp_col vc) (Num v)) ?P (real_column s)"
  from assms c obtain real1 where
    f: "for_loop (fill_step ?snap A vc gc (annual_real_gdp s)) [0 ..< length ?P] (real_column s) = Inr real1"
    by (auto simp: convert_gdp_to_real_def Let_def bind_err_eq_Inr)
  define real2 where "real2 = (if filter (\<lambda>x. \<not> notna x) real1 \<noteq> []
                                   then interpolate_linear False real1 else real1)"
  have len_s: "length (real_column s) = length (rows df)"
    using chain_link_length[OF c] by (simp add: length_prepare_rows)
  note k1 = fill_loop_keeps[OF f]
  have l1: "length real1 = length (rows df)" using k1 len_s by simp
  have l2: "length real2 = length (rows df)"
    using l1 interpolate_linear_keeps[of False real1] by (simp add: real2_def)
  have k2: "\<forall>k. k < length (rows df) \<and> notna (real1 ! k) \<longrightarrow> real2 ! k = real1 ! k"
    using l1 interpolate_linear_keeps[of False real1] by (simp add: real2_def)
  have k1': "\<forall>k. notna (real_column s ! k) \<longrightarrow> real1 ! k = real_column s ! k"
    using k1 by simp
  have o: "out = drop_columns
             \<lparr>columns = assign_dtype (assign_dtype (assign_dtype (columns df) ''year'' Numeric)
                          (real_gdp_col vc) Numeric) vc Numeric,
              rows = map2 (\<lambda>r v. set_cell r vc (Num v)) (prepare_rows df vc) real2\<rparr>
             [real_gdp_col vc, ''year'']"
    using assms c f by (simp add: convert_gdp_to_real_def Let_def real2_def length_prepare_rows)
  have ms: "msgs = m @ [Ok_done (length (filter notna real2)) (length (rows df))]"
    using assms c f by (simp add: convert_gdp_to_real_def Let_def real2_def length_prepare_rows)
  show ?thesis by (rule that[OF c l1 k1' l2 k2 o ms])
qed

lemma names_assign_dtype:
  "map fst (assign_dtype cs c t) = (if c \<in> fst ` set cs then map fst cs else map fst cs @ [c])"
proof -
  have "map fst (map (\<lambda>(n, d). if n = c then (n, t) else (n, d)) cs) = map fst cs"
    by (induction cs) auto
  then show ?thesis by (simp add: assign_dtype_def)
qed

lemma names_set_assign_dtype: "fst ` set (assign_dtype cs c t) = insert c (fst ` set cs)"
proof -
  have "set (map fst (assign_dtype cs c t)) = insert c (fst ` set cs)"
    unfolding names_assign_dtype by auto
  then show ?thesis by simp
qed

lemma names_drop_columns:
  "map fst (columns (drop_columns df names)) = filter (\<lambda>n. n \<notin> set names) (map fst (columns df))"
  by (simp add: drop_columns_def filter_map comp_def case_prod_unfold)

lemma cells_add_helper_columns:
  "date (add_helper_columns vc r) = date r"
  "c \<noteq> ''year'' \<Longrightarrow> c \<noteq> real_gdp_col vc \<Longrightarrow> cells (add_helper_columns vc r) c = cells r c"
  by (simp_all add: add_helper_columns_def set_cell_def)

lemma convert_output_row:
  assumes conv: "convert_gdp_to_real df vc gc by0 = Inr (out, msgs)"
  obtains real2 where "length real2 = length (rows df)"
    and "length (rows out) = length (rows df)"
    and "\<forall>i < length (rows df).
           date (rows out ! i) = date (sort_key (\<lambda>r. date_key (date r)) (rows df) ! i)"
    and "\<forall>i c. i < length (rows df) \<longrightarrow>
           cells (rows out ! i) c =
             (if c = real_gdp_col vc \<or> c = ''year'' then None
              else if c = vc then Some (Num (real2 ! i))
              else cells (sort_key (\<lambda>r. date_key (date r)) (rows df) ! i) c)"
    and "\<forall>s A b m i. chain_link (prepare_rows df vc) vc gc by0 = Inr (s, A, b, m) \<and>
           i < length (rows df) \<and> notna (real_column s ! i) \<longrightarrow> real2 ! i = real_column s ! i"
proof -
  let ?S = "sort_key (\<lambda>r. date_key (date r)) (rows df)"
  from conv obtain s A b m real1 real2 where
    c: "chain_link (prepare_rows df vc) vc gc by0 = Inr (s, A, b, m)"
    and l1: "length real1 = length (rows df)"
    and k1: "\<forall>k. notna (real_column s ! k) \<longrightarrow> real1 ! k = real_column s ! k"
    and l2: "length real2 = length (rows df)"
    and k2: "\<forall>k. k < length (rows df) \<and> notna (real1 ! k) \<longrightarrow> real2 ! k = real1 ! k"
    and out: "out = drop_columns
             \<lparr>columns = assign_dtype (assign_dtype (assign_dtype (columns df) ''year'' Numeric)
                          (real_gdp_col vc) Numeric) vc Numeric,
              rows = map2 (\<lambda>r v. set_cell r vc (Num v)) (prepare_rows df vc) real2\<rparr>
             [real_gdp_col vc, ''year'']"
    and msgs: "msgs = m @ [Ok_done (length (filter notna real2)) (length (rows df))]"
    by (rule convert_unfold)
  have len: "length (rows out) = length (rows df)"
    by (simp add: out drop_columns_def l2 length_prepare_rows)
  have d: "\<forall>i < length (rows df). date (rows out ! i) = date (?S ! i)"
    by (simp add: out drop_columns_def l2 prepare_rows_eq set_cell_def cells_add_helper_columns)
  have cs: "\<forall>i c. i < length (rows df) \<longrightarrow>
           cells (rows out ! i) c =
             (if c = real_gdp_col vc \<or> c = ''year'' then None
              else if c = vc then Some (Num (real2 ! i))
              else cells (?S ! i) c)"
    by (simp add: out drop_columns_def l2 prepare_rows_eq set_cell_def cells_add_helper_columns)
  have ch: "\<forall>s' A' b' m' i. chain_link (prepare_rows df vc) vc gc by0 = Inr (s', A', b', m') \<and>
           i < length (rows df) \<and> notna (real_column s' ! i) \<longrightarrow> real2 ! i = real_column s' ! i"
    using c k1 k2 by auto
  show ?thesis by (rule that[OF l2 len d cs ch])
qed

lemma convert_unfold_fill:
  assumes "convert_gdp_to_real df vc gc by0 = Inr (out, msgs)"
  obtains s A b m real1 where
    "chain_link (prepare_rows df vc) vc gc by0 = Inr (s, A, b, m)"
    "for_loop (fill_step (map2 (\<lambda>r v. set_cell r (real_gdp_col vc) (Num v))
                            (prepare_rows df vc) (real_column s))
                 A vc gc (annual_real_gdp s))
       [0 ..< length (rows df)] (real_column s) = Inr real1"
    "length real1 = length (rows df)"
    "out = drop_columns
             \<lparr>columns = assign_dtype (assign_dtype (assign_dtype (columns df) ''year'' Numeric)
                          (real_gdp_col vc) Numeric) vc Numeric,
              rows = map2 (\<lambda>r v. set_cell r vc (Num v)) (prepare_rows df vc)
                       (if filter (\<lambda>x. \<not> notna x) real1 \<noteq> []
                        then interpolate_linear False real1 else real1)\<rparr>
             [real_gdp_col vc, ''year'']"
proof -
  let ?P = "prepare_rows df vc"
  from assms obtain s A b m where c: "chain_link ?P vc gc by0 = Inr (s, A, b, m)"
    by (auto simp: convert_gdp_to_real_def Let_def bind_err_eq_Inr)
  let ?snap = "map2 (\<lambda>r v. set_cell r (real_gdp_col vc) (Num v)) ?P (real_column s)"
  from assms c obtain real1 where
    f: "for_loop (fill_step ?snap A vc gc (annual_real_gdp s)) [0 ..< length ?P] (real_column s) = Inr real1"
    by (auto simp: convert_gdp_to_real_def Let_def bind_err_eq_Inr)
  have len_s: "length (real_column s) = length (rows df)"
    using chain_link_length[OF c] by (simp add: length_prepare_rows)
  have l1: "length real1 = length (rows df)" using fill_loop_keeps[OF f] len_s by simp
  have f': "for_loop (fill_step ?snap A vc gc (annual_real_gdp s)) [0 ..< length (rows df)]
              (real_column s) = Inr real1"
    using f by (simp add: length_prepare_rows)
  have o: "out = drop_columns
             \<lparr>columns = assign_dtype (assign_dtype (assign_dtype (columns df) ''year'' Numeric)
                          (real_gdp_col vc) Numeric) vc Numeric,
              rows = map2 (\<lambda>r v. set_cell r vc (Num v)) (prepare_rows df vc)
                       (if filter (\<lambda>x. \<not> notna x) real1 \<noteq> []
                        then interpolate_linear False real1 else real1)\<rparr>
             [real_gdp_col vc, ''year'']"
    using assms c f by (simp add: convert_gdp_to_real_def Let_def length_prepare_rows)
  show ?thesis by (rule that[OF c f' l1 o])
qed

lemma convert_value_column:
  assumes conv: "convert_gdp_to_real df vc gc by0 = Inr (out, msgs)" and vc: "vc \<noteq> ''year''"
  shows "\<exists>s A b m real1.
     chain_link (prepare_rows df vc) vc gc by0 = Inr (s, A, b, m) \<and>
     for_loop (fill_step (map2 (\<lambda>r v. set_cell r (real_gdp_col vc) (Num v))
                            (prepare_rows df vc) (real_column s))
                 A vc gc (annual_real_gdp s))
       [0 ..< length (rows df)] (real_column s) = Inr real1 \<and>
     length real1 = length (rows df) \<and>
     (\<forall>i < length (rows df).
        cells (rows out ! i) vc =
          Some (Num ((if filter (\<lambda>x. \<not> notna x) real1 \<noteq> []
                      then interpolate_linear False real1 else real1) ! i)))"
proof -
  from conv obtain s A b m real1 where
    c: "chain_link (prepare_rows df vc) vc gc by0 = Inr (s, A, b, m)"
    and f: "for_loop (fill_step (map2 (\<lambda>r v. set_cell r (real_gdp_col vc) (Num v))
                            (prepare_rows df vc) (real_column s))
                 A vc gc (annual_real_gdp s))
       [0 ..< length (rows df)] (real_column s) = Inr real1"
    and l1: "length real1 = length (rows df)"
    and out: "out = drop_columns
             \<lparr>columns = assign_dtype (assign_dtype (assign_dtype (columns df) ''year'' Numeric)
                          (real_gdp_col vc) Numeric) vc Numeric,
              rows = map2 (\<lambda>r v. set_cell r vc (Num v)) (prepare_rows df vc)
                       (if filter (\<lambda>x. \<not> notna x) real1 \<noteq> []
                        then interpolate_linear False real1 else real1)\<rparr>
             [real_gdp_col vc, ''year'']"
    by (rule convert_unfold_fill)
  define final where "final = (if filter (\<lambda>x. \<not> notna x) real1 \<noteq> []
                        then interpolate_linear False real1 else real1)"
  have l2: "length final = length (rows df)"
    using l1 interpolate_linear_keeps[of False real1] by (simp add: final_def)
  have neq: "vc \<noteq> real_gdp_col vc" using real_gdp_col_neq[of vc] by simp
  have "\<forall>i < length (rows df). cells (rows out ! i) vc = Some (Num (final ! i))"
    unfolding out final_def[symmetric]
    using neq vc by (simp add: drop_columns_def l2 length_prepare_rows set_cell_def)
  then have v: "\<forall>i < length (rows df).
        cells (rows out ! i) vc =
          Some (Num ((if filter (\<lambda>x. \<not> notna x) real1 \<noteq> []
                      then interpolate_linear False real1 else real1) ! i))"
    by (simp only: final_def)
  show ?thesis
    by (intro exI[of _ s] exI[of _ A] exI[of _ b] exI[of _ m] exI[of _ real1] conjI c f l1 v)
qed

subsection \<open>Claims about the output columns\<close>

text \<open>
  C7, as the code has it. The claim says that the growth-rate column is absent from the
  output; line 389 drops only the helper column and \<^verbatim>\<open>year\<close>, and
  \<^verbatim>\<open>create_unified_dataset\<close> later reads the growth-rate column from the converted GDP
  file. What holds, for a value column that the frame has and that is not called
  \<^verbatim>\<open>year\<close>:
  \<^item> the output has the input's columns in their order, less the helper column and
    \<^verbatim>\<open>year\<close>; so the growth-rate column stays;
  \<^item> the rows are the input's rows in date order; in each row the helper column and
    \<^verbatim>\<open>year\<close> are absent, the value column holds a number (the reconstructed real
    value), and every other cell, the growth rate included, is unchanged;
  \<^item> a value that the chain step resolved (not NaN) is the value of the output;
  \<^item> in every row the value column holds the helper column as it stands after line
    381: the column that the loop over the rows still missing (lines 355-377) makes of
    the chain step's column, interpolated (lines 380-381) when a value is still missing.
\<close>

theorem convert_replaces_value_and_keeps_growth:
  assumes "convert_gdp_to_real df value_col growth_col base_year = Inr (out, msgs)"
    and "has_column df value_col" and "value_col \<noteq> ''year''"
  shows "map fst (columns out) =
           filter (\<lambda>n. n \<noteq> real_gdp_col value_col \<and> n \<noteq> ''year'') (map fst (columns df)) \<and>
         length (rows out) = length (rows df) \<and>
         (\<forall>i < length (rows df).
            date (rows out ! i) = date (sort_key (\<lambda>r. date_key (date r)) (rows df) ! i) \<and>
            cells (rows out ! i) (real_gdp_col value_col) = None \<and>
            cells (rows out ! i) ''year'' = None \<and>
            (\<exists>v. cells (rows out ! i) value_col = Some (Num v)) \<and>
            (\<forall>c. c \<noteq> value_col \<and> c \<noteq> real_gdp_col value_col \<and> c \<noteq> ''year'' \<longrightarrow>
                 cells (rows out ! i) c =
                   cells (sort_key (\<lambda>r. date_key (date r)) (rows df) ! i) c)) \<and>
         (\<forall>s annual_df base_year' m i.
            chain_link (prepare_rows df value_col) value_col growth_col base_year
              = Inr (s, annual_df, base_year', m) \<and>
            i < length (rows df) \<and> notna (real_column s ! i) \<longrightarrow>
            cells (rows out ! i) value_col = Some (Num (real_column s ! i))) \<and>
         (\<exists>s annual_df base_year' m real1.
            chain_link (prepare_rows df value_col) value_col growth_col base_year
              = Inr (s, annual_df, base_year', m) \<and>
            for_loop (fill_step (map2 (\<lambda>r v. set_cell r (real_gdp_col value_col) (Num v))
                                   (prepare_rows df value_col) (real_column s))
                        annual_df value_col growth_col (annual_real_gdp s))
              [0 ..< length (rows df)] (real_column s) = Inr real1 \<and>
            length real1 = length (rows df) \<and>
            (\<forall>i < length (rows df).
               cells (rows out ! i) value_col =
                 Some (Num ((if filter (\<lambda>x. \<not> notna x) real1 \<noteq> []
                             then interpolate_linear False real1 else real1) ! i))))"
proof -
  note final = convert_value_column[OF assms(1) assms(3)]
  from assms(1) obtain real2 where
    len2: "length real2 = length (rows df)"
    and len: "length (rows out) = length (rows df)"
    and dates: "\<forall>i < length (rows df).
           date (rows out ! i) = date (sort_key (\<lambda>r. date_key (date r)) (rows df) ! i)"
    and cells: "\<forall>i c. i < length (rows df) \<longrightarrow>
           cells (rows out ! i) c =
             (if c = real_gdp_col value_col \<or> c = ''year'' then None
              else if c = value_col then Some (Num (real2 ! i))
              else cells (sort_key (\<lambda>r. date_key (date r)) (rows df) ! i) c)"
    and chainv: "\<forall>s A b m i. chain_link (prepare_rows df value_col) value_col growth_col base_year
              = Inr (s, A, b, m) \<and>
           i < length (rows df) \<and> notna (real_column s ! i) \<longrightarrow> real2 ! i = real_column s ! i"
    by (rule convert_output_row)
  from assms(1) have out: "map fst (columns out) =
      filter (\<lambda>n. n \<notin> set [real_gdp_col value_col, ''year''])
        (map fst (assign_dtype (assign_dtype (assign_dtype (columns df) ''year'' Numeric)
                          (real_gdp_col value_col) Numeric) value_col Numeric))"
    by (elim convert_unfold) (simp add: names_drop_columns)
  have names: "map fst (columns out) =
           filter (\<lambda>n. n \<noteq> real_gdp_col value_col \<and> n \<noteq> ''year'') (map fst (columns df))"
    using assms(2) unfolding out has_column_def
    by (auto simp: names_assign_dtype names_set_assign_dtype)
  have neq: "value_col \<noteq> real_gdp_col value_col" using real_gdp_col_neq[of value_col] by simp
  have rows_ok: "\<forall>i < length (rows df).
            date (rows out ! i) = date (sort_key (\<lambda>r. date_key (date r)) (rows df) ! i) \<and>
            cells (rows out ! i) (real_gdp_col value_col) = None \<and>
            cells (rows out ! i) ''year'' = None \<and>
            (\<exists>v. cells (rows out ! i) value_col = Some (Num v)) \<and>
            (\<forall>c. c \<noteq> value_col \<and> c \<noteq> real_gdp_col value_col \<and> c \<noteq> ''year'' \<longrightarrow>
                 cells (rows out ! i) c =
                   cells (sort_key (\<lambda>r. date_key (date r)) (rows df) ! i) c)"
    using dates cells neq assms(3) by simp
  have chain_ok: "\<forall>s annual_df base_year' m i.
            chain_link (prepare_rows df value_col) value_col growth_col base_year
              = Inr (s, annual_df, base_year', m) \<and>
            i < length (rows df) \<and> notna (real_column s ! i) \<longrightarrow>
            cells (rows out ! i) value_col = Some (Num (real_column s ! i))"
    using chainv cells neq assms(3) by simp
  show ?thesis by (rule conjI[OF names conjI[OF len conjI[OF rows_ok conjI[OF chain_ok final]]]])
qed


text \<open>The claim as stated fails on Scenario C: the growth-rate column is still there,
  with the growth rates in it.\<close>

theorem convert_keeps_growth_column_counterexample:
  "out_columns (convert_gdp_to_real (level_growth_frame scenario_c) ''level'' ''growth'' 2015)
     = [''level'', ''growth''] \<and>
   out_values (convert_gdp_to_real (level_growth_frame scenario_c) ''level'' ''growth'' 2015)
     ''growth'' = [Some (Num (Fin 3)), Some (Num (Fin 4)), Some (Num (Fin 5))]"
  by code_simp

lemma mixed_rows_convert:
  "\<not> isl (convert_gdp_to_real (level_growth_frame mixed_rows) ''level'' ''growth'' 2015)"
  by code_simp

lemma mixed_rows_filled:
  "filled_columns (prepare_rows (level_growth_frame mixed_rows) ''level'') ''level'' ''growth'' 2015
     = Some ([Fin 500, NaN, Fin 800, Fin 480, Fin 1000, Fin 528, Fin 1050],
             [Fin 500, Fin 650, Fin 800, Fin 480, Fin 1000, Fin 528, Fin 1050])"
  by code_simp

lemma sorted_mixed_rows: "sort_key (\<lambda>r. date_key (date r)) mixed_rows = mixed_rows"
  by (simp add: mixed_rows_def dated_row_def date_key_def)

theorem convert_replaces_value_and_keeps_growth_witness:
  "\<exists>out msgs.
     convert_gdp_to_real (level_growth_frame mixed_rows) ''level'' ''growth'' 2015 = Inr (out, msgs) \<and>
     map fst (columns out) = [''level'', ''growth''] \<and>
     length (rows out) = 7 \<and>
     cells (rows out ! 1) ''year'' = None \<and>
     cells (rows out ! 1) ''growth'' = Some (Num (Fin 7)) \<and>
     map (\<lambda>i. cells (rows out ! i) ''level'') [0, 1, 2, 3, 4, 5, 6]
       = map (\<lambda>v. Some (Num (Fin v))) [500, 650, 800, 480, 1000, 528, 1050]"
proof -
  let ?df = "level_growth_frame mixed_rows"
  obtain out msgs where c: "convert_gdp_to_real ?df ''level'' ''growth'' 2015 = Inr (out, msgs)"
    using mixed_rows_convert
    by (cases "convert_gdp_to_real ?df ''level'' ''growth'' 2015") auto
  have h: "has_column ?df ''level''" "''level'' \<noteq> ''year''"
    by (simp_all add: has_column_def level_growth_frame_def)
  note main = convert_replaces_value_and_keeps_growth[OF c h]
  have n: "length (rows ?df) = 7" by (simp add: level_growth_frame_def mixed_rows_def)
  have sorted_rows: "sort_key (\<lambda>r. date_key (date r)) (rows ?df) = mixed_rows"
    by (simp add: level_growth_frame_def sorted_mixed_rows)
  have 1: "map fst (columns out) = [''level'', ''growth'']"
    using main[THEN conjunct1]
    by (simp add: level_growth_frame_def real_gdp_col_def real_suffix_def)
  have 2: "length (rows out) = 7"
    using main[THEN conjunct2, THEN conjunct1] by (simp add: n)
  have "1 < length (rows ?df)" by (simp add: n)
  with main[THEN conjunct2, THEN conjunct2, THEN conjunct1, rule_format, of 1]
  have 3: "cells (rows out ! 1) ''year'' = None"
    and 4: "\<forall>c. c \<noteq> ''level'' \<and> c \<noteq> real_gdp_col ''level'' \<and> c \<noteq> ''year'' \<longrightarrow>
                 cells (rows out ! 1) c = cells (sort_key (\<lambda>r. date_key (date r)) (rows ?df) ! 1) c"
    by simp_all
  from 4[rule_format, of "''growth''"]
  have 5: "cells (rows out ! 1) ''growth'' = Some (Num (Fin 7))"
    unfolding sorted_rows by (simp add: mixed_rows_def dated_row_def real_gdp_col_def real_suffix_def)
  from main[THEN conjunct2, THEN conjunct2, THEN conjunct2, THEN conjunct2]
  obtain s A b m real1 where
    chain: "chain_link (prepare_rows ?df ''level'') ''level'' ''growth'' 2015 = Inr (s, A, b, m)"
    and fill: "for_loop (fill_step (map2 (\<lambda>r v. set_cell r (real_gdp_col ''level'') (Num v))
                                   (prepare_rows ?df ''level'') (real_column s))
                        A ''level'' ''growth'' (annual_real_gdp s))
              [0 ..< length (rows ?df)] (real_column s) = Inr real1"
    and val: "\<forall>i < length (rows ?df).
               cells (rows out ! i) ''level'' =
                 Some (Num ((if filter (\<lambda>x. \<not> notna x) real1 \<noteq> []
                             then interpolate_linear False real1 else real1) ! i))"
    by (elim exE conjE) (rule that)
  have fc: "filled_columns (prepare_rows ?df ''level'') ''level'' ''growth'' 2015
              = Some (real1, interpolate_linear False real1)"
    using chain fill by (simp add: filled_columns_def length_prepare_rows)
  have r1: "real1 = [Fin 500, NaN, Fin 800, Fin 480, Fin 1000, Fin 528, Fin 1050]"
    by (metis fc mixed_rows_filled option.inject prod.inject)
  have r2: "interpolate_linear False real1
               = [Fin 500, Fin 650, Fin 800, Fin 480, Fin 1000, Fin 528, Fin 1050]"
    by (metis fc mixed_rows_filled option.inject prod.inject)
  have "filter (\<lambda>x. \<not> notna x) real1 \<noteq> []" by (simp add: r1 notna_def)
  with val r2 have v: "\<forall>i < 7. cells (rows out ! i) ''level''
      = Some (Num ([Fin 500, Fin 650, Fin 800, Fin 480, Fin 1000, Fin 528, Fin 1050] ! i))"
    by (simp add: n)
  have 6: "map (\<lambda>i. cells (rows out ! i) ''level'') [0, 1, 2, 3, 4, 5, 6]
       = map (\<lambda>v. Some (Num (Fin v))) [500, 650, 800, 480, 1000, 528, 1050]"
    using v[rule_format, of 0] v[rule_format, of 1] v[rule_format, of 2] v[rule_format, of 3]
      v[rule_format, of 4] v[rule_format, of 5] v[rule_format, of 6]
    by simp
  show ?thesis by (intro exI[of _ out] exI[of _ msgs] conjI c 1 2 3 5 6)
qed

lemma growth_factor_minus_100: "growth_factor (Fin (- 100)) = Fin 0"
  by (simp add: growth_factor_def)

subsection \<open>A growth rate of -100 per cent\<close>

text \<open>
  C2 says that a record with \<open>1 + G / 100 = 0\<close> is left unresolved by the chain step,
  reported, and filled by interpolation. The source has no such case: lines 328 and 348
  are evaluated for every growth rate. With a rate of -100 in the year after the base
  year the chain step stores \<open>1000 * 0 = 0\<close>, which reaches the output, and nothing is
  reported; with a rate of -100 at the base year the backward loop divides by zero and
  numpy's division returns an infinity, which is stored and is not NaN, so interpolation
  does not replace it.
\<close>

theorem degenerate_growth_is_stored_counterexample:
  "chain_column (chain_link (prepare_rows degenerate_forward ''level'') ''level'' ''growth'' 2015)
     = [Fin 1000, Fin 0] \<and>
   out_values (convert_gdp_to_real degenerate_forward ''level'' ''growth'' 2015) ''level''
     = [Some (Num (Fin 1000)), Some (Num (Fin 0))] \<and>
   out_warnings (convert_gdp_to_real degenerate_forward ''level'' ''growth'' 2015) = [] \<and>
   chain_column (chain_link (prepare_rows degenerate_backward ''level'') ''level'' ''growth'' 2015)
     = [PInf, Fin 1000] \<and>
   out_values (convert_gdp_to_real degenerate_backward ''level'' ''growth'' 2015) ''level''
     = [Some (Num PInf), Some (Num (Fin 1000))]"
  by code_simp

text \<open>
  C2, as the code has it. Let \<open>p < y\<close> be neighbours among the years with a year-end
  record and let the record of \<open>y\<close> have the growth rate -100. The chain step applies
  its formulas as for any other rate: forward (\<open>p\<close> at or after the base year) it stores
  \<open>R[y] = R[p] * 0\<close>; backward (\<open>y\<close> at or before the base year) it stores the float
  quotient \<open>R[p] = R[y] / 0\<close> (an infinity, or NaN when \<open>R[y]\<close> is zero or NaN). A stored
  value that is not NaN is the output's value: the later steps fill only what is still
  NaN. The only warnings are the two about missing year-end data and a missing base
  year, which depend on the dates alone. The conversion is not aborted by such a rate
  (the witness runs it).
\<close>

theorem degenerate_growth_is_applied_like_any_other:
  assumes conv: "convert_gdp_to_real df value_col growth_col base_year0 = Inr (out, out_msgs)"
    and chain: "chain_link (prepare_rows df value_col) value_col growth_col base_year0
                  = Inr (s, annual_df, base_year, msgs)"
    and p: "year_rows annual_df p = (idx_p, r_p) # rest_p"
    and y: "year_rows annual_df y = (idx_y, r_y) # rest_y"
    and py: "p < y"
    and between: "\<forall>z. p < z \<and> z < y \<longrightarrow> year_rows annual_df z = []"
    and g: "cells r_y growth_col = Some (Num (Fin (- 100)))"
    and vc: "value_col \<noteq> ''year''"
  shows "(base_year \<le> p \<longrightarrow>
           (\<exists>rp. annual_real_gdp s p = Some rp \<and>
                  annual_real_gdp s y = Some (fl_mul rp (Fin 0)) \<and>
                  real_column s ! idx_y = fl_mul rp (Fin 0) \<and>
                  (notna (fl_mul rp (Fin 0)) \<longrightarrow>
                     cells (rows out ! idx_y) value_col = Some (Num (fl_mul rp (Fin 0)))))) \<and>
         (y \<le> base_year \<longrightarrow>
           (\<exists>ry. annual_real_gdp s y = Some ry \<and>
                  annual_real_gdp s p = Some (fl_div ry (Fin 0)) \<and>
                  real_column s ! idx_p = fl_div ry (Fin 0) \<and>
                  (notna (fl_div ry (Fin 0)) \<longrightarrow>
                     cells (rows out ! idx_p) value_col = Some (Num (fl_div ry (Fin 0)))))) \<and>
         filter is_warning out_msgs =
           snd (annual_of (prepare_rows df value_col)) @
           (if year_rows annual_df base_year0 = [] then [Warn_base_year_not_found base_year0]
            else [])"
proof -
  let ?P = "prepare_rows df value_col"
  from conv obtain real2 where
    len2: "length real2 = length (rows df)"
    and len: "length (rows out) = length (rows df)"
    and dates: "\<forall>i < length (rows df).
           date (rows out ! i) = date (sort_key (\<lambda>r. date_key (date r)) (rows df) ! i)"
    and cells: "\<forall>i c. i < length (rows df) \<longrightarrow>
           cells (rows out ! i) c =
             (if c = real_gdp_col value_col \<or> c = ''year'' then None
              else if c = value_col then Some (Num (real2 ! i))
              else cells (sort_key (\<lambda>r. date_key (date r)) (rows df) ! i) c)"
    and chainv: "\<forall>s A b m i. chain_link ?P value_col growth_col base_year0 = Inr (s, A, b, m) \<and>
           i < length (rows df) \<and> notna (real_column s ! i) \<longrightarrow> real2 ! i = real_column s ! i"
    by (rule convert_output_row)
  have A: "annual_df = fst (annual_of ?P)" by (rule chain_link_annual[OF chain])
  have neq: "value_col \<noteq> real_gdp_col value_col" using real_gdp_col_neq[of value_col] by simp
  have kept: "cells (rows out ! i) value_col = Some (Num (real_column s ! i))"
    if "(i, r) \<in> set annual_df" "notna (real_column s ! i)" for i r
  proof -
    from that(1) have "i < length ?P" using annual_of_mem[of i r ?P] A by simp
    then have i: "i < length (rows df)" by (simp add: length_prepare_rows)
    with chainv chain that(2) have "real2 ! i = real_column s ! i" by blast
    with cells i neq vc show ?thesis by simp
  qed
  have fwd: "\<exists>rp. annual_real_gdp s p = Some rp \<and>
                  annual_real_gdp s y = Some (fl_mul rp (Fin 0)) \<and>
                  real_column s ! idx_y = fl_mul rp (Fin 0) \<and>
                  (notna (fl_mul rp (Fin 0)) \<longrightarrow>
                     cells (rows out ! idx_y) value_col = Some (Num (fl_mul rp (Fin 0))))"
    if "base_year \<le> p"
  proof -
    have "year_rows annual_df p \<noteq> []" using p by simp
    from chain_link_forward[OF chain this that py _ y g] between
    obtain rp where rp: "annual_real_gdp s p = Some rp"
      "annual_real_gdp s y = Some (fl_mul rp (Fin 0))"
      "real_column s ! idx_y = fl_mul rp (Fin 0)"
      by (auto simp: growth_factor_minus_100)
    have "(idx_y, r_y) \<in> set annual_df" using year_rows_mem[OF y] by simp
    from kept[OF this] rp show ?thesis by auto
  qed
  have bwd: "\<exists>ry. annual_real_gdp s y = Some ry \<and>
                  annual_real_gdp s p = Some (fl_div ry (Fin 0)) \<and>
                  real_column s ! idx_p = fl_div ry (Fin 0) \<and>
                  (notna (fl_div ry (Fin 0)) \<longrightarrow>
                     cells (rows out ! idx_p) value_col = Some (Num (fl_div ry (Fin 0))))"
    if "y \<le> base_year"
  proof -
    from chain_link_backward[OF chain p py that _ y g] between
    obtain ry where ry: "annual_real_gdp s y = Some ry"
      "annual_real_gdp s p = Some (fl_div ry (Fin 0))"
      "real_column s ! idx_p = fl_div ry (Fin 0)"
      by (auto simp: growth_factor_minus_100)
    have "(idx_p, r_p) \<in> set annual_df" using year_rows_mem[OF p] by simp
    from kept[OF this] ry show ?thesis by auto
  qed
  have w: "filter is_warning out_msgs =
           snd (annual_of ?P) @
           (if year_rows annual_df base_year0 = [] then [Warn_base_year_not_found base_year0]
            else [])"
  proof -
    from conv obtain m' real2' where "out_msgs = m' @ [Ok_done (length (filter notna real2')) (length (rows df))]"
      and "\<exists>s' A' b'. chain_link ?P value_col growth_col base_year0 = Inr (s', A', b', m')"
      by (elim convert_unfold) blast
    with chain have "out_msgs = msgs @ [Ok_done (length (filter notna real2')) (length (rows df))]"
      by auto
    with chain_link_warnings[OF chain] show ?thesis by simp
  qed
  from fwd bwd w show ?thesis by blast
qed


lemma degenerate_forward_observed:
  "\<not> isl (convert_gdp_to_real degenerate_forward ''level'' ''growth'' 2015)"
  "\<not> isl (chain_link (prepare_rows degenerate_forward ''level'') ''level'' ''growth'' 2015)"
  "map fst (year_rows (fst (annual_of (prepare_rows degenerate_forward ''level''))) 2015) = [0]"
  "map fst (year_rows (fst (annual_of (prepare_rows degenerate_forward ''level''))) 2016) = [1]"
  "map (\<lambda>x. cells (snd x) ''level'')
     (year_rows (fst (annual_of (prepare_rows degenerate_forward ''level''))) 2015)
     = [Some (Num (Fin 1000))]"
  "map (\<lambda>x. cells (snd x) ''growth'')
     (year_rows (fst (annual_of (prepare_rows degenerate_forward ''level''))) 2016)
     = [Some (Num (Fin (- 100)))]"
  "snd (annual_of (prepare_rows degenerate_forward ''level'')) = []"
  "list_ex (\<lambda>r. month (date r) = 12 \<and> year (date r) = 2015)
     (prepare_rows degenerate_forward ''level'')"
  by code_simp+

theorem degenerate_growth_is_applied_like_any_other_witness:
  "\<exists>out out_msgs.
     convert_gdp_to_real degenerate_forward ''level'' ''growth'' 2015 = Inr (out, out_msgs) \<and>
     cells (rows out ! 1) ''level'' = Some (Num (Fin 0)) \<and>
     filter is_warning out_msgs = []"
proof -
  let ?P = "prepare_rows degenerate_forward ''level''"
  note obs = degenerate_forward_observed
  obtain out out_msgs
    where conv: "convert_gdp_to_real degenerate_forward ''level'' ''growth'' 2015 = Inr (out, out_msgs)"
    using obs(1) by (cases "convert_gdp_to_real degenerate_forward ''level'' ''growth'' 2015") auto
  obtain s A b msgs
    where chain: "chain_link ?P ''level'' ''growth'' 2015 = Inr (s, A, b, msgs)"
    using obs(2) by (cases "chain_link ?P ''level'' ''growth'' 2015") auto
  have A: "A = fst (annual_of ?P)" by (rule chain_link_annual[OF chain])
  have "\<exists>r \<in> set ?P. month (date r) = 12 \<and> year (date r) = 2015"
    using obs(8) by (simp add: list_ex_iff)
  from chain_link_base_found[OF chain this] have b: "b = 2015" by simp
  from obs(3,5) obtain r_p where p: "year_rows A 2015 = (0, r_p) # []"
    and lp: "cells r_p ''level'' = Some (Num (Fin 1000))"
    unfolding A by (cases "year_rows (fst (annual_of ?P)) 2015") auto
  from obs(4,6) obtain r_y where y: "year_rows A 2016 = (1, r_y) # []"
    and gy: "cells r_y ''growth'' = Some (Num (Fin (- 100)))"
    unfolding A by (cases "year_rows (fst (annual_of ?P)) 2016") auto
  have between: "\<forall>z. (2015::int) < z \<and> z < 2016 \<longrightarrow> year_rows A z = []" by auto
  note main = degenerate_growth_is_applied_like_any_other[OF conv chain[unfolded b] p y _ between gy]
  from chain_link_anchor[OF chain[unfolded b] p] lp
  have a: "annual_real_gdp s 2015 = Some (Fin 1000)" by simp
  have "\<exists>rp. annual_real_gdp s 2015 = Some rp \<and>
                  annual_real_gdp s 2016 = Some (fl_mul rp (Fin 0)) \<and>
                  real_column s ! 1 = fl_mul rp (Fin 0) \<and>
                  (notna (fl_mul rp (Fin 0)) \<longrightarrow>
                     cells (rows out ! 1) ''level'' = Some (Num (fl_mul rp (Fin 0))))"
    using main[THEN conjunct1] by simp
  with a have 1: "cells (rows out ! 1) ''level'' = Some (Num (Fin 0))"
    by (auto simp: notna_def)
  have 2: "filter is_warning out_msgs = []"
    using main[THEN conjunct2, THEN conjunct2] p obs(7) by simp
  show ?thesis by (intro exI[of _ out] exI[of _ out_msgs] conjI conv 1 2)
qed

subsection \<open>The conversion does not raise on numeric columns\<close>

lemma numeric_loc:
  assumes "numeric_at c r"
  obtains x where "loc r c = Inr (Num x)" and "num (Num x) = Inr x"
  using assms by (auto simp: numeric_at_def loc_def num_def)

lemma forward_step_total:
  assumes "\<forall>(i, r) \<in> set A. numeric_at gc r"
  shows "\<exists>s'. forward_step A gc ys i s = Inr s'"
proof (cases "year_rows A (ys ! i)")
  case Nil
  then show ?thesis by (simp add: forward_step_def)
next
  case (Cons a rest)
  obtain idx r where a: "a = (idx, r)" by (cases a)
  with Cons have "(idx, r) \<in> set A" using year_rows_mem[of A "ys ! i" idx r rest] by simp
  with assms have "numeric_at gc r" by auto
  then obtain x where "loc r gc = Inr (Num x)" "num (Num x) = Inr x" by (rule numeric_loc)
  with Cons a show ?thesis
    by (cases "annual_real_gdp s (ys ! (i - 1))") (simp_all add: forward_step_def Let_def)
qed

lemma backward_step_total:
  assumes "\<forall>(i, r) \<in> set A. numeric_at gc r"
  shows "\<exists>s'. backward_step A gc ys i s = Inr s'"
proof (cases "year_rows A (ys ! i)")
  case Nil
  then show ?thesis by (simp add: backward_step_def)
next
  case c1: (Cons a rest)
  show ?thesis
  proof (cases "year_rows A (ys ! (i + 1))")
    case Nil
    with c1 show ?thesis by (simp add: backward_step_def split: prod.splits)
  next
    case c2: (Cons a' rest')
    obtain idx r where a: "a = (idx, r)" by (cases a)
    obtain idx' r' where a': "a' = (idx', r')" by (cases a')
    from c2 a' have "(idx', r') \<in> set A"
      using year_rows_mem[of A "ys ! (i + 1)" idx' r' rest'] by simp
    with assms have "numeric_at gc r'" by auto
    then obtain x where "loc r' gc = Inr (Num x)" "num (Num x) = Inr x" by (rule numeric_loc)
    with c1 c2 a a' show ?thesis
      by (cases "annual_real_gdp s (ys ! (i + 1))") (simp_all add: backward_step_def Let_def)
  qed
qed

lemma pick_base_year_total:
  assumes "A \<noteq> []"
  obtains b w where "pick_base_year A by0 = Inr (b, w)" and "year_rows A b \<noteq> []"
    and "year_rows A by0 \<noteq> [] \<longrightarrow> b = by0 \<and> w = []"
    and "year_rows A by0 = [] \<longrightarrow> b = year (date (snd (A ! (length A div 2)))) \<and>
           w = [Warn_base_year_not_found by0, Ok_using_base_year b]"
proof (cases "year_rows A by0 = []")
  case True
  let ?k = "length A div 2"
  let ?b = "year (date (snd (A ! ?k)))"
  have k: "?k < length A" using assms by (simp add: div_less_dividend)
  then have "A ! ?k \<in> set A" by simp
  then have "year_rows A ?b \<noteq> []"
    unfolding year_rows_def filter_empty_conv by (auto simp: case_prod_unfold)
  moreover have "pick_base_year A by0 = Inr (?b, [Warn_base_year_not_found by0, Ok_using_base_year ?b])"
    using True k by (simp add: pick_base_year_def Let_def)
  ultimately show ?thesis using True that by blast
next
  case False
  then have "pick_base_year A by0 = Inr (by0, [])" by (simp add: pick_base_year_def)
  with False show ?thesis using that by blast
qed

lemma chain_link_total:
  assumes rows: "df \<noteq> []" and numv: "\<forall>r \<in> set df. numeric_at vc r"
    and numg: "\<forall>r \<in> set df. numeric_at gc r"
  shows "\<exists>s A b msgs. chain_link df vc gc by0 = Inr (s, A, b, msgs)"
proof -
  obtain A w1 where an: "annual_of df = (A, w1)" by (cases "annual_of df")
  have sub: "r \<in> set df" if "(i, r) \<in> set A" for i r
    using annual_of_mem[of i r df] that an by auto
  have ne: "A \<noteq> []"
    using an rows by (auto simp: annual_of_def Let_def enumerate_eq_zip split: if_splits)
  from ne obtain b w2 where pb: "pick_base_year A by0 = Inr (b, w2)" and yb: "year_rows A b \<noteq> []"
    by (rule pick_base_year_total)
  from yb obtain base_idx base_row rest where yr: "year_rows A b = (base_idx, base_row) # rest"
    by (cases "year_rows A b") auto
  from year_rows_mem[OF yr] sub numv have "numeric_at vc base_row" by blast
  then obtain L where L: "loc base_row vc = Inr (Num L)" "num (Num L) = Inr L"
    by (rule numeric_loc)
  have numA: "\<forall>(i, r) \<in> set A. numeric_at gc r" using sub numg by blast
  let ?ys = "available_years A"
  let ?s0 = "\<lparr>annual_real_gdp = [b \<mapsto> L],
        real_column = (replicate (length df) NaN)[base_idx := L]\<rparr>"
  obtain s1 where fwd: "for_loop (forward_step A gc ?ys)
      [Suc (index_of ?ys b) ..< length ?ys] ?s0 = Inr s1"
    using for_loop_total[of _ "forward_step A gc ?ys" ?s0] forward_step_total[OF numA] by blast
  obtain s2 where bwd: "for_loop (backward_step A gc ?ys) (rev [0 ..< index_of ?ys b]) s1 = Inr s2"
    using for_loop_total[of _ "backward_step A gc ?ys" s1] backward_step_total[OF numA] by blast
  show ?thesis
    using an pb yr L fwd bwd by (simp add: chain_link_def Let_def)
qed


lemma loc_numeric:
  assumes "numeric_at c r"
  shows "loc r c = Inr (Num (cell_num r c))"
  using assms by (auto simp: numeric_at_def loc_def cell_num_def)

lemma num_Num [simp]: "num (Num x) = Inr x"
  by (simp add: num_def)

lemma numeric_set_cell:
  assumes "numeric_at c r"
  shows "numeric_at c (set_cell r c' (Num v))"
  using assms by (auto simp: numeric_at_def set_cell_def)

lemma numeric_add_helper_columns:
  assumes "numeric_at c r"
  shows "numeric_at c (add_helper_columns vc r)"
  unfolding add_helper_columns_def by (intro numeric_set_cell assms)

lemma fill_step_total:
  assumes idx: "idx < length snap"
    and snap: "\<forall>r \<in> set snap. numeric_at vc r \<and> numeric_at gc r"
    and A: "\<forall>(i, r) \<in> set A. numeric_at vc r"
  shows "\<exists>rc'. fill_step snap A vc gc m idx rc = Inr rc'"
proof -
  let ?r = "snap ! idx"
  from idx snap have r: "numeric_at vc ?r" "numeric_at gc ?r" by auto
  have nominal: "\<exists>q. (case year_rows A y of
                    [] \<Rightarrow> Inr (Fin 1)
                  | (year_idx, ry) # _ \<Rightarrow>
                      bind_err (loc ?r vc) (\<lambda>a. bind_err (loc ry vc) (\<lambda>b.
                      bind_err (num a) (\<lambda>a'. bind_err (num b) (\<lambda>b'. Inr (fl_div a' b')))))) = Inr q"
    for y
  proof (cases "year_rows A y")
    case Nil
    then show ?thesis by simp
  next
    case (Cons a rest)
    obtain i ry where a: "a = (i, ry)" by (cases a)
    with Cons A have "numeric_at vc ry" using year_rows_mem[of A y i ry rest] by auto
    with Cons a r(1) show ?thesis by (simp add: loc_numeric)
  qed
  show ?thesis
  proof (cases "notna (rc ! idx)")
    case True
    then show ?thesis by (simp add: fill_step_def)
  next
    case False
    from nominal[of "year (date ?r)"] obtain q where q: "(case year_rows A (year (date ?r)) of
                    [] \<Rightarrow> Inr (Fin 1)
                  | (year_idx, ry) # _ \<Rightarrow>
                      bind_err (loc ?r vc) (\<lambda>a. bind_err (loc ry vc) (\<lambda>b.
                      bind_err (num a) (\<lambda>a'. bind_err (num b) (\<lambda>b'. Inr (fl_div a' b')))))) = Inr q"
      by blast
    show ?thesis
      unfolding fill_step_def Let_def
      by (simp add: False loc_numeric[OF r(2)] q split: option.splits)
  qed
qed

lemma set_prepare_rows: "set (prepare_rows df vc) = add_helper_columns vc ` set (rows df)"
  by (simp add: prepare_rows_eq)

lemma convert_total:
  assumes ne: "rows df \<noteq> []"
    and numeric: "\<forall>r \<in> set (rows df). numeric_at vc r \<and> numeric_at gc r"
  shows "\<exists>out msgs. convert_gdp_to_real df vc gc by0 = Inr (out, msgs)"
proof -
  let ?P = "prepare_rows df vc"
  have P: "\<forall>r \<in> set ?P. numeric_at vc r \<and> numeric_at gc r"
    using numeric by (auto simp: set_prepare_rows intro: numeric_add_helper_columns)
  have "?P \<noteq> []" using ne length_prepare_rows[of df vc] by auto
  from chain_link_total[OF this, of vc gc by0] P
  obtain s A b m where c: "chain_link ?P vc gc by0 = Inr (s, A, b, m)" by blast
  let ?snap = "map2 (\<lambda>r v. set_cell r (real_gdp_col vc) (Num v)) ?P (real_column s)"
  have len: "length ?snap = length ?P" using chain_link_length[OF c] by simp
  have snap: "\<forall>r \<in> set ?snap. numeric_at vc r \<and> numeric_at gc r"
  proof
    fix r assume "r \<in> set ?snap"
    then obtain r0 v where "r0 \<in> set ?P" "r = set_cell r0 (real_gdp_col vc) (Num v)"
      by (auto dest: set_zip_leftD)
    with P show "numeric_at vc r \<and> numeric_at gc r" by (auto intro: numeric_set_cell)
  qed
  have A: "\<forall>(i, r) \<in> set A. numeric_at vc r"
    using chain_link_annual[OF c] annual_of_mem[of _ _ ?P] P by fastforce
  have "\<exists>real1. for_loop (fill_step ?snap A vc gc (annual_real_gdp s)) [0 ..< length ?P]
                  (real_column s) = Inr real1"
  proof (rule for_loop_total)
    fix j t assume "j \<in> set [0 ..< length ?P]"
    then have "j < length ?snap" using len by simp
    from fill_step_total[OF this snap A]
    show "\<exists>t'. fill_step ?snap A vc gc (annual_real_gdp s) j t = Inr t'" by blast
  qed
  then obtain real1 where f: "for_loop (fill_step ?snap A vc gc (annual_real_gdp s))
      [0 ..< length ?P] (real_column s) = Inr real1" by blast
  show ?thesis using c f by (simp add: convert_gdp_to_real_def Let_def)
qed


subsection \<open>The middle year\<close>

lemma map_snd_filter_enumerate:
  "map snd (filter (\<lambda>(i, r). Q r) (enumerate n xs)) = filter Q xs"
  by (induction xs arbitrary: n) auto

lemma sorted_map_mono:
  assumes "sorted (map f xs)" and "\<And>x y. f x \<le> f y \<Longrightarrow> g x \<le> g y"
  shows "sorted (map g xs)"
  using assms by (induction xs) auto

lemma date_key_year_mono:
  assumes "date_key (date r) \<le> date_key (date r')"
  shows "year (date r) \<le> year (date r')"
  using assms by (auto simp: date_key_def less_eq_prod_def)

lemma year_end_years_prepared:
  "map (\<lambda>r. year (date r)) (filter (\<lambda>r. month (date r) = 12) (prepare_rows df vc))
     = sort (year_end_years df)"
proof -
  let ?k = "\<lambda>r. date_key (date r)"
  let ?Q = "\<lambda>r. month (date r) = 12"
  let ?S = "sort_key ?k (rows df)"
  have 1: "map (\<lambda>r. year (date r)) (filter ?Q (prepare_rows df vc))
             = map (\<lambda>r. year (date r)) (filter ?Q ?S)"
    by (simp add: prepare_rows_eq filter_map comp_def cells_add_helper_columns)
  have "sorted (map ?k (filter ?Q ?S))" by (intro sorted_filter) simp
  then have 2: "sorted (map (\<lambda>r. year (date r)) (filter ?Q ?S))"
    by (rule sorted_map_mono) (rule date_key_year_mono)
  have 3: "mset (map (\<lambda>r. year (date r)) (filter ?Q ?S)) = mset (year_end_years df)"
    by (simp add: year_end_years_def)
  from properties_for_sort[OF 3 2] 1 show ?thesis by simp
qed

lemma length_filter_sort:
  "length (filter Q (sort xs)) = length (filter Q xs)"
proof -
  have "size (mset (filter Q (sort xs))) = size (mset (filter Q xs))" by simp
  then show ?thesis by (simp only: size_mset)
qed

lemma middle_of_sorted_is_median:
  fixes xs :: "int list"
  assumes "sorted xs" and "xs \<noteq> []"
  shows "2 * length (filter (\<lambda>y. y < xs ! (length xs div 2)) xs) \<le> length xs"
    and "2 * length (filter (\<lambda>y. xs ! (length xs div 2) < y) xs) \<le> length xs"
proof -
  let ?n = "length xs" let ?k = "length xs div 2" let ?m = "xs ! (length xs div 2)"
  have k: "?k < ?n" using assms(2) by (simp add: div_less_dividend)
  have hi: "?m \<le> y" if "y \<in> set (drop ?k xs)" for y
  proof -
    from that obtain j where "j < length (drop ?k xs)" "y = drop ?k xs ! j"
      by (auto simp: in_set_conv_nth)
    then have "?k + j < ?n" "y = xs ! (?k + j)" by simp_all
    with assms(1) show ?thesis by (simp add: sorted_nth_mono)
  qed
  have lo: "y \<le> ?m" if "y \<in> set (take (Suc ?k) xs)" for y
  proof -
    from that obtain i where "i < Suc ?k" "i < ?n" "y = xs ! i"
      by (auto simp: in_set_conv_nth)
    with assms(1) k show ?thesis by (simp add: sorted_nth_mono)
  qed
  have "filter (\<lambda>y. y < ?m) xs = filter (\<lambda>y. y < ?m) (take ?k xs) @ filter (\<lambda>y. y < ?m) (drop ?k xs)"
    by (metis append_take_drop_id filter_append)
  moreover have "filter (\<lambda>y. y < ?m) (drop ?k xs) = []"
    using hi by (fastforce simp: filter_empty_conv)
  ultimately have "length (filter (\<lambda>y. y < ?m) xs) \<le> length (take ?k xs)"
    by (simp del: length_take)
  then show "2 * length (filter (\<lambda>y. y < ?m) xs) \<le> ?n" by simp
  have "filter (\<lambda>y. ?m < y) xs
          = filter (\<lambda>y. ?m < y) (take (Suc ?k) xs) @ filter (\<lambda>y. ?m < y) (drop (Suc ?k) xs)"
    by (metis append_take_drop_id filter_append)
  moreover have "filter (\<lambda>y. ?m < y) (take (Suc ?k) xs) = []"
    using lo by (fastforce simp: filter_empty_conv)
  ultimately have "length (filter (\<lambda>y. ?m < y) xs) \<le> length (drop (Suc ?k) xs)"
    by (simp del: length_drop)
  then show "2 * length (filter (\<lambda>y. ?m < y) xs) \<le> ?n" by simp
qed


text \<open>
  C8. A frame has year-end records, none of them for the configured base year, and
  numbers in the value and growth columns. Then the conversion does not fail, its only
  warning is the one about the base year, it announces the year it uses instead, and
  that year is the median year of the year-end records: the entry in the middle
  (position \<open>n div 2\<close>, the upper of the two middle ones when \<open>n\<close> is even) of their sorted
  years. It is the year of one of the records, and at most half of the records are
  earlier and at most half are later. Real equals nominal at that year's year-end
  record: its nominal value is the dictionary's entry for the year, it is written to
  the helper column at the record's row (line 305), and, when it is not NaN and the value
  column is not called \<^verbatim>\<open>year\<close>, it is the value of that row in the output.
\<close>

theorem missing_base_year_is_replaced_by_median_year:
  assumes ye: "year_end_years df \<noteq> []"
    and nobase: "base_year \<notin> set (year_end_years df)"
    and numeric: "\<forall>r \<in> set (rows df). numeric_at value_col r \<and> numeric_at growth_col r"
  shows "\<exists>out msgs s annual_df anchor cmsgs.
      convert_gdp_to_real df value_col growth_col base_year = Inr (out, msgs) \<and>
      chain_link (prepare_rows df value_col) value_col growth_col base_year
        = Inr (s, annual_df, anchor, cmsgs) \<and>
      anchor = sort (year_end_years df) ! (length (year_end_years df) div 2) \<and>
      anchor \<in> set (year_end_years df) \<and>
      2 * length (filter (\<lambda>y. y < anchor) (year_end_years df)) \<le> length (year_end_years df) \<and>
      2 * length (filter (\<lambda>y. anchor < y) (year_end_years df)) \<le> length (year_end_years df) \<and>
      (\<exists>idx r rest L. year_rows annual_df anchor = (idx, r) # rest \<and> month (date r) = 12 \<and>
          cells r value_col = Some (Num L) \<and> annual_real_gdp s anchor = Some L \<and>
          idx < length (rows df) \<and> real_column s ! idx = L \<and>
          date (rows out ! idx) = date r \<and>
          (value_col \<noteq> ''year'' \<and> notna L \<longrightarrow>
             cells (rows out ! idx) value_col = Some (Num L))) \<and>
      filter is_warning msgs = [Warn_base_year_not_found base_year] \<and>
      Ok_using_base_year anchor \<in> set msgs"
proof -
  let ?P = "prepare_rows df value_col"
  let ?Q = "\<lambda>r. month (date r) = 12"
  let ?yey = "year_end_years df"
  let ?n = "length ?yey"
  let ?k = "?n div 2"
  let ?D = "filter (\<lambda>(i, r). ?Q r) (enumerate 0 ?P)"
  have years: "map (\<lambda>r. year (date r)) (filter ?Q ?P) = sort ?yey"
    by (rule year_end_years_prepared)
  have rows_ne: "rows df \<noteq> []" using ye by (auto simp: year_end_years_def)
  from convert_total[OF rows_ne numeric, of base_year] obtain out msgs
    where conv: "convert_gdp_to_real df value_col growth_col base_year = Inr (out, msgs)" by blast
  from conv obtain s A b m real1 real2 where
    chain: "chain_link ?P value_col growth_col base_year = Inr (s, A, b, m)"
    and msgs: "msgs = m @ [Ok_done (length (filter notna real2)) (length (rows df))]"
    by (rule convert_unfold)
  from chain obtain w1 w2 base_idx base_row rest L where
    an: "annual_of ?P = (A, w1)"
    and pb: "pick_base_year A base_year = Inr (b, w2)"
    and yr: "year_rows A b = (base_idx, base_row) # rest"
    and L: "cells base_row value_col = Some (Num L)"
    and m: "m = [Section_real_gdp base_year] @ w1 @ w2 @ [Ok_base_nominal b L]"
    by (rule chain_link_unfold)
  have sndD: "map snd ?D = filter ?Q ?P" by (rule map_snd_filter_enumerate)
  have lenD: "length ?D = ?n"
  proof -
    have "length (map snd ?D) = length (map (\<lambda>r. year (date r)) (filter ?Q ?P))"
      by (simp only: sndD length_map)
    then show ?thesis by (simp add: years)
  qed
  with ye have Dne: "?D \<noteq> []" by auto
  with an have A: "A = ?D" and w1: "w1 = []" by (simp_all add: annual_of_def Let_def)
  have yearsA: "map (\<lambda>(i, r). year (date r)) A = sort ?yey"
  proof -
    have "map (\<lambda>(i, r). year (date r)) A = map (\<lambda>r. year (date r)) (map snd A)"
      by (simp add: case_prod_unfold comp_def)
    then show ?thesis by (simp only: A sndD years)
  qed
  have nob: "year_rows A base_year = []"
  proof (rule ccontr)
    assume "year_rows A base_year \<noteq> []"
    then have "base_year \<in> set (available_years A)" by (simp add: year_rows_nonempty_iff)
    then have "base_year \<in> set (map (\<lambda>(i, r). year (date r)) A)"
      by (simp add: set_available_years)
    with nobase show False by (simp only: yearsA) simp
  qed
  have k: "?k < ?n" using ye by (simp add: div_less_dividend)
  have lenA: "length A = ?n" using lenD A by simp
  from pb nob k lenA have b: "b = year (date (snd (A ! ?k)))"
    and w2: "w2 = [Warn_base_year_not_found base_year, Ok_using_base_year b]"
    by (auto simp: pick_base_year_def Let_def split: if_splits)
  have "year (date (snd (A ! ?k))) = map (\<lambda>(i, r). year (date r)) A ! ?k"
    using k lenA by (simp add: case_prod_unfold)
  with b have anchor: "b = sort ?yey ! ?k" by (simp only: yearsA)
  have mem: "b \<in> set ?yey"
  proof -
    have "sort ?yey ! ?k \<in> set (sort ?yey)" using k by (intro nth_mem) simp
    then show ?thesis by (simp add: anchor)
  qed
  have ne: "sort ?yey \<noteq> []"
  proof
    assume "sort ?yey = []"
    then have "length (sort ?yey) = 0" by simp
    with ye show False by simp
  qed
  from middle_of_sorted_is_median[OF sorted_sort ne]
  have lo: "2 * length (filter (\<lambda>y. y < b) ?yey) \<le> ?n"
    and hi: "2 * length (filter (\<lambda>y. b < y) ?yey) \<le> ?n"
    by (simp_all add: anchor length_filter_sort)
  have dec: "month (date base_row) = 12"
    using year_rows_mem[OF yr] by (auto simp: A)
  from chain_link_anchor[OF chain yr] L
  have dict: "annual_real_gdp s b = Some L" and col: "real_column s ! base_idx = L" by simp_all
  have inP: "base_idx < length ?P \<and> ?P ! base_idx = base_row"
    using year_rows_mem[OF yr] annual_of_mem[of base_idx base_row ?P] an by simp
  then have lt: "base_idx < length (rows df)" by (simp add: length_prepare_rows)
  from conv obtain real2 where
    dates: "\<forall>i < length (rows df).
           date (rows out ! i) = date (sort_key (\<lambda>r. date_key (date r)) (rows df) ! i)"
    and cells: "\<forall>i c. i < length (rows df) \<longrightarrow>
           cells (rows out ! i) c =
             (if c = real_gdp_col value_col \<or> c = ''year'' then None
              else if c = value_col then Some (Num (real2 ! i))
              else cells (sort_key (\<lambda>r. date_key (date r)) (rows df) ! i) c)"
    and resolved: "\<forall>s A b m i. chain_link ?P value_col growth_col base_year = Inr (s, A, b, m) \<and>
           i < length (rows df) \<and> notna (real_column s ! i) \<longrightarrow> real2 ! i = real_column s ! i"
    by (rule convert_output_row)
  have odate: "date (rows out ! base_idx) = date base_row"
  proof -
    have "date (?P ! base_idx) = date (sort_key (\<lambda>r. date_key (date r)) (rows df) ! base_idx)"
      using lt by (simp add: prepare_rows_eq cells_add_helper_columns)
    with dates lt inP show ?thesis by simp
  qed
  have ocell: "value_col \<noteq> ''year'' \<and> notna L \<longrightarrow>
                 cells (rows out ! base_idx) value_col = Some (Num L)"
  proof
    assume h: "value_col \<noteq> ''year'' \<and> notna L"
    from h col have "notna (real_column s ! base_idx)" by simp
    with resolved[rule_format, of s A b m base_idx] chain lt col
    have "real2 ! base_idx = L" by simp
    moreover have "value_col \<noteq> real_gdp_col value_col"
      using real_gdp_col_neq[of value_col] by simp
    ultimately show "cells (rows out ! base_idx) value_col = Some (Num L)"
      using cells lt h by simp
  qed
  have anchored: "\<exists>idx r rest L. year_rows A b = (idx, r) # rest \<and> month (date r) = 12 \<and>
          cells r value_col = Some (Num L) \<and> annual_real_gdp s b = Some L \<and>
          idx < length (rows df) \<and> real_column s ! idx = L \<and>
          date (rows out ! idx) = date r \<and>
          (value_col \<noteq> ''year'' \<and> notna L \<longrightarrow>
             cells (rows out ! idx) value_col = Some (Num L))"
    by (intro exI[of _ base_idx] exI[of _ base_row] exI[of _ rest] exI[of _ L]
          conjI yr dec L dict lt col odate ocell)
  have warn: "filter is_warning msgs = [Warn_base_year_not_found base_year]"
    by (simp add: msgs m w1 w2)
  have ok: "Ok_using_base_year b \<in> set msgs" by (simp add: msgs m w2)
  show ?thesis
    by (intro exI[of _ out] exI[of _ msgs] exI[of _ s] exI[of _ A] exI[of _ b] exI[of _ m]
          conjI conv chain anchor mem lo hi anchored warn ok)
qed


lemma sorted_gap_rows:
  "sort_key (\<lambda>r. date_key (date r)) gap_rows = gap_rows"
  by (simp add: gap_rows_def year_end_row_def date_key_def)

lemma prepared_gap_rows:
  "prepare_rows (level_growth_frame gap_rows) ''level'' = map (add_helper_columns ''level'') gap_rows"
  unfolding prepare_rows_eq by (simp add: level_growth_frame_def sorted_gap_rows)

lemma annual_prepared_gap_rows:
  "fst (annual_of (prepare_rows (level_growth_frame gap_rows) ''level'')) =
     [(0, add_helper_columns ''level'' (year_end_row 2012 800 2)),
      (1, add_helper_columns ''level'' (year_end_row 2015 1000 4)),
      (2, add_helper_columns ''level'' (year_end_row 2018 1300 5))]"
proof -
  have d: "month (date (add_helper_columns ''level'' (year_end_row y l g))) = 12" for y l g
    by (simp add: add_helper_columns_def set_cell_def year_end_row_def)
  show ?thesis
    unfolding prepared_gap_rows unfolding gap_rows_def
    by (simp add: annual_of_def d numeral_2_eq_2)
qed

lemma anchor_prepared_gap_rows:
  "year_rows (fst (annual_of (prepare_rows (level_growth_frame gap_rows) ''level''))) 2015
     = [(1, add_helper_columns ''level'' (year_end_row 2015 1000 4))]"
proof -
  have d: "year (date (add_helper_columns ''level'' (year_end_row y l g))) = y" for y l g
    by (simp add: add_helper_columns_def set_cell_def year_end_row_def)
  show ?thesis
    unfolding annual_prepared_gap_rows by (simp add: year_rows_def d)
qed

theorem missing_base_year_is_replaced_by_median_year_witness:
  "\<exists>out msgs s annual_df cmsgs.
     convert_gdp_to_real (level_growth_frame gap_rows) ''level'' ''growth'' 2020 = Inr (out, msgs) \<and>
     chain_link (prepare_rows (level_growth_frame gap_rows) ''level'') ''level'' ''growth'' 2020
       = Inr (s, annual_df, 2015, cmsgs) \<and>
     filter is_warning msgs = [Warn_base_year_not_found 2020] \<and>
     Ok_using_base_year 2015 \<in> set msgs \<and>
     annual_real_gdp s 2015 = Some (Fin 1000) \<and>
     real_column s ! 1 = Fin 1000 \<and>
     date (rows out ! 1) = \<lparr>year = 2015, month = 12, day = 31\<rparr> \<and>
     cells (rows out ! 1) ''level'' = Some (Num (Fin 1000))"
proof -
  let ?df = "level_growth_frame gap_rows"
  let ?h = "add_helper_columns ''level''"
  have yey: "year_end_years ?df = [2012, 2015, 2018]"
    by (simp add: year_end_years_def level_growth_frame_def gap_rows_def year_end_row_def)
  have h1: "year_end_years ?df \<noteq> []" and h2: "2020 \<notin> set (year_end_years ?df)"
    by (simp_all add: yey)
  have h3: "\<forall>r \<in> set (rows ?df). numeric_at ''level'' r \<and> numeric_at ''growth'' r"
    by (simp add: numeric_at_def level_growth_frame_def gap_rows_def year_end_row_def)
  from missing_base_year_is_replaced_by_median_year[OF h1 h2 h3]
  obtain out msgs s A anchor cmsgs idx r rest L where
    conv: "convert_gdp_to_real ?df ''level'' ''growth'' 2020 = Inr (out, msgs)"
    and chain: "chain_link (prepare_rows ?df ''level'') ''level'' ''growth'' 2020
                  = Inr (s, A, anchor, cmsgs)"
    and anchor: "anchor = sort (year_end_years ?df) ! (length (year_end_years ?df) div 2)"
    and yr: "year_rows A anchor = (idx, r) # rest"
    and L: "cells r ''level'' = Some (Num L)"
    and dict: "annual_real_gdp s anchor = Some L"
    and col: "real_column s ! idx = L"
    and odate: "date (rows out ! idx) = date r"
    and ocell: "''level'' \<noteq> ''year'' \<and> notna L \<longrightarrow> cells (rows out ! idx) ''level'' = Some (Num L)"
    and warn: "filter is_warning msgs = [Warn_base_year_not_found 2020]"
    and ok: "Ok_using_base_year anchor \<in> set msgs"
    by (elim exE conjE) (rule that)
  have a: "anchor = 2015" by (simp add: anchor yey)
  have A: "A = fst (annual_of (prepare_rows ?df ''level''))" by (rule chain_link_annual[OF chain])
  from yr have "(idx, r) # rest = [(1, ?h (year_end_row 2015 1000 4))]"
    unfolding A a anchor_prepared_gap_rows by simp
  then have idx: "idx = 1" and r: "r = ?h (year_end_row 2015 1000 4)" by simp_all
  have "cells (?h (year_end_row 2015 1000 4)) ''level'' = Some (Num (Fin 1000))"
    by (simp add: year_end_row_def add_helper_columns_def set_cell_def real_gdp_col_def
          real_suffix_def)
  with L have Lv: "L = Fin 1000" unfolding r by simp
  have dr: "date (?h (year_end_row 2015 1000 4)) = \<lparr>year = 2015, month = 12, day = 31\<rparr>"
    by (simp add: year_end_row_def add_helper_columns_def set_cell_def)
  have 1: "chain_link (prepare_rows ?df ''level'') ''level'' ''growth'' 2020 = Inr (s, A, 2015, cmsgs)"
    using chain a by simp
  have 2: "Ok_using_base_year 2015 \<in> set msgs" using ok a by simp
  have 3: "annual_real_gdp s 2015 = Some (Fin 1000)" using dict a Lv by simp
  have 4: "real_column s ! 1 = Fin 1000" using col idx Lv by simp
  have 5: "date (rows out ! 1) = \<lparr>year = 2015, month = 12, day = 31\<rparr>"
    using odate idx dr by (simp add: r)
  have 6: "cells (rows out ! 1) ''level'' = Some (Num (Fin 1000))"
    using ocell idx Lv by (simp add: notna_def)
  show ?thesis
    by (intro exI[of _ out] exI[of _ msgs] exI[of _ s] exI[of _ A] exI[of _ cmsgs]
          conjI conv 1 warn 2 3 4 5 6)
qed

section \<open>Claims about the detected frequency\<close>

text \<open>
  C3 includes the endpoints 50 and 120 in the quarterly range. Line 122 compares
  strictly (\<^verbatim>\<open>date_diff > 50 and date_diff < 120\<close>): a median gap of exactly 50 or 120
  days falls to the last branch, is announced as monthly and is not converted.
\<close>

theorem gap_of_50_or_120_days_is_not_quarterly_counterexample:
  "date_diff gap_50_frame = Fin 50 \<and>
   fst (resample (date_diff gap_50_frame) gap_50_frame) = Monthly \<and>
   fst (process_file (data_dir gap_50_frame) ''rate.csv'' monthly_suffix) = False \<and>
   date_diff gap_120_frame = Fin 120 \<and>
   fst (resample (date_diff gap_120_frame) gap_120_frame) = Monthly \<and>
   fst (process_file (data_dir gap_120_frame) ''rate.csv'' monthly_suffix) = False"
  by code_simp

text \<open>
  C3, as the code has it: a series whose median gap \<open>g\<close> has \<open>50 < g < 120\<close> is announced
  as quarterly, \<^verbatim>\<open>_interpolate_quarterly_to_monthly\<close> is applied to it (after the
  conversion to real values, for a GDP file), and the result is saved as the monthly
  file when it can be written.
\<close>

theorem quarterly_when_gap_strictly_between_50_and_120:
  assumes "files e filename = Some (Table df)"
    and "date_diff df = Fin g" and "50 < g" and "g < 120"
    and "convert_if_gdp filename df = Inr df'"
  shows "resample (date_diff df) df' = (Quarterly, Some (interpolate_quarterly_to_monthly df')) \<and>
         process_file e filename output_suffix =
           (if writable e (str_replace filename standard_suffix (output_suffix @ ''.csv''))
            then (True, Some Quarterly,
                  e\<lparr>files := (files e)(str_replace filename standard_suffix (output_suffix @ ''.csv'')
                                   \<mapsto> Table (interpolate_quarterly_to_monthly df'))\<rparr>)
            else (False, Some Quarterly, e))"
  using assms by (simp add: process_file_def resample_def Let_def)

lemma scenario_a_observed:
  "date_diff scenario_a = Fin 91"
  "column_values (interpolate_quarterly_to_monthly scenario_a) ''rate''
     = [Fin 100, Fin (310 / 3), Fin (320 / 3), Fin 110]"
  by code_simp+

theorem quarterly_when_gap_strictly_between_50_and_120_witness:
  "fst (process_file (data_dir scenario_a) ''rate.csv'' monthly_suffix) = True \<and>
   fst (snd (process_file (data_dir scenario_a) ''rate.csv'' monthly_suffix)) = Some Quarterly \<and>
   resample (date_diff scenario_a) scenario_a
     = (Quarterly, Some (interpolate_quarterly_to_monthly scenario_a)) \<and>
   column_values (interpolate_quarterly_to_monthly scenario_a) ''rate''
     = [Fin 100, Fin (310 / 3), Fin (320 / 3), Fin 110]"
proof -
  have 1: "files (data_dir scenario_a) ''rate.csv'' = Some (Table scenario_a)"
    by (simp add: data_dir_def)
  have 2: "convert_if_gdp ''rate.csv'' scenario_a = Inr scenario_a"
    by (simp add: convert_if_gdp_def)
  have 3: "50 < (91::real)" "(91::real) < 120" by simp_all
  have 4: "writable (data_dir scenario_a) name" for name by (simp add: data_dir_def)
  from quarterly_when_gap_strictly_between_50_and_120[OF 1 scenario_a_observed(1) 3 2,
      of monthly_suffix]
  show ?thesis by (simp add: 4 scenario_a_observed(2))
qed

text \<open>
  C4 says that a monthly series is passed through as the successful monthly output. The
  last branch (lines 134-137) returns False without writing anything: the file is not
  counted as converted, and the data directory is as before.
\<close>

lemma monthly_frame_gap: "date_diff monthly_frame = Fin 30"
  by code_simp

theorem monthly_series_is_passed_through_counterexample:
  "date_diff monthly_frame = Fin 30 \<and>
   fst (process_file (data_dir monthly_frame) ''rate.csv'' monthly_suffix) = False \<and>
   fst (snd (process_file (data_dir monthly_frame) ''rate.csv'' monthly_suffix)) = Some Monthly \<and>
   snd (snd (process_file (data_dir monthly_frame) ''rate.csv'' monthly_suffix))
     = data_dir monthly_frame"
proof -
  have 1: "files (data_dir monthly_frame) ''rate.csv'' = Some (Table monthly_frame)"
    by (simp add: data_dir_def)
  have 2: "convert_if_gdp ''rate.csv'' monthly_frame = Inr monthly_frame"
    by (simp add: convert_if_gdp_def)
  show ?thesis
    by (simp add: process_file_def 1 2 monthly_frame_gap resample_def Let_def)
qed

text \<open>
  C4, as the code has it: for a median gap \<open>g\<close> with \<open>10 \<le> g \<le> 50\<close> or
  \<open>120 < g \<le> 300\<close> no resampling is performed, whatever the frame; the series is
  announced as monthly (when the conversion to real values of a GDP file did not raise
  before); \<^verbatim>\<open>process_file\<close> returns False and leaves the data directory unchanged.
\<close>

theorem monthly_series_is_not_converted:
  assumes "files e filename = Some (Table df)"
    and "date_diff df = Fin g"
    and "(10 \<le> g \<and> g \<le> 50) \<or> (120 < g \<and> g \<le> 300)"
  shows "fst (process_file e filename output_suffix) = False \<and>
         snd (snd (process_file e filename output_suffix)) = e \<and>
         (\<forall>df'. resample (date_diff df) df' = (Monthly, None)) \<and>
         (\<forall>df'. convert_if_gdp filename df = Inr df' \<longrightarrow>
                fst (snd (process_file e filename output_suffix)) = Some Monthly)"
proof -
  have r: "resample (Fin g) df' = (Monthly, None)" for df'
    using assms(3) by (auto simp: resample_def)
  show ?thesis
    using assms(1,2) r
    by (cases "convert_if_gdp filename df") (simp_all add: process_file_def Let_def)
qed

theorem monthly_series_is_not_converted_witness:
  "fst (process_file (data_dir monthly_frame) ''rate.csv'' monthly_suffix) = False \<and>
   snd (snd (process_file (data_dir monthly_frame) ''rate.csv'' monthly_suffix))
     = data_dir monthly_frame"
proof -
  have 1: "files (data_dir monthly_frame) ''rate.csv'' = Some (Table monthly_frame)"
    by (simp add: data_dir_def)
  have 3: "(10 \<le> (30::real) \<and> (30::real) \<le> 50) \<or> (120 < (30::real) \<and> (30::real) \<le> 300)"
    by simp
  from monthly_series_is_not_converted[OF 1 monthly_frame_gap 3, of monthly_suffix]
  show ?thesis by simp
qed

section \<open>Claims about the conversions to monthly data\<close>

text \<open>
  C5 says that a calendar month within the range with no observation gives no row.
  \<^verbatim>\<open>resample('MS').mean()\<close> gives a row for every month from the first to the last, and
  nothing in lines 232-245 removes a row: the month is present with NaN. Here the
  series is detected as daily (median gap of one day) and February has no observation.
\<close>

theorem empty_month_gets_a_row_counterexample:
  "fst (resample (date_diff daily_with_gap) daily_with_gap) = Daily \<and>
   map date (rows (aggregate_daily_to_monthly daily_with_gap))
     = [\<lparr>year = 2020, month = 1, day = 1\<rparr>, \<lparr>year = 2020, month = 2, day = 1\<rparr>,
        \<lparr>year = 2020, month = 3, day = 1\<rparr>] \<and>
   cell_values (aggregate_daily_to_monthly daily_with_gap) ''rate''
     = [Some (Num (Fin 2)), Some (Num NaN), Some (Num (Fin 6))]"
  by code_simp

lemma fl_sum_Fin: "foldl fl_add (Fin a) (map Fin vs) = Fin (a + sum_list vs)"
  by (induction vs arbitrary: a) (simp_all add: add.assoc)

lemma fl_mean_Fin:
  assumes "vs \<noteq> []"
  shows "fl_mean (map Fin vs) = Fin (sum_list vs / real (length vs))"
proof -
  have "filter notna (map Fin vs) = map Fin vs"
    by (induction vs) (simp_all add: notna_def)
  with assms show ?thesis by (simp add: fl_mean_def fl_sum_def fl_sum_Fin)
qed

lemma fl_mean_Nil: "fl_mean [] = NaN"
  by (simp add: fl_mean_def)

lemma resample_ms_mean_rows:
  assumes "rows df \<noteq> []"
  shows "rows (resample_ms_mean df) =
           map (\<lambda>k. \<lparr>date = month_start k,
                      cells = (\<lambda>c. if c \<in> fst ` set (numeric_cols df)
                                   then Some (Num (fl_mean (map (\<lambda>r. cell_num r c) (month_rows df k))))
                                   else None)\<rparr>)
               [first_month df .. last_month df]"
proof -
  have "sort_key (\<lambda>r. date_key (date r)) (rows df) \<noteq> []"
    using assms by (metis length_sort length_0_conv)
  then show ?thesis
    unfolding month_rows_def first_month_def last_month_def
    by (simp add: resample_ms_mean_def Let_def)
qed

lemma nth_month:
  assumes "lo \<le> k" and "k \<le> hi"
  shows "nat (k - lo) < length [lo .. hi] \<and> [lo .. hi] ! nat (k - lo) = k"
  using assms by simp

text \<open>
  C5, as the code has it. For a series with at least one row the monthly output has one
  row for every calendar month from the month of the first date to the month of the last
  date, dated at the first day of the month; the value of a numeric column in the row
  of a month is the mean of the month's observations that are not NaN, which for finite
  observations \<open>vs\<close> is \<open>sum vs / length vs\<close>; for a month with no observation the row
  is there and its value is NaN.
\<close>

theorem daily_aggregation_means_and_empty_months:
  assumes "rows df \<noteq> []"
  shows "map date (rows (aggregate_daily_to_monthly df))
           = map month_start [first_month df .. last_month df] \<and>
         (\<forall>k c. first_month df \<le> k \<and> k \<le> last_month df \<and> c \<in> fst ` set (numeric_cols df) \<longrightarrow>
            cells (rows (aggregate_daily_to_monthly df) ! nat (k - first_month df)) c
              = Some (Num (fl_mean (map (\<lambda>r. cell_num r c) (month_rows df k))))) \<and>
         (\<forall>k c vs. first_month df \<le> k \<and> k \<le> last_month df \<and> c \<in> fst ` set (numeric_cols df) \<and>
            map (\<lambda>r. cell_num r c) (month_rows df k) = map Fin vs \<and> vs \<noteq> [] \<longrightarrow>
            cells (rows (aggregate_daily_to_monthly df) ! nat (k - first_month df)) c
              = Some (Num (Fin (sum_list vs / real (length vs))))) \<and>
         (\<forall>k c. first_month df \<le> k \<and> k \<le> last_month df \<and> c \<in> fst ` set (numeric_cols df) \<and>
            month_rows df k = [] \<longrightarrow>
            cells (rows (aggregate_daily_to_monthly df) ! nat (k - first_month df)) c
              = Some (Num NaN))"
proof -
  let ?out = "aggregate_daily_to_monthly df"
  note rows = resample_ms_mean_rows[OF assms]
  have dates: "map date (rows ?out) = map month_start [first_month df .. last_month df]"
    by (simp add: aggregate_daily_to_monthly_def rows comp_def)
  have cell: "cells (rows ?out ! nat (k - first_month df)) c
              = Some (Num (fl_mean (map (\<lambda>r. cell_num r c) (month_rows df k))))"
    if "first_month df \<le> k" "k \<le> last_month df" "c \<in> fst ` set (numeric_cols df)" for k c
    using nth_month[OF that(1,2)] that(3)
    by (simp add: aggregate_daily_to_monthly_def rows)
  have means: "\<forall>k c. first_month df \<le> k \<and> k \<le> last_month df \<and> c \<in> fst ` set (numeric_cols df) \<longrightarrow>
            cells (rows ?out ! nat (k - first_month df)) c
              = Some (Num (fl_mean (map (\<lambda>r. cell_num r c) (month_rows df k))))"
    using cell by blast
  have fin: "\<forall>k c vs. first_month df \<le> k \<and> k \<le> last_month df \<and> c \<in> fst ` set (numeric_cols df) \<and>
            map (\<lambda>r. cell_num r c) (month_rows df k) = map Fin vs \<and> vs \<noteq> [] \<longrightarrow>
            cells (rows ?out ! nat (k - first_month df)) c
              = Some (Num (Fin (sum_list vs / real (length vs))))"
    using cell by (simp add: fl_mean_Fin)
  have empty: "\<forall>k c. first_month df \<le> k \<and> k \<le> last_month df \<and> c \<in> fst ` set (numeric_cols df) \<and>
            month_rows df k = [] \<longrightarrow>
            cells (rows ?out ! nat (k - first_month df)) c = Some (Num NaN)"
    using cell by (simp add: fl_mean_Nil)
  show ?thesis by (rule conjI[OF dates conjI[OF means conjI[OF fin empty]]])
qed


lemma daily_with_gap_observed:
  "first_month daily_with_gap = 24240"
  "last_month daily_with_gap = 24242"
  "length (month_rows daily_with_gap 24241) = 0"
  "map (\<lambda>r. cell_num r ''rate'') (month_rows daily_with_gap 24240) = map Fin [1, 3]"
  by code_simp+

theorem daily_aggregation_means_and_empty_months_witness:
  "map date (rows (aggregate_daily_to_monthly daily_with_gap))
     = map month_start [24240 .. 24242] \<and>
   cells (rows (aggregate_daily_to_monthly daily_with_gap) ! 0) ''rate'' = Some (Num (Fin 2)) \<and>
   cells (rows (aggregate_daily_to_monthly daily_with_gap) ! 1) ''rate'' = Some (Num NaN)"
proof -
  note obs = daily_with_gap_observed
  have ne: "rows daily_with_gap \<noteq> []" by (simp add: daily_with_gap_def rate_frame_def)
  have col: "''rate'' \<in> fst ` set (numeric_cols daily_with_gap)"
    by (simp add: daily_with_gap_def rate_frame_def numeric_cols_def)
  have feb: "month_rows daily_with_gap 24241 = []" using obs(3) by simp
  note main = daily_aggregation_means_and_empty_months[OF ne, unfolded obs(1,2)]
  have 1: "map date (rows (aggregate_daily_to_monthly daily_with_gap))
     = map month_start [24240 .. 24242]"
    using main by (rule conjunct1)
  from main[THEN conjunct2, THEN conjunct2, THEN conjunct1, rule_format,
      of 24240 "''rate''" "[1, 3]"] col obs(4)
  have 2: "cells (rows (aggregate_daily_to_monthly daily_with_gap) ! 0) ''rate''
             = Some (Num (Fin 2))" by simp
  from main[THEN conjunct2, THEN conjunct2, THEN conjunct2, rule_format, of 24241 "''rate''"]
    col feb
  have 3: "cells (rows (aggregate_daily_to_monthly daily_with_gap) ! 1) ''rate''
             = Some (Num NaN)" by simp
  show ?thesis by (intro conjI 1 2 3)
qed

text \<open>
  C6 says that every non-numeric column is dropped under all three strategies. The
  annual repetition copies the whole row (\<^verbatim>\<open>row.copy()\<close>, line 211) and drops only
  \<^verbatim>\<open>year\<close>: a text column stays, with its text in each of the twelve rows. Here the
  series is detected as annual.
\<close>

theorem annual_repetition_keeps_text_columns_counterexample:
  "fst (resample (date_diff annual_with_note) annual_with_note) = Annual \<and>
   columns (repeat_annual_to_monthly annual_with_note)
     = [(''value'', Numeric), (''note'', Object)] \<and>
   cell_values (repeat_annual_to_monthly annual_with_note) ''note''
     = replicate 12 (Some (Txt ''final'')) @ replicate 12 (Some (Txt ''provisional''))"
  by code_simp

lemma resample_ms_mean_columns:
  "columns (resample_ms_mean df) = numeric_cols df \<and>
   (\<forall>r \<in> set (rows (resample_ms_mean df)). \<forall>c. c \<notin> fst ` set (numeric_cols df) \<longrightarrow> cells r c = None)"
  by (auto simp: resample_ms_mean_def Let_def)

lemma interpolate_frame_columns:
  "columns (interpolate_frame df) = columns df \<and>
   (\<forall>r \<in> set (rows (interpolate_frame df)). \<forall>c. c \<notin> fst ` set (columns df) \<longrightarrow>
      (\<exists>r0 \<in> set (rows df). cells r c = cells r0 c))"
  by (auto simp: interpolate_frame_def)

lemma nth_concat_blocks:
  assumes "\<forall>x \<in> set xs. length (f x) = n" and "i < length xs" and "j < n"
  shows "concat (map f xs) ! (n * i + j) = f (xs ! i) ! j"
  using assms
proof (induction xs arbitrary: i)
  case Nil
  then show ?case by simp
next
  case (Cons x xs)
  show ?case
  proof (cases i)
    case 0
    with Cons.prems show ?thesis by (simp add: nth_append)
  next
    case (Suc k)
    with Cons.prems have "concat (map f xs) ! (n * k + j) = f (xs ! k) ! j"
      by (intro Cons.IH) auto
    with Suc Cons.prems show ?thesis by (simp add: nth_append add.assoc)
  qed
qed

lemma repeat_annual_row:
  assumes i: "i < length (rows df)" and j: "j < 12"
  shows "rows (repeat_annual_to_monthly df) ! (12 * i + j)
           = \<lparr>date = \<lparr>year = year (date (rows df ! i)), month = Suc j, day = 1\<rparr>,
              cells = (\<lambda>c. if c \<in> set [''year''] then None else cells (rows df ! i) c)\<rparr>"
proof -
  let ?f = "\<lambda>r. map (\<lambda>m. r\<lparr>date := \<lparr>year = year (date r), month = m, day = 1\<rparr>\<rparr>) [1 ..< 13]"
  have len: "length (concat (map ?f xs)) = 12 * length xs" for xs :: "row list"
    by (induction xs) simp_all
  have blk: "concat (map ?f (rows df)) ! (12 * i + j) = ?f (rows df ! i) ! j"
    using i j by (intro nth_concat_blocks) auto
  have el: "?f (rows df ! i) ! j
               = (rows df ! i)\<lparr>date := \<lparr>year = year (date (rows df ! i)), month = Suc j, day = 1\<rparr>\<rparr>"
    using j by (simp add: nth_map_upt del: upt_Suc)
  have lt: "12 * i + j < length (concat (map ?f (rows df)))"
    using i j len[of "rows df"] by simp
  have "rows (repeat_annual_to_monthly df) ! (12 * i + j)
          = (concat (map ?f (rows df)) ! (12 * i + j))
              \<lparr>cells := (\<lambda>c. if c \<in> set [''year''] then None
                              else cells (concat (map ?f (rows df)) ! (12 * i + j)) c)\<rparr>"
    unfolding repeat_annual_to_monthly_def Let_def drop_columns_def
    using lt by (simp only: nth_map dataframe.simps)
  also have "\<dots> = \<lparr>date = \<lparr>year = year (date (rows df ! i)), month = Suc j, day = 1\<rparr>,
              cells = (\<lambda>c. if c \<in> set [''year''] then None else cells (rows df ! i) c)\<rparr>"
    unfolding blk el by (cases "rows df ! i") (simp cong: if_cong)
  finally show ?thesis .
qed

text \<open>
  C6, as the code has it. After the daily aggregation and after the quarterly
  interpolation the columns are the numeric columns of the input, and a column that is
  not one of them has no cell in any row. After the annual repetition (of a frame with
  a row) the columns are those of the input without \<^verbatim>\<open>year\<close>, numeric or not; there are
  twelve rows for each input row: the rows \<open>12 * i\<close> to \<open>12 * i + 11\<close> of the result are
  made from the input row \<open>i\<close>, row \<open>12 * i + j\<close> is dated the first day of month
  \<open>j + 1\<close> of the year of that record, it has no \<^verbatim>\<open>year\<close> cell, and in every other
  column, text columns included, it has the cell of that record.
\<close>

theorem only_aggregation_and_interpolation_drop_text_columns:
  "columns (aggregate_daily_to_monthly df) = numeric_cols df \<and>
   (\<forall>r \<in> set (rows (aggregate_daily_to_monthly df)).
      \<forall>c. c \<notin> fst ` set (numeric_cols df) \<longrightarrow> cells r c = None) \<and>
   columns (interpolate_quarterly_to_monthly df) = numeric_cols df \<and>
   (\<forall>r \<in> set (rows (interpolate_quarterly_to_monthly df)).
      \<forall>c. c \<notin> fst ` set (numeric_cols df) \<longrightarrow> cells r c = None) \<and>
   (\<forall>(n, d) \<in> set (numeric_cols df). d = Numeric) \<and>
   (rows df \<noteq> [] \<longrightarrow>
      columns (repeat_annual_to_monthly df) = filter (\<lambda>(n, d). n \<noteq> ''year'') (columns df) \<and>
      length (rows (repeat_annual_to_monthly df)) = 12 * length (rows df) \<and>
      (\<forall>r \<in> set (rows (repeat_annual_to_monthly df)).
         \<exists>r0 \<in> set (rows df). \<forall>c. c \<noteq> ''year'' \<longrightarrow> cells r c = cells r0 c) \<and>
      (\<forall>i < length (rows df). \<forall>j < 12.
         date (rows (repeat_annual_to_monthly df) ! (12 * i + j))
           = \<lparr>year = year (date (rows df ! i)), month = j + 1, day = 1\<rparr> \<and>
         cells (rows (repeat_annual_to_monthly df) ! (12 * i + j)) ''year'' = None \<and>
         (\<forall>c. c \<noteq> ''year'' \<longrightarrow>
            cells (rows (repeat_annual_to_monthly df) ! (12 * i + j)) c = cells (rows df ! i) c)))"
proof -
  have d1: "columns (aggregate_daily_to_monthly df) = numeric_cols df"
    and d2: "\<forall>r \<in> set (rows (aggregate_daily_to_monthly df)).
      \<forall>c. c \<notin> fst ` set (numeric_cols df) \<longrightarrow> cells r c = None"
    using resample_ms_mean_columns[of df] by (simp_all add: aggregate_daily_to_monthly_def)
  have q1: "columns (interpolate_quarterly_to_monthly df) = numeric_cols df"
    using resample_ms_mean_columns[of df] interpolate_frame_columns[of "resample_ms_mean df"]
    by (simp add: interpolate_quarterly_to_monthly_def)
  have q2: "\<forall>r \<in> set (rows (interpolate_quarterly_to_monthly df)).
      \<forall>c. c \<notin> fst ` set (numeric_cols df) \<longrightarrow> cells r c = None"
  proof (intro ballI allI impI)
    fix r c
    assume r: "r \<in> set (rows (interpolate_quarterly_to_monthly df))"
      and c: "c \<notin> fst ` set (numeric_cols df)"
    from r c interpolate_frame_columns[of "resample_ms_mean df"] resample_ms_mean_columns[of df]
    obtain r0 where "r0 \<in> set (rows (resample_ms_mean df))" "cells r c = cells r0 c"
      unfolding interpolate_quarterly_to_monthly_def by (metis (no_types, lifting))
    with c resample_ms_mean_columns[of df] show "cells r c = None" by simp
  qed
  have n: "\<forall>(n, d) \<in> set (numeric_cols df). d = Numeric" by (auto simp: numeric_cols_def)
  have a: "rows df \<noteq> [] \<longrightarrow>
      columns (repeat_annual_to_monthly df) = filter (\<lambda>(n, d). n \<noteq> ''year'') (columns df) \<and>
      length (rows (repeat_annual_to_monthly df)) = 12 * length (rows df) \<and>
      (\<forall>r \<in> set (rows (repeat_annual_to_monthly df)).
         \<exists>r0 \<in> set (rows df). \<forall>c. c \<noteq> ''year'' \<longrightarrow> cells r c = cells r0 c) \<and>
      (\<forall>i < length (rows df). \<forall>j < 12.
         date (rows (repeat_annual_to_monthly df) ! (12 * i + j))
           = \<lparr>year = year (date (rows df ! i)), month = j + 1, day = 1\<rparr> \<and>
         cells (rows (repeat_annual_to_monthly df) ! (12 * i + j)) ''year'' = None \<and>
         (\<forall>c. c \<noteq> ''year'' \<longrightarrow>
            cells (rows (repeat_annual_to_monthly df) ! (12 * i + j)) c = cells (rows df ! i) c))"
  proof
    assume ne: "rows df \<noteq> []"
    then obtain r0 rs where rs: "rows df = r0 # rs" by (cases "rows df") auto
    have len: "length (concat (map (\<lambda>r. map (\<lambda>m. r\<lparr>date := \<lparr>year = year (date r), month = m, day = 1\<rparr>\<rparr>)
                                [1 ..< 13]) xs)) = 12 * length xs" for xs :: "row list"
      by (induction xs) simp_all
    have c1: "columns (repeat_annual_to_monthly df) = filter (\<lambda>(n, d). n \<noteq> ''year'') (columns df)"
      by (simp add: repeat_annual_to_monthly_def Let_def drop_columns_def rs upt_rec)
    have c2: "length (rows (repeat_annual_to_monthly df)) = 12 * length (rows df)"
      using len[of "rows df"] by (simp add: repeat_annual_to_monthly_def Let_def drop_columns_def)
    have c3: "\<forall>r \<in> set (rows (repeat_annual_to_monthly df)).
         \<exists>r0 \<in> set (rows df). \<forall>c. c \<noteq> ''year'' \<longrightarrow> cells r c = cells r0 c"
      by (auto simp: repeat_annual_to_monthly_def Let_def drop_columns_def)
    have c4: "\<forall>i < length (rows df). \<forall>j < 12.
         date (rows (repeat_annual_to_monthly df) ! (12 * i + j))
           = \<lparr>year = year (date (rows df ! i)), month = j + 1, day = 1\<rparr> \<and>
         cells (rows (repeat_annual_to_monthly df) ! (12 * i + j)) ''year'' = None \<and>
         (\<forall>c. c \<noteq> ''year'' \<longrightarrow>
            cells (rows (repeat_annual_to_monthly df) ! (12 * i + j)) c = cells (rows df ! i) c)"
      by (simp add: repeat_annual_row)
    show "columns (repeat_annual_to_monthly df) = filter (\<lambda>(n, d). n \<noteq> ''year'') (columns df) \<and>
      length (rows (repeat_annual_to_monthly df)) = 12 * length (rows df) \<and>
      (\<forall>r \<in> set (rows (repeat_annual_to_monthly df)).
         \<exists>r0 \<in> set (rows df). \<forall>c. c \<noteq> ''year'' \<longrightarrow> cells r c = cells r0 c) \<and>
      (\<forall>i < length (rows df). \<forall>j < 12.
         date (rows (repeat_annual_to_monthly df) ! (12 * i + j))
           = \<lparr>year = year (date (rows df ! i)), month = j + 1, day = 1\<rparr> \<and>
         cells (rows (repeat_annual_to_monthly df) ! (12 * i + j)) ''year'' = None \<and>
         (\<forall>c. c \<noteq> ''year'' \<longrightarrow>
            cells (rows (repeat_annual_to_monthly df) ! (12 * i + j)) c = cells (rows df ! i) c))"
      by (intro conjI c1 c2 c3 c4)
  qed
  show ?thesis by (intro conjI d1 d2 q1 q2 n a)
qed

theorem only_aggregation_and_interpolation_drop_text_columns_witness:
  "columns (repeat_annual_to_monthly annual_with_note) = [(''value'', Numeric), (''note'', Object)] \<and>
   length (rows (repeat_annual_to_monthly annual_with_note)) = 24 \<and>
   columns (aggregate_daily_to_monthly annual_with_note) = [(''value'', Numeric)] \<and>
   columns (interpolate_quarterly_to_monthly annual_with_note) = [(''value'', Numeric)] \<and>
   date (rows (repeat_annual_to_monthly annual_with_note) ! 13)
     = \<lparr>year = 2021, month = 2, day = 1\<rparr> \<and>
   cells (rows (repeat_annual_to_monthly annual_with_note) ! 13) ''note''
     = Some (Txt ''provisional'') \<and>
   cells (rows (repeat_annual_to_monthly annual_with_note) ! 13) ''value''
     = Some (Num (Fin 500)) \<and>
   cells (rows (repeat_annual_to_monthly annual_with_note) ! 11) ''note''
     = Some (Txt ''final'')"
proof -
  note main = only_aggregation_and_interpolation_drop_text_columns[of annual_with_note]
  have ne: "rows annual_with_note \<noteq> []" by (simp add: annual_with_note_def)
  have nc: "numeric_cols annual_with_note = [(''value'', Numeric)]"
    by (simp add: numeric_cols_def annual_with_note_def)
  from main ne have "columns (repeat_annual_to_monthly annual_with_note)
        = filter (\<lambda>(n, d). n \<noteq> ''year'') (columns annual_with_note)"
    and "length (rows (repeat_annual_to_monthly annual_with_note)) = 12 * length (rows annual_with_note)"
    by blast+
  then have 1: "columns (repeat_annual_to_monthly annual_with_note)
                  = [(''value'', Numeric), (''note'', Object)]"
    and 2: "length (rows (repeat_annual_to_monthly annual_with_note)) = 24"
    by (simp_all add: annual_with_note_def)
  from main nc have 3: "columns (aggregate_daily_to_monthly annual_with_note) = [(''value'', Numeric)]"
    and 4: "columns (interpolate_quarterly_to_monthly annual_with_note) = [(''value'', Numeric)]"
    by simp_all
  note block = main[THEN conjunct2, THEN conjunct2, THEN conjunct2, THEN conjunct2,
      THEN conjunct2, THEN mp, OF ne, THEN conjunct2, THEN conjunct2, THEN conjunct2, rule_format]
  have l: "(1::nat) < length (rows annual_with_note)" "(0::nat) < length (rows annual_with_note)"
    by (simp_all add: annual_with_note_def)
  from block[OF l(1), of 1]
  have 5: "date (rows (repeat_annual_to_monthly annual_with_note) ! 13)
             = \<lparr>year = 2021, month = 2, day = 1\<rparr>"
    by (simp add: annual_with_note_def)
  from block[OF l(1), of 1]
  have "cells (rows (repeat_annual_to_monthly annual_with_note) ! 13) ''note''
          = cells (rows annual_with_note ! 1) ''note''"
    and "cells (rows (repeat_annual_to_monthly annual_with_note) ! 13) ''value''
          = cells (rows annual_with_note ! 1) ''value''"
    by simp_all
  then have 6: "cells (rows (repeat_annual_to_monthly annual_with_note) ! 13) ''note''
             = Some (Txt ''provisional'')"
    and 7: "cells (rows (repeat_annual_to_monthly annual_with_note) ! 13) ''value''
             = Some (Num (Fin 500))"
    by (simp_all add: annual_with_note_def)
  from block[OF l(2), of 11]
  have "cells (rows (repeat_annual_to_monthly annual_with_note) ! 11) ''note''
          = cells (rows annual_with_note ! 0) ''note''"
    by simp
  then have 8: "cells (rows (repeat_annual_to_monthly annual_with_note) ! 11) ''note''
             = Some (Txt ''final'')"
    by (simp add: annual_with_note_def)
  show ?thesis by (intro conjI 1 2 3 4 5 6 7 8)
qed

end
